(* ===== verification/Prelude.thy ===== *)
theory Prelude
  imports
    Main
    "HOL-Library.AList"
    "HOL-Library.Char_ord"
    "HOL-Library.List_Lexorder"
    "HOL-Library.State_Monad"
    "HOL-Library.Sublist"
begin

text \<open>
  Shared ground of the development.
  \<^item> programs: a Go function with effects is a value of \<open>State_Monad\<close>'s type; \<open>wp\<close>
    is its weakest precondition, and the collections \<open>wp_simps\<close>, \<open>emits_intros\<close> carry
    the component proofs;
  \<^item> Go maps as association lists (\<open>map_of\<close>, \<open>AList.update\<close>, sorted keys).
\<close>

named_theorems wp_simps "equations that compute a weakest precondition"
named_theorems emits_intros "which events a program can add to the history"


section \<open>Effectful programs and their weakest preconditions\<close>

definition wp :: "('s, 'a) state \<Rightarrow> ('a \<Rightarrow> 's \<Rightarrow> bool) \<Rightarrow> 's \<Rightarrow> bool" where
  "wp m Q s = (case run_state m s of (a, s') \<Rightarrow> Q a s')"

definition result :: "('s, 'a) state \<Rightarrow> 's \<Rightarrow> 'a" where
  "result m s = fst (run_state m s)"

definition final :: "('s, 'a) state \<Rightarrow> 's \<Rightarrow> 's" where
  "final m s = snd (run_state m s)"

lemma wp_result_final: "wp m Q s = Q (result m s) (final m s)"
  by (simp add: wp_def result_def final_def split: prod.split)

lemma wp_bind [wp_simps]:
  "wp (State_Monad.bind m f) Q s = wp m (\<lambda>a. wp (f a) Q) s"
  by (simp add: wp_def split: prod.split)

lemma wp_return [wp_simps]: "wp (State_Monad.return a) Q s = Q a s"
  by (simp add: wp_def)

lemma wp_get [wp_simps]: "wp State_Monad.get Q s = Q s s"
  by (simp add: wp_def)

lemma wp_set [wp_simps]: "wp (State_Monad.set s') Q s = Q () s'"
  by (simp add: wp_def)

lemma wp_update [wp_simps]: "wp (State_Monad.update f) Q s = Q () (f s)"
  by (simp add: wp_def State_Monad.update_def)

lemma wp_if [wp_simps]:
  "wp (if b then m else n) Q s = (if b then wp m Q s else wp n Q s)"
  by simp

lemma wp_case_option [wp_simps]:
  "wp (case x of None \<Rightarrow> m | Some a \<Rightarrow> f a) Q s =
     (case x of None \<Rightarrow> wp m Q s | Some a \<Rightarrow> wp (f a) Q s)"
  by (cases x) simp_all

lemma wp_case_sum [wp_simps]:
  "wp (case x of Inl e \<Rightarrow> f e | Inr a \<Rightarrow> g a) Q s =
     (case x of Inl e \<Rightarrow> wp (f e) Q s | Inr a \<Rightarrow> wp (g a) Q s)"
  by (cases x) simp_all

lemma wp_case_prod [wp_simps]:
  "wp (case x of (a, b) \<Rightarrow> f a b) Q s = (case x of (a, b) \<Rightarrow> wp (f a b) Q s)"
  by (cases x) simp_all

lemma wp_Let [wp_simps]: "wp (let x = t in f x) Q s = (let x = t in wp (f x) Q s)"
  by (simp add: Let_def)

lemma wp_mono: "wp m Q s \<Longrightarrow> (\<And>a t. Q a t \<Longrightarrow> R a t) \<Longrightarrow> wp m R s"
  by (simp add: wp_result_final)

lemma wp_conj: "wp m Q s \<Longrightarrow> wp m R s \<Longrightarrow> wp m (\<lambda>a t. Q a t \<and> R a t) s"
  by (simp add: wp_result_final)

lemma wp_eqI: "(\<And>Q s. wp m Q s = wp n Q s) \<Longrightarrow> m = n"
proof (rule state.expand, rule ext)
  fix s
  assume "\<And>Q s. wp m Q s = wp n Q s"
  from this [of "\<lambda>a t. (a, t) = run_state m s" s] show "run_state m s = run_state n s"
    by (simp add: wp_def split: prod.splits)
qed

lemma wpI: "(\<And>a t. run_state m s = (a, t) \<Longrightarrow> Q a t) \<Longrightarrow> wp m Q s"
  by (cases "run_state m s") (simp add: wp_def)

lemma wpD: "wp m Q s \<Longrightarrow> run_state m s = (a, t) \<Longrightarrow> Q a t"
  by (simp add: wp_def)


section \<open>Go maps\<close>

text \<open>
  A Go map is an association list: \<open>map_of m k\<close> is \<open>m[k]\<close> with its \<open>ok\<close> flag,
  \<open>AList.update k v m\<close> is \<open>m[k] = v\<close>, \<open>AList.delete k m\<close> is \<open>delete(m, k)\<close>, and
  \<open>sortedKeys\<close> is \<open>slices.Sorted(maps.Keys(m))\<close>. Strings are compared bytewise, as Go
  compares them.
\<close>

type_synonym ('k, 'v) gomap = "('k \<times> 'v) list"

definition sortedKeys :: "('k::linorder, 'v) gomap \<Rightarrow> 'k list" where
  "sortedKeys m = sort (remdups (map fst m))"

text \<open>\<open>m[k]\<close> of a map to strings: the zero value when the key is absent.\<close>

definition strAt :: "('k, string) gomap \<Rightarrow> 'k \<Rightarrow> string" where
  "strAt m k = (case map_of m k of None \<Rightarrow> [] | Some v \<Rightarrow> v)"

text \<open>\<open>maps.Equal\<close>.\<close>

definition mapsEqual :: "('k, 'v) gomap \<Rightarrow> ('k, 'v) gomap \<Rightarrow> bool" where
  "mapsEqual a b = list_all (\<lambda>k. map_of a k = map_of b k) (map fst a @ map fst b)"

lemma set_sortedKeys [simp]: "set (sortedKeys m) = fst ` set m"
  by (simp add: sortedKeys_def)

lemma sorted_sortedKeys [simp]: "sorted (sortedKeys m)"
  by (simp add: sortedKeys_def)

lemma distinct_sortedKeys [simp]: "distinct (sortedKeys m)"
  by (simp add: sortedKeys_def)

lemma sortedKeys_dom: "set (sortedKeys m) = dom (map_of m)"
  by (simp add: dom_map_of_conv_image_fst)

lemma sortedKeys_Nil [simp]: "sortedKeys [] = []"
  by (simp add: sortedKeys_def)

lemma sortedKeys_cong: "map_of a = map_of b \<Longrightarrow> sortedKeys a = sortedKeys b"
  unfolding sortedKeys_def
  by (metis dom_map_of_conv_image_fst list.set_map sorted_list_of_set_sort_remdups)

lemma mapsEqual_iff: "mapsEqual a b \<longleftrightarrow> map_of a = map_of b"
proof
  assume eq: "mapsEqual a b"
  show "map_of a = map_of b"
  proof
    fix k
    show "map_of a k = map_of b k"
    proof (cases "k \<in> fst ` set a \<union> fst ` set b")
      case True
      with eq show ?thesis by (auto simp: mapsEqual_def list_all_iff)
    next
      case False
      then have "map_of a k = None" and "map_of b k = None"
        by (simp_all add: map_of_eq_None_iff)
      then show ?thesis by simp
    qed
  qed
qed (simp add: mapsEqual_def list_all_iff)

lemma strAt_update [simp]: "strAt (AList.update k v m) k' = (if k' = k then v else strAt m k')"
  by (simp add: strAt_def update_conv)

lemma strAt_delete [simp]: "strAt (AList.delete k m) k' = (if k' = k then [] else strAt m k')"
  by (simp add: strAt_def delete_conv)

lemma strAt_Cons [simp]: "strAt ((k, v) # m) k' = (if k' = k then v else strAt m k')"
  by (simp add: strAt_def)

lemma strAt_Nil [simp]: "strAt [] k = []"
  by (simp add: strAt_def)

end
