(* ===== verification/GoStd.thy ===== *)
theory GoStd
  imports Prelude
begin

text \<open>
  The parts of \<open>strconv\<close>, \<open>strings\<close>, \<open>slices\<close> and \<open>cmp\<close> the operator uses, with the
  facts the components rest on: decimal text reads back as the number it prints, and the
  comma-joined list of VM names splits back into its elements.
\<close>


section \<open>Decimal integers (strconv)\<close>

definition digitChar :: "nat \<Rightarrow> char" where
  "digitChar d = char_of (48 + d)"

definition digitVal :: "char \<Rightarrow> nat option" where
  "digitVal c = (let n = of_char c :: nat in if 48 \<le> n \<and> n \<le> 57 then Some (n - 48) else None)"

fun formatNat :: "nat \<Rightarrow> string" where
  "formatNat n = (if n < 10 then [digitChar n] else formatNat (n div 10) @ [digitChar (n mod 10)])"

declare formatNat.simps [simp del]

text \<open>\<open>strconv.FormatInt(n, 10)\<close> and \<open>%d\<close>.\<close>

definition formatInt :: "int \<Rightarrow> string" where
  "formatInt n = (if n < 0 then CHR ''-'' # formatNat (nat (- n)) else formatNat (nat n))"

fun parseDigits :: "nat \<Rightarrow> string \<Rightarrow> nat option" where
  "parseDigits acc [] = Some acc"
| "parseDigits acc (c # cs) =
     (case digitVal c of None \<Rightarrow> None | Some d \<Rightarrow> parseDigits (10 * acc + d) cs)"

definition parseNat :: "string \<Rightarrow> nat option" where
  "parseNat s = (if s = [] then None else parseDigits 0 s)"

text \<open>
  \<open>strconv.ParseInt(s, 10, bits)\<close>: an optional sign, at least one digit, and the value in
  the range of a signed integer of that width; every failure is an error. \<open>strconv.Atoi\<close>
  is the same at the width of \<open>int\<close>, 64 bits.
\<close>

definition parseInt :: "nat \<Rightarrow> string \<Rightarrow> int option" where
  "parseInt bits s =
     (let (neg, ds) = (case s of
          [] \<Rightarrow> (False, [])
        | c # cs \<Rightarrow> if c = CHR ''+'' then (False, cs)
                    else if c = CHR ''-'' then (True, cs) else (False, s))
      in case parseNat ds of
           None \<Rightarrow> None
         | Some n \<Rightarrow>
             let v = (if neg then - int n else int n)
             in if - (2 ^ (bits - 1)) \<le> v \<and> v < 2 ^ (bits - 1) then Some v else None)"

definition atoi :: "string \<Rightarrow> int option" where
  "atoi = parseInt 64"

text \<open>Addition on \<open>int32\<close>: two's complement wrap-around.\<close>

definition wrap32 :: "int \<Rightarrow> int" where
  "wrap32 n = (n + 2 ^ 31) mod 2 ^ 32 - 2 ^ 31"

lemma wrap32_id: "- (2 ^ 31) \<le> n \<Longrightarrow> n < 2 ^ 31 \<Longrightarrow> wrap32 n = n"
  by (simp add: wrap32_def)

lemma wrap32_range: "- (2 ^ 31) \<le> wrap32 n \<and> wrap32 n < 2 ^ 31"
  by (simp add: wrap32_def)

lemma of_char_digitChar: "d < 10 \<Longrightarrow> (of_char (digitChar d) :: nat) = 48 + d"
  by (simp add: digitChar_def)

lemma digitVal_digitChar [simp]: "d < 10 \<Longrightarrow> digitVal (digitChar d) = Some d"
  by (simp add: digitVal_def of_char_digitChar)

lemma digitChar_not_sign:
  "d < 10 \<Longrightarrow> digitChar d \<noteq> CHR ''+''"
  "d < 10 \<Longrightarrow> digitChar d \<noteq> CHR ''-''"
  using of_char_digitChar [of d] by auto

lemma digitVal_less: "digitVal c = Some d \<Longrightarrow> d < 10"
  by (auto simp: digitVal_def Let_def split: if_splits)

lemma parseDigits_append:
  "parseDigits acc (s @ t) = Option.bind (parseDigits acc s) (\<lambda>a. parseDigits a t)"
  by (induction s arbitrary: acc) (auto split: option.split)

lemma parseDigits_formatNat: "parseDigits 0 (formatNat n) = Some n"
proof (induction n rule: formatNat.induct)
  case (1 n)
  show ?case
  proof (cases "n < 10")
    case True
    then show ?thesis by (simp add: formatNat.simps [of n])
  next
    case False
    with 1 show ?thesis by (simp add: formatNat.simps [of n] parseDigits_append)
  qed
qed

lemma formatNat_nonempty [simp]: "formatNat n \<noteq> []"
  by (subst formatNat.simps) simp

lemma parseNat_formatNat [simp]: "parseNat (formatNat n) = Some n"
  by (simp add: parseNat_def parseDigits_formatNat)

lemma formatNat_digits: "c \<in> set (formatNat n) \<Longrightarrow> \<exists>d < 10. c = digitChar d"
proof (induction n rule: formatNat.induct)
  case (1 n)
  show ?case
  proof (cases "n < 10")
    case True
    with "1.prems" show ?thesis by (auto simp: formatNat.simps [of n])
  next
    case False
    have "n mod 10 < 10" by simp
    with False 1 show ?thesis by (auto simp: formatNat.simps [of n] simp del: mod_less_divisor)
  qed
qed

lemma formatNat_not_sign: "set (formatNat n) \<inter> {CHR ''+'', CHR ''-''} = {}"
  using digitChar_not_sign by (fastforce dest!: formatNat_digits)

lemma parseInt_formatInt:
  assumes "- (2 ^ (bits - 1)) \<le> n" and "n < 2 ^ (bits - 1)"
  shows "parseInt bits (formatInt n) = Some n"
proof (cases "n < 0")
  case True
  with assms show ?thesis by (simp add: parseInt_def formatInt_def)
next
  case False
  obtain c cs where c: "formatNat (nat n) = c # cs"
    using formatNat_nonempty by (meson neq_Nil_conv)
  with formatNat_not_sign [of "nat n"] have "c \<noteq> CHR ''+''" and "c \<noteq> CHR ''-''"
    by auto
  with False assms c parseNat_formatNat [of "nat n"] show ?thesis
    by (simp add: parseInt_def formatInt_def)
qed

lemma parseNat_Nil [simp]: "parseNat [] = None"
  by (simp add: parseNat_def)

lemma formatNat_inj [simp]: "formatNat m = formatNat n \<longleftrightarrow> m = n"
  by (metis option.inject parseNat_formatNat)

lemma formatInt_inj [simp]: "formatInt m = formatInt n \<longleftrightarrow> m = n"
proof -
  define b where "b = Suc (nat \<bar>m\<bar> + nat \<bar>n\<bar>)"
  have bound: "\<bar>k\<bar> < 2 ^ (b - 1)" if "nat \<bar>k\<bar> \<le> b - 1" for k :: int
  proof -
    have "nat \<bar>k\<bar> < 2 ^ (b - 1)"
      using that by (meson le_less_trans less_exp)
    then show ?thesis by (simp add: nat_less_iff)
  qed
  have "parseInt b (formatInt m) = Some m" and "parseInt b (formatInt n) = Some n"
    using bound [of m] bound [of n] by (simp_all add: parseInt_formatInt b_def abs_less_iff)
  then show ?thesis by (metis option.inject)
qed

lemma parseInt_range:
  "parseInt bits s = Some v \<Longrightarrow> - (2 ^ (bits - 1)) \<le> v \<and> v < 2 ^ (bits - 1)"
  by (auto simp: parseInt_def Let_def split: list.splits if_splits option.splits)


section \<open>Strings (strings)\<close>

fun join :: "string \<Rightarrow> string list \<Rightarrow> string" where
  "join sep [] = []"
| "join sep [x] = x"
| "join sep (x # y # zs) = x @ sep @ join sep (y # zs)"

text \<open>\<open>strings.Split\<close> and \<open>strings.SplitSeq\<close> on a one-byte separator.\<close>

fun splitOn :: "char \<Rightarrow> string \<Rightarrow> string list" where
  "splitOn sep [] = [[]]"
| "splitOn sep (c # cs) =
     (if c = sep then [] # splitOn sep cs
      else (case splitOn sep cs of [] \<Rightarrow> [[c]] | w # ws \<Rightarrow> (c # w) # ws))"

text \<open>
  The white space of \<open>strings.TrimSpace\<close>: Unicode's White\_Space, as its UTF-8 bytes.
\<close>

definition goSpaces :: "string list" where
  "goSpaces =
     [[CHR 0x09], [CHR 0x0A], [CHR 0x0B], [CHR 0x0C], [CHR 0x0D], [CHR 0x20],
      [CHR 0xC2, CHR 0x85], [CHR 0xC2, CHR 0xA0], [CHR 0xE1, CHR 0x9A, CHR 0x80],
      [CHR 0xE2, CHR 0x80, CHR 0x80], [CHR 0xE2, CHR 0x80, CHR 0x81],
      [CHR 0xE2, CHR 0x80, CHR 0x82], [CHR 0xE2, CHR 0x80, CHR 0x83],
      [CHR 0xE2, CHR 0x80, CHR 0x84], [CHR 0xE2, CHR 0x80, CHR 0x85],
      [CHR 0xE2, CHR 0x80, CHR 0x86], [CHR 0xE2, CHR 0x80, CHR 0x87],
      [CHR 0xE2, CHR 0x80, CHR 0x88], [CHR 0xE2, CHR 0x80, CHR 0x89],
      [CHR 0xE2, CHR 0x80, CHR 0x8A], [CHR 0xE2, CHR 0x80, CHR 0xA8],
      [CHR 0xE2, CHR 0x80, CHR 0xA9], [CHR 0xE2, CHR 0x80, CHR 0xAF],
      [CHR 0xE2, CHR 0x81, CHR 0x9F], [CHR 0xE3, CHR 0x80, CHR 0x80]]"

text \<open>
  \<open>stripOne ps s\<close> removes the first of the prefixes \<open>ps\<close> that \<open>s\<close> starts with;
  repeating it \<open>length s\<close> times removes them all, since each removal shortens the string.
\<close>

fun stripOne :: "string list \<Rightarrow> string \<Rightarrow> string" where
  "stripOne [] s = s"
| "stripOne (p # ps) s = (if prefix p s then drop (length p) s else stripOne ps s)"

definition trimLeft :: "string list \<Rightarrow> string \<Rightarrow> string" where
  "trimLeft ps s = (stripOne ps ^^ length s) s"

definition trimSpace :: "string \<Rightarrow> string" where
  "trimSpace s = rev (trimLeft (map rev goSpaces) (rev (trimLeft goSpaces s)))"

definition noSpaceEnds :: "string \<Rightarrow> bool" where
  "noSpaceEnds s \<longleftrightarrow>
     list_all (\<lambda>p. \<not> prefix p s) goSpaces \<and> list_all (\<lambda>p. \<not> suffix p s) goSpaces"

lemma stripOne_none: "list_all (\<lambda>p. \<not> prefix p s) ps \<Longrightarrow> stripOne ps s = s"
  by (induction ps) auto

lemma trimLeft_none:
  assumes "list_all (\<lambda>p. \<not> prefix p s) ps"
  shows "trimLeft ps s = s"
proof -
  have "(stripOne ps ^^ n) s = s" for n
    using assms by (induction n) (simp_all add: stripOne_none)
  then show ?thesis by (simp add: trimLeft_def)
qed

lemma trimSpace_id: "noSpaceEnds s \<Longrightarrow> trimSpace s = s"
  by (simp add: noSpaceEnds_def trimSpace_def trimLeft_none list.pred_map comp_def
      suffix_to_prefix)

lemma splitOn_nonempty [simp]: "splitOn sep s \<noteq> []"
  by (induction s) (auto split: list.split)

lemma splitOn_no_sep: "sep \<notin> set s \<Longrightarrow> splitOn sep s = [s]"
  by (induction s) auto

lemma splitOn_append:
  "sep \<notin> set s \<Longrightarrow> splitOn sep (s @ sep # t) = s # splitOn sep t"
  by (induction s) auto

lemma splitOn_join:
  assumes "xs \<noteq> []" and "\<forall>x\<in>set xs. sep \<notin> set x"
  shows "splitOn sep (join [sep] xs) = xs"
  using assms
  by (induction "[sep]" xs rule: join.induct) (simp_all add: splitOn_no_sep splitOn_append)

lemma set_splitOn: "w \<in> set (splitOn sep s) \<Longrightarrow> sep \<notin> set w"
proof (induction s arbitrary: w)
  case Nil
  then show ?case by simp
next
  case (Cons c s)
  then show ?case by (cases "splitOn sep s") (auto split: if_splits)
qed


section \<open>Slices (slices, cmp)\<close>

text \<open>\<open>cmp.Or\<close> on strings and on numbers: the first argument that is not the zero value.\<close>

definition strOr :: "string \<Rightarrow> string \<Rightarrow> string" where
  "strOr a b = (if a \<noteq> [] then a else b)"

definition intOr :: "int \<Rightarrow> int \<Rightarrow> int" where
  "intOr a b = (if a \<noteq> 0 then a else b)"

text \<open>\<open>slices.DeleteFunc\<close>.\<close>

definition deleteFunc :: "('a \<Rightarrow> bool) \<Rightarrow> 'a list \<Rightarrow> 'a list" where
  "deleteFunc p = filter (\<lambda>x. \<not> p x)"

text \<open>The integers \<open>a, a + 1, \<dots>, b\<close> a counting loop visits.\<close>

fun slotsFrom :: "int \<Rightarrow> nat \<Rightarrow> int list" where
  "slotsFrom a 0 = []"
| "slotsFrom a (Suc n) = a # slotsFrom (a + 1) n"

lemma set_slotsFrom: "set (slotsFrom a n) = {a ..< a + int n}"
  by (induction n arbitrary: a) auto

lemma sorted_slotsFrom: "sorted (slotsFrom a n) \<and> distinct (slotsFrom a n)"
  by (induction n arbitrary: a) (auto simp: set_slotsFrom)

lemma length_slotsFrom [simp]: "length (slotsFrom a n) = n"
  by (induction n arbitrary: a) auto

lemma deleteFunc_set [simp]: "set (deleteFunc p xs) = {x \<in> set xs. \<not> p x}"
  by (simp add: deleteFunc_def)

end
