(* ===== verification/Kube.thy ===== *)
theory Kube
  imports GoStd
begin

text \<open>
  The data the operator works on and the code it calls but does not contain.
  \<^item> API objects: pods, CocoonSets and CocoonHibernations, with the fields the sources read
    or write, as records; the phases of the two custom resources are the enumerations of
    \<open>config/crd/bases\<close>.
  \<^item> Packages outside the repository (\<open>cocoon-common/meta\<close>, \<open>cocoon-common/k8s\<close>,
    \<open>cocoon-common/apis/v1\<close>, apimachinery, controller-runtime) are records of functions and
    constants, arguments of every definition that calls them; nothing is assumed of them here.
  \<^item> The API server, the OCI registry, the clock and the context answer each call by an
    arbitrary function of the history of all earlier calls and answers. Every call is logged in
    that history together with its answer, so a statement about the order of effects is a
    statement about the history, valid for every behaviour of the outside world.
\<close>


section \<open>Errors and results\<close>

datatype gerr =
    ErrNotFound string            \<comment> \<open>an API error \<open>apierrors.IsNotFound\<close> accepts\<close>
  | ErrAlreadyExists string       \<comment> \<open>an API error \<open>apierrors.IsAlreadyExists\<close> accepts\<close>
  | ErrManifestNotFound           \<comment> \<open>\<open>commonsnapshot.ErrManifestNotFound\<close>\<close>
  | ErrMsg string                 \<comment> \<open>any other error, by its text\<close>
  | ErrWrap string gerr           \<comment> \<open>\<open>fmt.Errorf("...: %w", err)\<close>\<close>
  | ErrJoin "gerr list"           \<comment> \<open>\<open>errors.Join\<close> of non-nil errors\<close>

fun isNotFound :: "gerr \<Rightarrow> bool" where
  "isNotFound (ErrNotFound _) = True"
| "isNotFound (ErrWrap _ e) = isNotFound e"
| "isNotFound _ = False"

fun isAlreadyExists :: "gerr \<Rightarrow> bool" where
  "isAlreadyExists (ErrAlreadyExists _) = True"
| "isAlreadyExists (ErrWrap _ e) = isAlreadyExists e"
| "isAlreadyExists _ = False"

fun isManifestNotFound :: "gerr \<Rightarrow> bool" where
  "isManifestNotFound ErrManifestNotFound = True"
| "isManifestNotFound (ErrWrap _ e) = isManifestNotFound e"
| "isManifestNotFound _ = False"

fun errText :: "gerr \<Rightarrow> string" where
  "errText (ErrNotFound s) = s"
| "errText (ErrAlreadyExists s) = s"
| "errText ErrManifestNotFound = ''manifest not found''"
| "errText (ErrMsg s) = s"
| "errText (ErrWrap p e) = p @ '': '' @ errText e"
| "errText (ErrJoin es) = join [CHR 0x0A] (map errText es)"

text \<open>\<open>errors.Join\<close>: nil when every argument is nil.\<close>

definition joinErrs :: "gerr option list \<Rightarrow> gerr option" where
  "joinErrs es = (let xs = List.map_filter (\<lambda>e. e) es in if xs = [] then None else Some (ErrJoin xs))"

lemma joinErrs_None: "joinErrs es = None \<longleftrightarrow> set es \<subseteq> {None}"
  by (auto simp: joinErrs_def Let_def map_filter_def filter_empty_conv)

text \<open>Durations and instants are nanoseconds; \<open>ctrl.Result\<close> carries \<open>RequeueAfter\<close>.\<close>

type_synonym duration = int

definition second :: duration where
  "second = 1000000000"

definition minute :: duration where
  "minute = 60 * second"

text \<open>
  \<open>time.Since\<close> saturates at the ends of the 64-bit range; arithmetic on durations wraps. The
  zero \<open>time.Time\<close> is 1 January of year 1.
\<close>

definition wrap64 :: "int \<Rightarrow> int" where
  "wrap64 n = (n + 2 ^ 63) mod 2 ^ 64 - 2 ^ 63"

definition timeSub :: "int \<Rightarrow> int \<Rightarrow> duration" where
  "timeSub t u = max (- (2 ^ 63)) (min (2 ^ 63 - 1) (t - u))"

definition zeroTime :: int where
  "zeroTime = - 62135596800000000000"

lemma wrap64_id: "- (2 ^ 63) \<le> n \<Longrightarrow> n < 2 ^ 63 \<Longrightarrow> wrap64 n = n"
  by (simp add: wrap64_def)

record ctrlResult =
  requeueAfter :: duration

abbreviation noRequeue :: ctrlResult where
  "noRequeue \<equiv> \<lparr>requeueAfter = 0\<rparr>"

abbreviation requeueIn :: "duration \<Rightarrow> ctrlResult" where
  "requeueIn d \<equiv> \<lparr>requeueAfter = d\<rparr>"


section \<open>Pods\<close>

type_synonym quantity = string

record resourceRequirements =
  resLimits :: "(string, quantity) gomap"
  resRequests :: "(string, quantity) gomap"

record envFromSource =
  envPrefix :: string
  envConfigMap :: "(string \<times> bool option) option"
  envSecret :: "(string \<times> bool option) option"

record container =
  cntName :: string
  cntImage :: string
  cntResources :: resourceRequirements
  cntEnvFrom :: "envFromSource list"

record nodeSelectorRequirement =
  reqKey :: string
  reqOperator :: string
  reqValues :: "string list"

type_synonym nodeSelectorTerm = "nodeSelectorRequirement list"

record nodeAffinity =
  naRequired :: "nodeSelectorTerm list option"
  naPreferred :: "(int \<times> nodeSelectorTerm) list"

record affinity =
  affNode :: "nodeAffinity option"

record toleration =
  tolKey :: string
  tolOperator :: string
  tolEffect :: string

record ownerReference =
  ownKind :: string
  ownName :: string
  ownUID :: string
  ownController :: bool

record podCondition =
  pcType :: string
  pcStatus :: string
  pcReason :: string
  pcMessage :: string

text \<open>
  A pod has at least one container (the API server rejects a pod without), so
  \<open>Spec.Containers\<close> is its first container and the others.
\<close>

record pod =
  podName :: string
  podNamespace :: string
  podLabels :: "(string, string) gomap"
  podAnnotations :: "(string, string) gomap"
  podDeletionTimestamp :: "int option"
  podOwners :: "ownerReference list"
  podNodeName :: string
  podNodeSelector :: "(string, string) gomap"
  podAffinity :: "affinity option"
  podServiceAccount :: string
  podGracePeriod :: "int option"
  podTolerations :: "toleration list"
  podContainer :: container
  podMoreContainers :: "container list"
  podPhase :: string
  podConditions :: "podCondition list"


section \<open>CocoonSet and CocoonHibernation\<close>

datatype csPhase =
    CSNone | CSPending | CSRunning | CSScaling | CSSuspending | CSSuspended | CSWaking
  | CSMigrating | CSFailed

fun csPhaseText :: "csPhase \<Rightarrow> string" where
  "csPhaseText CSNone = []"
| "csPhaseText CSPending = ''Pending''"
| "csPhaseText CSRunning = ''Running''"
| "csPhaseText CSScaling = ''Scaling''"
| "csPhaseText CSSuspending = ''Suspending''"
| "csPhaseText CSSuspended = ''Suspended''"
| "csPhaseText CSWaking = ''Waking''"
| "csPhaseText CSMigrating = ''Migrating''"
| "csPhaseText CSFailed = ''Failed''"

datatype hibPhase = HPNone | HPPending | HPHibernating | HPHibernated | HPWaking | HPActive | HPFailed

fun hibPhaseText :: "hibPhase \<Rightarrow> string" where
  "hibPhaseText HPNone = []"
| "hibPhaseText HPPending = ''Pending''"
| "hibPhaseText HPHibernating = ''Hibernating''"
| "hibPhaseText HPHibernated = ''Hibernated''"
| "hibPhaseText HPWaking = ''Waking''"
| "hibPhaseText HPActive = ''Active''"
| "hibPhaseText HPFailed = ''Failed''"

datatype hibernatePolicy = PolicyUnset | PolicyRetain | PolicyRelease

datatype snapshotPolicy = SnapUnset | SnapAlways | SnapMainOnly | SnapNever

datatype toolboxMode = TbUnset | TbRun | TbClone | TbStatic

text \<open>\<open>DesireOther\<close> is a value admission should have rejected.\<close>

datatype desire = DesireHibernate | DesireWake | DesireOther string

fun desireText :: "desire \<Rightarrow> string" where
  "desireText DesireHibernate = ''Hibernate''"
| "desireText DesireWake = ''Wake''"
| "desireText (DesireOther s) = s"

text \<open>\<open>VMOptions\<close>, shared by agents and toolboxes.\<close>

record vmOptions =
  optOS :: string
  optBackend :: string
  optConnType :: string
  optNetwork :: string
  optForcePull :: bool
  optNoDirectIO :: bool
  optProbePort :: int

record agentSpec =
  agReplicas :: int
  agImage :: string
  agMode :: string
  agOptions :: vmOptions
  agResources :: resourceRequirements
  agStorage :: "quantity option"
  agEnvFrom :: "envFromSource list"
  agServiceAccount :: string

record toolboxSpec =
  tbName :: string
  tbMode :: toolboxMode
  tbImage :: string
  tbOptions :: vmOptions
  tbResources :: resourceRequirements
  tbStorage :: "quantity option"
  tbStaticVMID :: string
  tbStaticIP :: string
  tbVNCPort :: int

record cocoonSetSpec =
  specAgent :: agentSpec
  specToolboxes :: "toolboxSpec list"
  specSuspend :: bool
  specHibernatePolicy :: hibernatePolicy
  specSnapshotPolicy :: snapshotPolicy
  specNodeName :: string
  specNodePool :: string
  specSnapshotClass :: string

record agentStatus =
  asSlot :: int
  asRole :: string
  asPodName :: string
  asVMName :: string
  asVMID :: string
  asIP :: string
  asPhase :: string
  asForkedFrom :: string

record toolboxStatus =
  tsName :: string
  tsPodName :: string
  tsVMName :: string
  tsVMID :: string
  tsIP :: string
  tsPhase :: string
  tsConnType :: string
  tsVNCPort :: int

text \<open>A condition's zero \<open>LastTransitionTime\<close> is \<open>None\<close>.\<close>

record condition =
  cdType :: string
  cdStatus :: string
  cdReason :: string
  cdMessage :: string
  cdObservedGeneration :: int
  cdLastTransition :: "int option"

record cocoonSetStatus =
  stObservedGeneration :: int
  stPhase :: csPhase
  stReadyAgents :: int
  stDesiredAgents :: int
  stReadyToolboxes :: int
  stDesiredToolboxes :: int
  stAgents :: "agentStatus list"
  stToolboxes :: "toolboxStatus list"
  stConditions :: "condition list"

record cocoonSet =
  csName :: string
  csNamespace :: string
  csUID :: string
  csGeneration :: int
  csDeletionTimestamp :: "int option"
  csFinalizers :: "string list"
  csAnnotations :: "(string, string) gomap"
  csSpec :: cocoonSetSpec
  csStatus :: cocoonSetStatus

record hibernationStatus =
  hsObservedGeneration :: int
  hsPhase :: hibPhase
  hsVMName :: string
  hsConditions :: "condition list"

record cocoonHibernation =
  hbName :: string
  hbNamespace :: string
  hbUID :: string
  hbGeneration :: int
  hbDeletionTimestamp :: "int option"
  hbFinalizers :: "string list"
  hbPodRef :: string
  hbDesire :: desire
  hbStatus :: hibernationStatus

end
