(* ===== verification/Metrics.thy ===== *)
theory Metrics
  imports Prelude
begin

text \<open>
  \<open>metrics/metrics.go\<close>: the Prometheus collectors. A collector is one of the package's
  variables; \<open>vecOf\<close> holds what it is declared with. The prometheus package is outside the
  repository: what the code relies on is that \<open>WithLabelValues\<close> panics unless it is given one value
  per declared label (\<open>labelled\<close>), and that \<open>MustRegister\<close> panics on two collectors with one name or
  on a malformed one (\<open>registrable\<close>).
\<close>

datatype collector =
    SubAgentRebuildTotal
  | SubAgentDeadLetterTotal
  | HibernatePhaseDurationSeconds
  | WakePhaseDurationSeconds
  | LifecycleStateFailedObservedTotal
  | SlotReleasePodsDeletedTotal
  | SlotReleaseWakeTotal
  | SlotReleaseWakeUnschedulableTotal
  | MigrateUnschedulableTotal

datatype vecKind = CounterVec | HistogramVec

record vecOpts =
  cvKind :: vecKind
  cvNamespace :: string
  cvSubsystem :: string
  cvName :: string
  cvHelp :: string
  cvBuckets :: "int list"          \<comment> \<open>whole seconds\<close>
  cvLabels :: "string list"

definition metricNamespace :: string where
  "metricNamespace = ''cocoon''"

definition metricSubsystem :: string where
  "metricSubsystem = ''operator''"

definition labelNamespace :: string where
  "labelNamespace = ''namespace''"

definition labelCocoonSet :: string where
  "labelCocoonSet = ''cocoonset''"

definition counterVec :: "string \<Rightarrow> string \<Rightarrow> string list \<Rightarrow> vecOpts" where
  "counterVec name help ls = \<lparr>cvKind = CounterVec, cvNamespace = metricNamespace,
     cvSubsystem = metricSubsystem, cvName = name, cvHelp = help, cvBuckets = [], cvLabels = ls\<rparr>"

definition histogramVec :: "string \<Rightarrow> string \<Rightarrow> int list \<Rightarrow> string list \<Rightarrow> vecOpts" where
  "histogramVec name help buckets ls = \<lparr>cvKind = HistogramVec, cvNamespace = metricNamespace,
     cvSubsystem = metricSubsystem, cvName = name, cvHelp = help, cvBuckets = buckets, cvLabels = ls\<rparr>"

fun vecOf :: "collector \<Rightarrow> vecOpts" where
  "vecOf SubAgentRebuildTotal = counterVec ''subagent_rebuild_total''
     ''Number of owned pods deleted for recreate within their rebuild budget.''
     [labelNamespace, labelCocoonSet]"
| "vecOf SubAgentDeadLetterTotal = counterVec ''subagent_dead_letter_total''
     ''Number of owned pods parked in dead-letter after exhausting rebuild attempts.''
     [labelNamespace, labelCocoonSet]"
| "vecOf HibernatePhaseDurationSeconds = histogramVec ''hibernate_phase_duration_seconds''
     ''Time spent in CocoonHibernation Hibernating phase, bucketed by result.''
     [10, 30, 60, 180, 600, 1800] [''result'']"
| "vecOf WakePhaseDurationSeconds = histogramVec ''wake_phase_duration_seconds''
     ''Time spent in CocoonHibernation Waking phase, bucketed by result.''
     [10, 30, 60, 180, 600, 1800] [''result'']"
| "vecOf LifecycleStateFailedObservedTotal = counterVec ''lifecycle_state_failed_observed_total''
     ''Number of times the operator consumed a Pod lifecycle-state=Failed annotation.''
     [''phase'']"
| "vecOf SlotReleasePodsDeletedTotal = counterVec ''slot_release_pods_deleted_total''
     ''Number of hibernated pods deleted by release-policy suspend to free their scheduling seat.''
     [labelNamespace, labelCocoonSet]"
| "vecOf SlotReleaseWakeTotal = counterVec ''slot_release_wake_total''
     (''Number of released-seat wakes that reached a live VM, by placement (hint-node=landed back on the '' @
      ''hibernated-on node, pool=rescheduled elsewhere). A hint-node landing restores from the node-local '' @
      ''snapshot; pool pulls from the registry.'')
     [labelNamespace, labelCocoonSet, ''placement'']"
| "vecOf SlotReleaseWakeUnschedulableTotal = counterVec ''slot_release_wake_unschedulable_total''
     ''Number of reconcile passes that observed a released-seat wake pod Unschedulable (out of capacity).''
     [labelNamespace, labelCocoonSet]"
| "vecOf MigrateUnschedulableTotal = counterVec ''migrate_unschedulable_total''
     (''Number of reconcile passes that observed a migrating main pod Unschedulable on its target node '' @
      ''(out of capacity).'')
     [labelNamespace, labelCocoonSet]"

declare vecOf.simps [simp del]

text \<open>The collectors \<open>Register\<close> hands to \<open>MustRegister\<close>, in order.\<close>

definition Register :: "collector list" where
  "Register = [SubAgentRebuildTotal, SubAgentDeadLetterTotal, HibernatePhaseDurationSeconds,
     WakePhaseDurationSeconds, LifecycleStateFailedObservedTotal, SlotReleasePodsDeletedTotal,
     SlotReleaseWakeTotal, SlotReleaseWakeUnschedulableTotal, MigrateUnschedulableTotal]"


section \<open>What the prometheus package accepts\<close>

text \<open>An update of a registered collector with one value per declared label.\<close>

definition labelled :: "collector \<Rightarrow> string list \<Rightarrow> bool" where
  "labelled c ls \<longleftrightarrow> c \<in> set Register \<and> length ls = length (cvLabels (vecOf c))"

lemma labelled_collectors [simp, emits_intros]:
  "labelled SubAgentRebuildTotal [a, b]" "labelled SubAgentDeadLetterTotal [a, b]"
  "labelled HibernatePhaseDurationSeconds [a]" "labelled WakePhaseDurationSeconds [a]"
  "labelled LifecycleStateFailedObservedTotal [a]" "labelled SlotReleasePodsDeletedTotal [a, b]"
  "labelled SlotReleaseWakeTotal [a, b, c]" "labelled SlotReleaseWakeUnschedulableTotal [a, b]"
  "labelled MigrateUnschedulableTotal [a, b]"
  by (simp_all add: labelled_def Register_def vecOf.simps counterVec_def histogramVec_def)

text \<open>
  The data model of metric and label names: a letter or an underscore, then letters, digits and
  underscores; a label may not start with two underscores.
\<close>

fun nameChar :: "char \<Rightarrow> bool" where
  "nameChar c \<longleftrightarrow> c = CHR ''_'' \<or> (CHR ''a'' \<le> c \<and> c \<le> CHR ''z'') \<or> (CHR ''A'' \<le> c \<and> c \<le> CHR ''Z'')"

fun validName :: "string \<Rightarrow> bool" where
  "validName [] = False"
| "validName (c # cs) = (nameChar c \<and> list_all (\<lambda>d. nameChar d \<or> (CHR ''0'' \<le> d \<and> d \<le> CHR ''9'')) cs)"

definition validVec :: "vecOpts \<Rightarrow> bool" where
  "validVec v \<longleftrightarrow>
     validName (cvNamespace v) \<and> validName (cvSubsystem v) \<and> validName (cvName v) \<and>
     list_all (\<lambda>l. validName l \<and> take 2 l \<noteq> ''__'') (cvLabels v) \<and> distinct (cvLabels v) \<and>
     sorted_wrt (<) (cvBuckets v) \<and> (cvKind v = HistogramVec \<longrightarrow> ''le'' \<notin> set (cvLabels v))"

definition registrable :: "collector list \<Rightarrow> bool" where
  "registrable cs \<longleftrightarrow> list_all (\<lambda>c. validVec (vecOf c)) cs \<and>
     distinct (map (\<lambda>c. (cvNamespace (vecOf c), cvSubsystem (vecOf c), cvName (vecOf c))) cs)"

text \<open>
  \<open>Register\<close> does not panic and leaves nothing out: every collector of the package is
  registered exactly once, no two share a name, all metric and label names are well formed, the labels of
  each are distinct, and the buckets of each histogram increase.
\<close>

theorem register_total:
  "registrable Register \<and> distinct Register \<and> set Register = UNIV"
proof -
  have "c \<in> set Register" for c by (cases c) (simp_all add: Register_def)
  moreover have "registrable Register" by code_simp
  moreover have "distinct Register" by (simp add: Register_def)
  ultimately show ?thesis by auto
qed

end
