(* ===== verification/World.thy ===== *)
theory World
  imports Kube Metrics
begin

text \<open>
  The outside world of a reconcile pass: the packages the operator imports, the API server,
  the registry, the clock, and the history in which every call is logged with its answer.
  The last section is the footprint calculus \<open>emits\<close>: which events a program can add to
  the history, composed over the program's structure.
\<close>


section \<open>Imported packages\<close>

text \<open>\<open>meta.VMSpec\<close>, \<open>meta.VMRuntime\<close> and \<open>meta.LifecycleStatus\<close>.\<close>

record vmSpec =
  vmName :: string
  vmManaged :: bool
  vmImage :: string
  vmForkFrom :: string
  vmOS :: string
  vmConnType :: string
  vmOther :: "string list"        \<comment> \<open>the comparable fields the operator never reads\<close>

record vmRuntime =
  rtVMID :: string
  rtIP :: string
  rtVNCPort :: int

record lifecycleStatus =
  lsState :: string
  lsObservedGeneration :: int

text \<open>Constants and functions of \<open>cocoon-common/meta\<close>.\<close>

record metaPkg =
  LabelCocoonSet :: string
  LabelRole :: string
  LabelSlot :: string
  LabelNodePool :: string
  LabelSnapshotClass :: string
  RoleMain :: string
  RoleSubAgent :: string
  RoleToolbox :: string
  DefaultNodePool :: string
  TolerationKey :: string
  HibernateSnapshotTag :: string
  DefaultSnapshotTag :: string
  AnnotationCocoonSetGeneration :: string
  AnnotationHibernatedOnNode :: string
  AnnotationLifecycleStateMessage :: string
  AnnotationVMName :: string
  LifecycleStateFailed :: string
  LifecycleStateHibernated :: string
  LifecycleStateReady :: string
  ParseVMSpec :: "pod \<Rightarrow> vmSpec"
  ParseVMRuntime :: "pod \<Rightarrow> vmRuntime"
  FromAgentSpec :: "agentSpec \<Rightarrow> string \<Rightarrow> snapshotPolicy \<Rightarrow> string \<Rightarrow> vmSpec"
  FromToolboxSpec :: "toolboxSpec \<Rightarrow> string \<Rightarrow> snapshotPolicy \<Rightarrow> vmSpec"
  ApplyVMSpec :: "vmSpec \<Rightarrow> pod \<Rightarrow> pod"
  ApplyVMRuntime :: "vmRuntime \<Rightarrow> pod \<Rightarrow> pod"
  ReadHibernateState :: "pod \<Rightarrow> bool"
  ApplyHibernateState :: "bool \<Rightarrow> pod \<Rightarrow> pod"
  ReadKeepSnapshotOnDelete :: "pod \<Rightarrow> bool"
  MarkKeepSnapshotOnDelete :: "pod \<Rightarrow> pod"
  ReadCocoonSetGeneration :: "pod \<Rightarrow> int"
  StampCocoonSetGeneration :: "int \<Rightarrow> pod \<Rightarrow> pod"
  ReadRestoreFromHibernate :: "pod \<Rightarrow> bool"
  MarkRestoreFromHibernate :: "pod \<Rightarrow> pod"
  ReadLifecycleStatus :: "pod \<Rightarrow> lifecycleStatus"
  ReadLifecycleState :: "pod \<Rightarrow> string"
  IsPodReady :: "pod \<Rightarrow> bool"
  IsPodTerminal :: "pod \<Rightarrow> bool"
  VMLive :: "pod \<Rightarrow> bool"
  VMNameForDeployment :: "string \<Rightarrow> string \<Rightarrow> int \<Rightarrow> string"
  VMNameForPod :: "string \<Rightarrow> string \<Rightarrow> string"
  ToolboxPodName :: "string \<Rightarrow> string \<Rightarrow> string"
  ExtractAgentSlot :: "string \<Rightarrow> string \<Rightarrow> string \<Rightarrow> int"
  ConnectionType :: "string \<Rightarrow> bool \<Rightarrow> string \<Rightarrow> string"
  PodNodePool :: "pod \<Rightarrow> string"

text \<open>
  Functions of \<open>cocoon-common/apis/v1\<close>, \<open>cocoon-common/k8s\<close>, \<open>cocoon-common/manifest\<close>,
  apimachinery and controller-runtime's \<open>controllerutil\<close>. A pointer into a condition
  slice (\<open>FindStatusCondition\<close>) is an index; \<open>SetStatusCondition\<close> reads the clock, so the
  instant is an argument.
\<close>

record kubePkg =
  HibernatePolicyDefault :: "hibernatePolicy \<Rightarrow> hibernatePolicy"
  SnapshotPolicyDefault :: "snapshotPolicy \<Rightarrow> snapshotPolicy"
  ConditionTypeReady :: string
  NewReadyCondition :: "int \<Rightarrow> string \<Rightarrow> string \<Rightarrow> string \<Rightarrow> condition"
  SetStatusCondition :: "int \<Rightarrow> condition list \<Rightarrow> condition \<Rightarrow> condition list"
  FindStatusCondition :: "condition list \<Rightarrow> string \<Rightarrow> nat option"
  AnnotationsMergePatch :: "string \<Rightarrow> string option \<Rightarrow> gerr option"
  SetControllerReference :: "cocoonSet \<Rightarrow> pod \<Rightarrow> gerr + pod"
  IsControlledBy :: "pod \<Rightarrow> cocoonSet \<Rightarrow> bool"
  AddFinalizer :: "string list \<Rightarrow> string \<Rightarrow> bool \<times> string list"
  RemoveFinalizer :: "string list \<Rightarrow> string \<Rightarrow> bool \<times> string list"
  DeepEqualStatus :: "cocoonSetStatus \<Rightarrow> cocoonSetStatus \<Rightarrow> bool"
  DeepEqualEnvFrom :: "envFromSource list \<Rightarrow> envFromSource list \<Rightarrow> bool"
  QuantityZero :: quantity
  QuantityCmp :: "quantity \<Rightarrow> quantity \<Rightarrow> int"
  QuantityIsZero :: "quantity \<Rightarrow> bool"
  ManifestParse :: "string \<Rightarrow> gerr + (string, string) gomap"
  AnnotationSnapshotBaseImage :: string


section \<open>History\<close>

text \<open>
  One event per call, with its answer. A patch logs the object before, the object the caller
  asked for, and the error. \<open>EvRecord\<close> is a Kubernetes Event, \<open>EvMetric\<close> a metric update;
  \<open>EvLock\<close> and \<open>EvUnlock\<close> are a stripe of the hibernation reconciler's lock table.
\<close>

datatype event =
    EvGetSet string string "gerr + cocoonSet"
  | EvGetHib string string "gerr + cocoonHibernation"
  | EvGetPod string string "gerr + pod"
  | EvReadPod string string "gerr + pod"
  | EvListPods string string string "gerr + pod list"
  | EvListHibs string "gerr + cocoonHibernation list"
  | EvListHibsByPodRef string string "gerr + cocoonHibernation list"
  | EvUpdateSet cocoonSet "gerr option"
  | EvPatchSet cocoonSet cocoonSet "gerr option"
  | EvPatchSetStatus cocoonSet cocoonSet "gerr option"
  | EvAnnotateSet cocoonSet string "string option" "gerr option"
  | EvPatchPod pod pod "gerr option"
  | EvAnnotatePod pod string "string option" "gerr option"
  | EvCreatePod pod "gerr option"
  | EvDeletePod pod "gerr option"
  | EvUpdateHib cocoonHibernation "gerr option"
  | EvPatchHibStatus cocoonHibernation cocoonHibernation "gerr option"
  | EvHasManifest string string "gerr + bool"
  | EvGetManifest string string "gerr + string"
  | EvDeleteManifest string string "gerr option"
  | EvNow int
  | EvCtx "gerr option"
  | EvRecord string string string
  | EvMetric collector "string list" int
  | EvLock nat
  | EvUnlock nat

type_synonym history = "event list"

text \<open>
  The API server through the cached client (\<open>client.Client\<close>), the uncached reader
  (\<open>APIReader\<close>) and the helpers \<open>commonk8s.Patch\<close> and \<open>PatchStatus\<close>. A write answers
  with its error and with the object as the call leaves it.
\<close>

record clientApi =
  cliGetSet :: "history \<Rightarrow> string \<Rightarrow> string \<Rightarrow> gerr + cocoonSet"
  cliGetHib :: "history \<Rightarrow> string \<Rightarrow> string \<Rightarrow> gerr + cocoonHibernation"
  cliGetPod :: "history \<Rightarrow> string \<Rightarrow> string \<Rightarrow> gerr + pod"
  cliReadPod :: "history \<Rightarrow> string \<Rightarrow> string \<Rightarrow> gerr + pod"
  cliListPods :: "history \<Rightarrow> string \<Rightarrow> string \<Rightarrow> string \<Rightarrow> gerr + pod list"
  cliListHibs :: "history \<Rightarrow> string \<Rightarrow> gerr + cocoonHibernation list"
  cliListHibsByPodRef :: "history \<Rightarrow> string \<Rightarrow> string \<Rightarrow> gerr + cocoonHibernation list"
  cliUpdateSet :: "history \<Rightarrow> cocoonSet \<Rightarrow> gerr option \<times> cocoonSet"
  cliPatchSet :: "history \<Rightarrow> cocoonSet \<Rightarrow> cocoonSet \<Rightarrow> gerr option \<times> cocoonSet"
  cliPatchSetStatus :: "history \<Rightarrow> cocoonSet \<Rightarrow> cocoonSet \<Rightarrow> gerr option \<times> cocoonSet"
  cliAnnotateSet :: "history \<Rightarrow> cocoonSet \<Rightarrow> string \<Rightarrow> string option \<Rightarrow> gerr option \<times> cocoonSet"
  cliPatchPod :: "history \<Rightarrow> pod \<Rightarrow> pod \<Rightarrow> gerr option \<times> pod"
  cliAnnotatePod :: "history \<Rightarrow> pod \<Rightarrow> string \<Rightarrow> string option \<Rightarrow> gerr option \<times> pod"
  cliCreatePod :: "history \<Rightarrow> pod \<Rightarrow> gerr option"
  cliDeletePod :: "history \<Rightarrow> pod \<Rightarrow> gerr option"
  cliUpdateHib :: "history \<Rightarrow> cocoonHibernation \<Rightarrow> gerr option \<times> cocoonHibernation"
  cliPatchHibStatus ::
    "history \<Rightarrow> cocoonHibernation \<Rightarrow> cocoonHibernation \<Rightarrow> gerr option \<times> cocoonHibernation"

text \<open>\<open>snapshot.Registry\<close>.\<close>

record registryApi =
  regGetManifest :: "history \<Rightarrow> string \<Rightarrow> string \<Rightarrow> gerr + string"
  regHasManifest :: "history \<Rightarrow> string \<Rightarrow> string \<Rightarrow> gerr + bool"
  regDeleteManifest :: "history \<Rightarrow> string \<Rightarrow> string \<Rightarrow> gerr option"

text \<open>
  The dependencies of both \<open>Reconciler\<close> structs: the packages, the client, the registry, the
  clock, the cancellation of the context, the Go scheduler and the hash of the lock table.
\<close>

record env =
  meta :: metaPkg
  kube :: kubePkg
  cli :: clientApi
  registry :: registryApi
  clock :: "history \<Rightarrow> int"
  ctxErr :: "history \<Rightarrow> gerr option"
  sched :: "history \<Rightarrow> nat list"        \<comment> \<open>which goroutine runs next, chosen by the runtime\<close>
  vmHash :: "string \<Rightarrow> nat"             \<comment> \<open>\<open>maphash.String\<close> under the process's seed\<close>

text \<open>
  The state of a program starts with the history; each reconciler extends it with the objects
  its pointers lead to.
\<close>

record world =
  hist :: history


section \<open>Primitive calls\<close>

definition emit :: "event \<Rightarrow> ('z world_scheme, unit) state" where
  "emit e = State_Monad.update (\<lambda>s. s\<lparr>hist := e # hist s\<rparr>)"

text \<open>Ask the outside world, then log the question with its answer.\<close>

definition ask :: "(history \<Rightarrow> 'a) \<Rightarrow> ('a \<Rightarrow> event) \<Rightarrow> ('z world_scheme, 'a) state" where
  "ask f ev = do {
     s \<leftarrow> State_Monad.get;
     let a = f (hist s);
     emit (ev a);
     State_Monad.return a
   }"

lemma wp_emit [wp_simps]: "wp (emit e) Q s = Q () (s\<lparr>hist := e # hist s\<rparr>)"
  by (simp add: emit_def wp_simps)

lemma wp_ask [wp_simps]:
  "wp (ask f ev) Q s = Q (f (hist s)) (s\<lparr>hist := ev (f (hist s)) # hist s\<rparr>)"
  by (simp add: ask_def wp_simps Let_def)

definition getSet where
  "getSet r ns n = ask (\<lambda>h. cliGetSet (cli r) h ns n) (EvGetSet ns n)"

definition getHib where
  "getHib r ns n = ask (\<lambda>h. cliGetHib (cli r) h ns n) (EvGetHib ns n)"

definition getPod where
  "getPod r ns n = ask (\<lambda>h. cliGetPod (cli r) h ns n) (EvGetPod ns n)"

definition readPod where
  "readPod r ns n = ask (\<lambda>h. cliReadPod (cli r) h ns n) (EvReadPod ns n)"

definition listPods where
  "listPods r ns k v = ask (\<lambda>h. cliListPods (cli r) h ns k v) (EvListPods ns k v)"

definition listHibs where
  "listHibs r ns = ask (\<lambda>h. cliListHibs (cli r) h ns) (EvListHibs ns)"

definition listHibsByPodRef where
  "listHibsByPodRef r ns p = ask (\<lambda>h. cliListHibsByPodRef (cli r) h ns p) (EvListHibsByPodRef ns p)"

definition updateSet where
  "updateSet r cs = ask (\<lambda>h. cliUpdateSet (cli r) h cs) (\<lambda>a. EvUpdateSet cs (fst a))"

definition patchSet where
  "patchSet r cs f = ask (\<lambda>h. cliPatchSet (cli r) h cs (f cs)) (\<lambda>a. EvPatchSet cs (f cs) (fst a))"

definition patchSetStatus where
  "patchSetStatus r cs f =
     ask (\<lambda>h. cliPatchSetStatus (cli r) h cs (f cs)) (\<lambda>a. EvPatchSetStatus cs (f cs) (fst a))"

definition annotateSet where
  "annotateSet r cs k v =
     ask (\<lambda>h. cliAnnotateSet (cli r) h cs k v) (\<lambda>a. EvAnnotateSet cs k v (fst a))"

definition patchPod where
  "patchPod r p f = ask (\<lambda>h. cliPatchPod (cli r) h p (f p)) (\<lambda>a. EvPatchPod p (f p) (fst a))"

definition annotatePod where
  "annotatePod r p k v = ask (\<lambda>h. cliAnnotatePod (cli r) h p k v) (\<lambda>a. EvAnnotatePod p k v (fst a))"

definition createPod where
  "createPod r p = ask (\<lambda>h. cliCreatePod (cli r) h p) (EvCreatePod p)"

definition deletePod where
  "deletePod r p = ask (\<lambda>h. cliDeletePod (cli r) h p) (EvDeletePod p)"

definition updateHib where
  "updateHib r hb = ask (\<lambda>h. cliUpdateHib (cli r) h hb) (\<lambda>a. EvUpdateHib hb (fst a))"

definition patchHibStatus where
  "patchHibStatus r hb f =
     ask (\<lambda>h. cliPatchHibStatus (cli r) h hb (f hb)) (\<lambda>a. EvPatchHibStatus hb (f hb) (fst a))"

definition hasManifest where
  "hasManifest r n t = ask (\<lambda>h. regHasManifest (registry r) h n t) (EvHasManifest n t)"

definition getManifest where
  "getManifest r n t = ask (\<lambda>h. regGetManifest (registry r) h n t) (EvGetManifest n t)"

definition deleteManifest where
  "deleteManifest r n t = ask (\<lambda>h. regDeleteManifest (registry r) h n t) (EvDeleteManifest n t)"

definition now where
  "now r = ask (clock r) EvNow"

definition ctxCheck where
  "ctxCheck r = ask (ctxErr r) EvCtx"

lemmas call_defs = getSet_def getHib_def getPod_def readPod_def listPods_def listHibs_def
  listHibsByPodRef_def updateSet_def patchSet_def patchSetStatus_def annotateSet_def patchPod_def
  annotatePod_def createPod_def deletePod_def updateHib_def patchHibStatus_def hasManifest_def
  getManifest_def deleteManifest_def now_def ctxCheck_def


declare call_defs [wp_simps]


section \<open>Footprints\<close>

text \<open>
  \<open>emits K m\<close>: whatever the outside world answers, \<open>m\<close> only adds events of kind \<open>K\<close>
  to the history, and never rewrites it.
\<close>

definition emits :: "(event \<Rightarrow> bool) \<Rightarrow> ('z world_scheme, 'a) state \<Rightarrow> bool" where
  "emits K m \<longleftrightarrow> (\<forall>s. \<exists>es. hist (final m s) = es @ hist s \<and> list_all K es)"

lemma final_return [simp]: "final (State_Monad.return a) s = s"
  by (simp add: final_def)

lemma result_return [simp]: "result (State_Monad.return a) s = a"
  by (simp add: result_def)

lemma final_bind: "final (State_Monad.bind m f) s = final (f (result m s)) (final m s)"
  by (simp add: final_def result_def split: prod.split)

lemma result_bind: "result (State_Monad.bind m f) s = result (f (result m s)) (final m s)"
  by (simp add: final_def result_def split: prod.split)

lemma emitsE:
  assumes "emits K m"
  obtains es where "hist (final m s) = es @ hist s" and "list_all K es"
  using assms by (auto simp: emits_def)

lemma emitsD: "emits K m \<Longrightarrow> \<exists>es. hist (final m s) = es @ hist s \<and> list_all K es"
  by (simp add: emits_def)

lemma emits_mono: "emits K m \<Longrightarrow> (\<And>e. K e \<Longrightarrow> L e) \<Longrightarrow> emits L m"
  unfolding emits_def by (metis list.pred_mono_strong)

lemma emits_return [emits_intros]: "emits K (State_Monad.return a)"
  by (simp add: emits_def)

lemma emits_get [emits_intros]: "emits K State_Monad.get"
  by (simp add: emits_def final_def)

lemma emits_update [emits_intros]: "(\<And>s. hist (f s) = hist s) \<Longrightarrow> emits K (State_Monad.update f)"
  by (simp add: emits_def final_def State_Monad.update_def)

lemma emits_bind [emits_intros]:
  assumes "emits K m" and "\<And>a. emits K (f a)"
  shows "emits K (State_Monad.bind m f)"
  unfolding emits_def
proof
  fix s
  obtain es where es: "hist (final m s) = es @ hist s" "list_all K es"
    using assms(1) by (rule emitsE)
  obtain fs where "hist (final (f (result m s)) (final m s)) = fs @ hist (final m s)" "list_all K fs"
    using assms(2) by (rule emitsE)
  with es show "\<exists>es. hist (final (State_Monad.bind m f) s) = es @ hist s \<and> list_all K es"
    by (intro exI [of _ "fs @ es"]) (simp add: final_bind)
qed

lemma emits_emit [emits_intros]: "K e \<Longrightarrow> emits K (emit e)"
  by (simp add: emits_def emit_def final_def State_Monad.update_def)

lemma emits_ask [emits_intros]: "(\<And>a. K (ev a)) \<Longrightarrow> emits K (ask f ev)"
  unfolding ask_def Let_def by (intro emits_intros)

lemma emits_if [emits_intros]:
  "(b \<Longrightarrow> emits K m) \<Longrightarrow> (\<not> b \<Longrightarrow> emits K n) \<Longrightarrow> emits K (if b then m else n)"
  by simp

lemma emits_option [emits_intros]:
  "(x = None \<Longrightarrow> emits K m) \<Longrightarrow> (\<And>a. x = Some a \<Longrightarrow> emits K (f a)) \<Longrightarrow>
     emits K (case x of None \<Rightarrow> m | Some a \<Rightarrow> f a)"
  by (cases x) auto

lemma emits_sum [emits_intros]:
  "(\<And>e. x = Inl e \<Longrightarrow> emits K (f e)) \<Longrightarrow> (\<And>a. x = Inr a \<Longrightarrow> emits K (g a)) \<Longrightarrow>
     emits K (case x of Inl e \<Rightarrow> f e | Inr a \<Rightarrow> g a)"
  by (cases x) auto

lemma emits_prod [emits_intros]:
  "(\<And>a b. x = (a, b) \<Longrightarrow> emits K (f a b)) \<Longrightarrow> emits K (case x of (a, b) \<Rightarrow> f a b)"
  by (cases x) auto

lemma emits_Let [emits_intros]: "(\<And>x. x = t \<Longrightarrow> emits K (f x)) \<Longrightarrow> emits K (let x = t in f x)"
  by simp

lemma emits_wp: "emits K m \<Longrightarrow> wp m (\<lambda>_ t. \<exists>es. hist t = es @ hist s \<and> list_all K es) s"
  by (simp add: emits_def wp_result_final)

lemma emits_after:
  assumes "emits K m" and "hist t = fs @ h" and "list_all K fs"
  shows "wp m (\<lambda>_ u. \<exists>es. hist u = es @ h \<and> list_all K es) t"
  using emits_wp [OF assms(1)] by (rule wp_mono) (use assms(2,3) in \<open>auto intro: exI [of _ "_ @ fs"]\<close>)

lemma emits_keeps_suffix: "emits K m \<Longrightarrow> suffix (hist s) (hist (final m s))"
  by (metis emitsD suffixI)


section \<open>Guarded histories\<close>

text \<open>
  \<open>guarded ok es\<close>: every event of \<open>es\<close> was allowed by the events before it. A safety property
  that orders effects, \<open>this call only after that evidence\<close>, is a guarded history. The evidence
  a guard asks for is never lost when more events follow; the locale states this law and carries
  the proofs: a program keeps the history guarded when the evidence its events need was there
  when it started.
\<close>

fun guarded :: "(history \<Rightarrow> event \<Rightarrow> bool) \<Rightarrow> history \<Rightarrow> bool" where
  "guarded ok [] = True"
| "guarded ok (e # h) = (ok h e \<and> guarded ok h)"

lemma guarded_append: "guarded ok (es @ h) \<Longrightarrow> guarded ok h"
  by (induction es) auto

lemma guardedD: "guarded ok es \<Longrightarrow> e \<in> set es \<Longrightarrow> \<exists>post pre. es = post @ e # pre \<and> ok pre e"
  by (metis guarded.simps(2) guarded_append split_list)

lemma guarded_ex:
  assumes "guarded (\<lambda>pre e. E e \<longrightarrow> P pre) es" and "list_ex E es"
  obtains post e pre where "es = post @ e # pre" and "E e" and "P pre"
  using assms(2) guardedD [OF assms(1)] unfolding list_ex_iff by blast

lemma guarded_iff: "guarded ok es \<longleftrightarrow> (\<forall>post e pre. es = post @ e # pre \<longrightarrow> ok pre e)"
proof
  assume "guarded ok es"
  then show "\<forall>post e pre. es = post @ e # pre \<longrightarrow> ok pre e" by (auto dest: guarded_append)
next
  show "\<forall>post e pre. es = post @ e # pre \<longrightarrow> ok pre e \<Longrightarrow> guarded ok es"
  proof (induction es)
    case (Cons e es)
    then have "ok es e" by blast
    moreover have "guarded ok es" using Cons by (metis append_Cons)
    ultimately show ?case by simp
  qed simp
qed

text \<open>\<open>keeps ok m\<close>: \<open>m\<close> extends a guarded history to a guarded one.\<close>

definition keeps :: "(history \<Rightarrow> event \<Rightarrow> bool) \<Rightarrow> ('z world_scheme, 'a) state \<Rightarrow> bool" where
  "keeps ok m \<longleftrightarrow> (\<forall>s fs h. hist s = fs @ h \<longrightarrow> guarded ok fs \<longrightarrow>
     (\<exists>es. hist (final m s) = es @ h \<and> guarded ok es))"

lemma keepsD: "keeps ok m \<Longrightarrow> \<exists>es. hist (final m s) = es @ hist s \<and> guarded ok es"
  by (auto simp: keeps_def elim!: allE [of _ s] allE [of _ "[]"])

lemma keeps_bind:
  fixes m :: "('z world_scheme, 'a) state"
  assumes "keeps ok m" and "\<And>a. keeps ok (f a)"
  shows "keeps ok (State_Monad.bind m f)"
  unfolding keeps_def final_bind
proof (intro allI impI)
  fix s :: "'z world_scheme" and fs h
  assume "hist s = fs @ h" "guarded ok fs"
  then obtain es where "hist (final m s) = es @ h" "guarded ok es" using assms(1) unfolding keeps_def by blast
  with assms(2) show "\<exists>es. hist (final (f (result m s)) (final m s)) = es @ h \<and> guarded ok es"
    unfolding keeps_def by blast
qed

lemma keeps_cases:
  "(b \<Longrightarrow> keeps ok m) \<Longrightarrow> (\<not> b \<Longrightarrow> keeps ok n) \<Longrightarrow> keeps ok (if b then m else n)"
  "keeps ok m \<Longrightarrow> (\<And>a. keeps ok (g a)) \<Longrightarrow> keeps ok (case x of None \<Rightarrow> m | Some a \<Rightarrow> g a)"
  "(\<And>e. keeps ok (k e)) \<Longrightarrow> (\<And>a. keeps ok (f a)) \<Longrightarrow> keeps ok (case y of Inl e \<Rightarrow> k e | Inr a \<Rightarrow> f a)"
  "(\<And>a b. keeps ok (p a b)) \<Longrightarrow> keeps ok (case z of (a, b) \<Rightarrow> p a b)"
  "keeps ok (State_Monad.return c)"
  by (auto simp: keeps_def split: option.split sum.split prod.split)

locale evidence =
  fixes ok :: "history \<Rightarrow> event \<Rightarrow> bool"
  assumes mono: "ok fs e \<Longrightarrow> ok (es @ fs) e"
begin

lemma guarded_more: "guarded ok fs \<Longrightarrow> list_all (ok fs) es \<Longrightarrow> guarded ok (es @ fs)"
  by (induction es) (auto intro: mono)

lemma guarded_start: "list_all (ok []) es \<Longrightarrow> guarded ok es"
  using guarded_more [of "[]" es] by simp

lemma keeps_emits:
  fixes m :: "('z world_scheme, 'a) state"
  shows "emits (ok []) m \<Longrightarrow> keeps ok m"
  unfolding keeps_def
proof (intro allI impI)
  fix s :: "'z world_scheme" and fs h
  assume *: "emits (ok []) m" "hist s = fs @ h" "guarded ok fs"
  from *(1) obtain es where es: "hist (final m s) = es @ hist s" "list_all (ok []) es" by (rule emitsE)
  from es(2) have "list_all (ok fs) es" by (rule list.pred_mono_strong) (use mono [of "[]" _ fs] in simp)
  with * es show "\<exists>es. hist (final m s) = es @ h \<and> guarded ok es"
    by (intro exI [of _ "es @ fs"]) (simp add: guarded_more)
qed

text \<open>A call, and what its answer is evidence for.\<close>

lemma keeps_call:
  fixes m :: "('z world_scheme, 'a) state"
  assumes "\<And>s fs. \<exists>e. hist (final m s) = e # hist s \<and> ok fs e \<and> emits (ok (e # fs)) (f (result m s))"
  shows "keeps ok (State_Monad.bind m f)"
  unfolding keeps_def final_bind
proof (intro allI impI)
  fix s :: "'z world_scheme" and fs h
  assume *: "hist s = fs @ h" "guarded ok fs"
  from assms obtain e where e: "hist (final m s) = e # hist s" "ok fs e" "emits (ok (e # fs)) (f (result m s))" by blast
  from e(3) obtain es where es: "hist (final (f (result m s)) (final m s)) = es @ hist (final m s)" "list_all (ok (e # fs)) es"
    by (rule emitsE)
  have start: "guarded ok (e # fs)" using * e(2) by simp
  from start es(2) have "guarded ok (es @ e # fs)" by (rule guarded_more)
  with es(1) e(1) *(1) show "\<exists>es. hist (final (f (result m s)) (final m s)) = es @ h \<and> guarded ok es"
    by (intro exI [of _ "es @ e # fs"]) simp
qed

lemma wp_keeps:
  assumes "emits K m" and "hist t = fs @ h" and "guarded ok fs" and "\<And>e. K e \<Longrightarrow> ok fs e"
  shows "wp m (\<lambda>_ u. \<exists>es. hist u = es @ h \<and> guarded ok es) t"
  using emits_wp [OF assms(1)]
proof (rule wp_mono, elim exE conjE)
  fix es u
  assume u: "hist u = es @ hist t" "list_all K es"
  from u(2) have "list_all (ok fs) es" by (rule list.pred_mono_strong) (rule assms(4))
  with assms(2,3) u(1) show "\<exists>es. hist u = es @ h \<and> guarded ok es"
    by (intro exI [of _ "es @ fs"]) (simp add: guarded_more)
qed

end

text \<open>Evidence that counts wherever in the history it stands, so that guarded runs compose.\<close>

locale local_evidence = evidence +
  assumes older: "ok fs e \<Longrightarrow> ok (fs @ gs) e"
begin

lemma guarded_both: "guarded ok es \<Longrightarrow> guarded ok fs \<Longrightarrow> guarded ok (es @ fs)"
  by (induction es) (auto intro: older)

lemma wp_continue:
  assumes "wp m (\<lambda>_ u. (\<exists>es. hist u = es @ hist t \<and> guarded ok es) \<and> Q u) t" and "hist t = fs @ h" and "guarded ok fs"
  shows "wp m (\<lambda>_ u. (\<exists>es. hist u = es @ h \<and> guarded ok es) \<and> Q u) t"
  using assms(1) by (rule wp_mono) (use assms(2,3) in \<open>auto intro: exI [of _ "_ @ fs"] guarded_both\<close>)

end

end
