(* ===== verification/Fixture.thy ===== *)
theory Fixture
  imports World
begin

text \<open>
  One concrete outside world, at which the hypotheses of the properties are discharged: packages
  that keep VM state in pod annotations, an API server that stores what it accepts, a registry
  that holds a list of tags and forgets deleted ones, and a clock that stands still. Nothing of
  the model depends on it.
\<close>

definition annTrue :: "string \<Rightarrow> pod \<Rightarrow> bool" where
  "annTrue k p \<longleftrightarrow> strAt (podAnnotations p) k = ''true''"

definition setAnn :: "string \<Rightarrow> string \<Rightarrow> pod \<Rightarrow> pod" where
  "setAnn k v p = p\<lparr>podAnnotations := AList.update k v (podAnnotations p)\<rparr>"

definition intAnn :: "string \<Rightarrow> pod \<Rightarrow> int" where
  "intAnn k p = (case parseInt 64 (strAt (podAnnotations p) k) of None \<Rightarrow> 0 | Some n \<Rightarrow> n)"

definition demoMeta :: metaPkg where
  "demoMeta = \<lparr>
     LabelCocoonSet = ''set'', LabelRole = ''role'', LabelSlot = ''slot'', LabelNodePool = ''pool'',
     LabelSnapshotClass = ''class'', RoleMain = ''main'', RoleSubAgent = ''sub-agent'',
     RoleToolbox = ''toolbox'', DefaultNodePool = ''default'', TolerationKey = ''vk'',
     HibernateSnapshotTag = ''hibernate'', DefaultSnapshotTag = ''latest'',
     AnnotationCocoonSetGeneration = ''generation'', AnnotationHibernatedOnNode = ''node-hint'',
     AnnotationLifecycleStateMessage = ''message'', AnnotationVMName = ''vm'',
     LifecycleStateFailed = ''failed'', LifecycleStateHibernated = ''hibernated'',
     LifecycleStateReady = ''ready'',
     ParseVMSpec = (\<lambda>p. \<lparr>vmName = strAt (podAnnotations p) ''vm'', vmManaged = annTrue ''managed'' p,
       vmImage = strAt (podAnnotations p) ''image'', vmForkFrom = strAt (podAnnotations p) ''fork'',
       vmOS = strAt (podAnnotations p) ''os'', vmConnType = strAt (podAnnotations p) ''conn'', vmOther = []\<rparr>),
     ParseVMRuntime = (\<lambda>p. \<lparr>rtVMID = strAt (podAnnotations p) ''vmid'',
       rtIP = strAt (podAnnotations p) ''ip'', rtVNCPort = intAnn ''vnc'' p\<rparr>),
     FromAgentSpec = (\<lambda>ag vm pol fork. \<lparr>vmName = vm, vmManaged = True, vmImage = agImage ag,
       vmForkFrom = fork, vmOS = optOS (agOptions ag), vmConnType = optConnType (agOptions ag), vmOther = []\<rparr>),
     FromToolboxSpec = (\<lambda>tb vm pol. \<lparr>vmName = vm, vmManaged = (tbMode tb \<noteq> TbStatic), vmImage = tbImage tb,
       vmForkFrom = [], vmOS = optOS (tbOptions tb), vmConnType = optConnType (tbOptions tb), vmOther = []\<rparr>),
     ApplyVMSpec = (\<lambda>v p. setAnn ''vm'' (vmName v) (setAnn ''managed'' (if vmManaged v then ''true'' else ''false'')
       (setAnn ''image'' (vmImage v) (setAnn ''fork'' (vmForkFrom v) (setAnn ''os'' (vmOS v)
         (setAnn ''conn'' (vmConnType v) p)))))),
     ApplyVMRuntime = (\<lambda>v p. setAnn ''vmid'' (rtVMID v) (setAnn ''ip'' (rtIP v)
       (setAnn ''vnc'' (formatInt (rtVNCPort v)) p))),
     ReadHibernateState = annTrue ''hibernate'',
     ApplyHibernateState = (\<lambda>b. setAnn ''hibernate'' (if b then ''true'' else ''false'')),
     ReadKeepSnapshotOnDelete = annTrue ''keep'',
     MarkKeepSnapshotOnDelete = setAnn ''keep'' ''true'',
     ReadCocoonSetGeneration = intAnn ''generation'',
     StampCocoonSetGeneration = (\<lambda>g. setAnn ''generation'' (formatInt g)),
     ReadRestoreFromHibernate = annTrue ''restore'',
     MarkRestoreFromHibernate = setAnn ''restore'' ''true'',
     ReadLifecycleStatus = (\<lambda>p. \<lparr>lsState = strAt (podAnnotations p) ''state'',
       lsObservedGeneration = intAnn ''observed'' p\<rparr>),
     ReadLifecycleState = (\<lambda>p. strAt (podAnnotations p) ''state''),
     IsPodReady = annTrue ''ready'',
     IsPodTerminal = (\<lambda>p. podPhase p = ''Failed''),
     VMLive = (\<lambda>p. strAt (podAnnotations p) ''vmid'' \<noteq> []),
     VMNameForDeployment = (\<lambda>ns n slot. ''vk-'' @ ns @ ''-'' @ n @ ''-'' @ formatInt slot),
     VMNameForPod = (\<lambda>ns n. ''vk-'' @ ns @ ''-'' @ n),
     ToolboxPodName = (\<lambda>n tb. n @ ''-'' @ tb),
     ExtractAgentSlot = (\<lambda>ns n vm. if vm = ''vk-'' @ ns @ ''-'' @ n @ ''-0'' then 0 else 1),
     ConnectionType = (\<lambda>os vnc conn. if conn \<noteq> [] then conn else if vnc then ''vnc'' else ''ssh''),
     PodNodePool = (\<lambda>p. strOr (strAt (podNodeSelector p) ''pool'') ''default'')\<rparr>"

definition demoSetCondition :: "int \<Rightarrow> condition list \<Rightarrow> condition \<Rightarrow> condition list" where
  "demoSetCondition t cs c =
     (case find (\<lambda>i. cdType (cs ! i) = cdType c) [0..<length cs] of
        None \<Rightarrow> cs @ [c\<lparr>cdLastTransition := Some t\<rparr>]
      | Some i \<Rightarrow> cs[i := c\<lparr>cdLastTransition :=
          (if cdStatus (cs ! i) \<noteq> cdStatus c then Some t else cdLastTransition (cs ! i))\<rparr>])"

definition demoKube :: kubePkg where
  "demoKube = \<lparr>
     HibernatePolicyDefault = (\<lambda>p. if p = PolicyUnset then PolicyRetain else p),
     SnapshotPolicyDefault = (\<lambda>p. if p = SnapUnset then SnapAlways else p),
     ConditionTypeReady = ''Ready'',
     NewReadyCondition = (\<lambda>g st rs msg. \<lparr>cdType = ''Ready'', cdStatus = st, cdReason = rs, cdMessage = msg,
       cdObservedGeneration = g, cdLastTransition = None\<rparr>),
     SetStatusCondition = demoSetCondition,
     FindStatusCondition = (\<lambda>cs t. find (\<lambda>i. cdType (cs ! i) = t) [0..<length cs]),
     AnnotationsMergePatch = (\<lambda>k v. None),
     SetControllerReference = (\<lambda>cs p. Inr (p\<lparr>podOwners :=
       [\<lparr>ownKind = ''CocoonSet'', ownName = csName cs, ownUID = csUID cs, ownController = True\<rparr>]\<rparr>)),
     IsControlledBy = (\<lambda>p cs. list_ex (\<lambda>w. ownController w \<and> ownUID w = csUID cs) (podOwners p)),
     AddFinalizer = (\<lambda>fs f. (f \<notin> set fs, if f \<in> set fs then fs else fs @ [f])),
     RemoveFinalizer = (\<lambda>fs f. (f \<in> set fs, filter (\<lambda>x. x \<noteq> f) fs)),
     DeepEqualStatus = (=),
     DeepEqualEnvFrom = (=),
     QuantityZero = ''0'',
     QuantityCmp = (\<lambda>a b. if a = b then 0 else 1),
     QuantityIsZero = (\<lambda>q. q = ''0''),
     ManifestParse = (\<lambda>raw. Inr [(''image'', raw)]),
     AnnotationSnapshotBaseImage = ''image''\<rparr>"

definition annotated :: "(string, string) gomap \<Rightarrow> string \<Rightarrow> string option \<Rightarrow> (string, string) gomap" where
  "annotated m k v = (case v of None \<Rightarrow> AList.delete k m | Some x \<Rightarrow> AList.update k x m)"

text \<open>A server with the given pods and CocoonHibernations that accepts every write.\<close>

definition demoClient :: "pod list \<Rightarrow> cocoonHibernation list \<Rightarrow> clientApi" where
  "demoClient pods hibs = \<lparr>
     cliGetSet = (\<lambda>h ns n. Inl (ErrNotFound n)),
     cliGetHib = (\<lambda>h ns n. case find (\<lambda>x. hbName x = n) hibs of None \<Rightarrow> Inl (ErrNotFound n) | Some x \<Rightarrow> Inr x),
     cliGetPod = (\<lambda>h ns n. case find (\<lambda>x. podName x = n) pods of None \<Rightarrow> Inl (ErrNotFound n) | Some x \<Rightarrow> Inr x),
     cliReadPod = (\<lambda>h ns n. case find (\<lambda>x. podName x = n) pods of None \<Rightarrow> Inl (ErrNotFound n) | Some x \<Rightarrow> Inr x),
     cliListPods = (\<lambda>h ns k v. Inr pods),
     cliListHibs = (\<lambda>h ns. Inr hibs),
     cliListHibsByPodRef = (\<lambda>h ns n. Inr (filter (\<lambda>x. hbPodRef x = n) hibs)),
     cliUpdateSet = (\<lambda>h cs. (None, cs)),
     cliPatchSet = (\<lambda>h cs cs'. (None, cs')),
     cliPatchSetStatus = (\<lambda>h cs cs'. (None, cs')),
     cliAnnotateSet = (\<lambda>h cs k v. (None, cs\<lparr>csAnnotations := annotated (csAnnotations cs) k v\<rparr>)),
     cliPatchPod = (\<lambda>h p p'. (None, p')),
     cliAnnotatePod = (\<lambda>h p k v. (None, p\<lparr>podAnnotations := annotated (podAnnotations p) k v\<rparr>)),
     cliCreatePod = (\<lambda>h p. None),
     cliDeletePod = (\<lambda>h p. None),
     cliUpdateHib = (\<lambda>h x. (None, x)),
     cliPatchHibStatus = (\<lambda>h x x'. (None, x'))\<rparr>"

text \<open>A registry with the given tags; a manifest's text is the image it was pushed from.\<close>

definition deletedTag :: "history \<Rightarrow> string \<Rightarrow> string \<Rightarrow> bool" where
  "deletedTag h n t = list_ex (\<lambda>e. case e of EvDeleteManifest n' t' None \<Rightarrow> n' = n \<and> t' = t | _ \<Rightarrow> False) h"

definition demoRegistry :: "((string \<times> string) \<times> string) list \<Rightarrow> registryApi" where
  "demoRegistry tags = \<lparr>
     regGetManifest = (\<lambda>h n t. case (if deletedTag h n t then None else map_of tags (n, t)) of
       None \<Rightarrow> Inl ErrManifestNotFound | Some img \<Rightarrow> Inr img),
     regHasManifest = (\<lambda>h n t. Inr (\<not> deletedTag h n t \<and> map_of tags (n, t) \<noteq> None)),
     regDeleteManifest = (\<lambda>h n t. None)\<rparr>"

definition demoEnv ::
    "pod list \<Rightarrow> cocoonHibernation list \<Rightarrow> ((string \<times> string) \<times> string) list \<Rightarrow> int \<Rightarrow> env" where
  "demoEnv pods hibs tags t = \<lparr>meta = demoMeta, kube = demoKube, cli = demoClient pods hibs,
     registry = demoRegistry tags, clock = (\<lambda>h. t), ctxErr = (\<lambda>h. None), sched = (\<lambda>h. []),
     vmHash = length\<rparr>"

definition demoOptions :: vmOptions where
  "demoOptions = \<lparr>optOS = ''linux'', optBackend = [], optConnType = ''ssh'', optNetwork = [],
     optForcePull = False, optNoDirectIO = False, optProbePort = 0\<rparr>"

definition demoAgent :: agentSpec where
  "demoAgent = \<lparr>agReplicas = 1, agImage = ''img:1'', agMode = ''clone'', agOptions = demoOptions,
     agResources = \<lparr>resLimits = [(''cpu'', ''2'')], resRequests = [(''cpu'', ''2'')]\<rparr>,
     agStorage = None, agEnvFrom = [], agServiceAccount = []\<rparr>"

definition demoSpec :: cocoonSetSpec where
  "demoSpec = \<lparr>specAgent = demoAgent, specToolboxes = [], specSuspend = False,
     specHibernatePolicy = PolicyUnset, specSnapshotPolicy = SnapUnset, specNodeName = [],
     specNodePool = [], specSnapshotClass = []\<rparr>"

definition demoStatus :: cocoonSetStatus where
  "demoStatus = \<lparr>stObservedGeneration = 0, stPhase = CSNone, stReadyAgents = 0, stDesiredAgents = 0,
     stReadyToolboxes = 0, stDesiredToolboxes = 0, stAgents = [], stToolboxes = [], stConditions = []\<rparr>"

definition demoSet :: cocoonSet where
  "demoSet = \<lparr>csName = ''s'', csNamespace = ''ns'', csUID = ''u1'', csGeneration = 3,
     csDeletionTimestamp = None, csFinalizers = [''cocoonset.cocoonstack.io/finalizer''],
     csAnnotations = [], csSpec = demoSpec, csStatus = demoStatus\<rparr>"

text \<open>A pod of the demo set: name, role, slot, node and annotations.\<close>

definition demoPod ::
    "string \<Rightarrow> string \<Rightarrow> string \<Rightarrow> string \<Rightarrow> (string, string) gomap \<Rightarrow> pod" where
  "demoPod name role slot node anns =
     \<lparr>podName = name, podNamespace = ''ns'',
      podLabels = [(''set'', ''s''), (''role'', role), (''slot'', slot)],
      podAnnotations = anns, podDeletionTimestamp = None,
      podOwners = [\<lparr>ownKind = ''CocoonSet'', ownName = ''s'', ownUID = ''u1'', ownController = True\<rparr>],
      podNodeName = node, podNodeSelector = [(''pool'', ''default'')], podAffinity = None,
      podServiceAccount = ''default'', podGracePeriod = Some 1, podTolerations = [],
      podContainer = \<lparr>cntName = ''agent'', cntImage = ''i'',
        cntResources = \<lparr>resLimits = [(''cpu'', ''2'')], resRequests = [(''cpu'', ''2'')]\<rparr>, cntEnvFrom = []\<rparr>,
      podMoreContainers = [], podPhase = ''Running'', podConditions = []\<rparr>"

lemmas fixture_defs = demoEnv_def demoMeta_def demoKube_def demoClient_def demoRegistry_def
  demoSet_def demoSpec_def demoAgent_def demoOptions_def demoStatus_def demoPod_def
  annTrue_def setAnn_def intAnn_def annotated_def deletedTag_def demoSetCondition_def

text \<open>The fields of the concrete world, so that a run can be evaluated field by field.\<close>

lemma demo_meta:
  "LabelCocoonSet demoMeta = ''set''" "LabelRole demoMeta = ''role''" "LabelSlot demoMeta = ''slot''"
  "LabelNodePool demoMeta = ''pool''" "LabelSnapshotClass demoMeta = ''class''"
  "RoleMain demoMeta = ''main''" "RoleSubAgent demoMeta = ''sub-agent''" "RoleToolbox demoMeta = ''toolbox''"
  "DefaultNodePool demoMeta = ''default''" "HibernateSnapshotTag demoMeta = ''hibernate''"
  "DefaultSnapshotTag demoMeta = ''latest''" "AnnotationHibernatedOnNode demoMeta = ''node-hint''"
  "AnnotationCocoonSetGeneration demoMeta = ''generation''" "TolerationKey demoMeta = ''vk''"
  "LifecycleStateFailed demoMeta = ''failed''" "LifecycleStateHibernated demoMeta = ''hibernated''"
  "LifecycleStateReady demoMeta = ''ready''"
  "FromAgentSpec demoMeta ag vm pol fork = \<lparr>vmName = vm, vmManaged = True, vmImage = agImage ag,
     vmForkFrom = fork, vmOS = optOS (agOptions ag), vmConnType = optConnType (agOptions ag), vmOther = []\<rparr>"
  "ApplyVMSpec demoMeta v p = setAnn ''vm'' (vmName v)
     (setAnn ''managed'' (if vmManaged v then ''true'' else ''false'')
       (setAnn ''image'' (vmImage v) (setAnn ''fork'' (vmForkFrom v) (setAnn ''os'' (vmOS v)
         (setAnn ''conn'' (vmConnType v) p)))))"
  "ReadHibernateState demoMeta p = annTrue ''hibernate'' p"
  "ApplyHibernateState demoMeta b p = setAnn ''hibernate'' (if b then ''true'' else ''false'') p"
  "ReadKeepSnapshotOnDelete demoMeta p = annTrue ''keep'' p"
  "MarkKeepSnapshotOnDelete demoMeta p = setAnn ''keep'' ''true'' p"
  "ReadCocoonSetGeneration demoMeta p = intAnn ''generation'' p"
  "ReadRestoreFromHibernate demoMeta p = annTrue ''restore'' p"
  "MarkRestoreFromHibernate demoMeta p = setAnn ''restore'' ''true'' p"
  "ReadLifecycleStatus demoMeta p = \<lparr>lsState = strAt (podAnnotations p) ''state'', lsObservedGeneration = intAnn ''observed'' p\<rparr>"
  "ReadLifecycleState demoMeta p = strAt (podAnnotations p) ''state''"
  "IsPodReady demoMeta p = annTrue ''ready'' p" "IsPodTerminal demoMeta p = (podPhase p = ''Failed'')"
  "VMLive demoMeta p = (strAt (podAnnotations p) ''vmid'' \<noteq> [])"
  "VMNameForDeployment demoMeta ns n slot = ''vk-'' @ ns @ ''-'' @ n @ ''-'' @ formatInt slot"
  "ToolboxPodName demoMeta n tb = n @ ''-'' @ tb"
  by (simp_all add: demoMeta_def)

lemma demo_ParseVMSpec:
  "ParseVMSpec demoMeta p = \<lparr>vmName = strAt (podAnnotations p) ''vm'', vmManaged = annTrue ''managed'' p,
     vmImage = strAt (podAnnotations p) ''image'', vmForkFrom = strAt (podAnnotations p) ''fork'',
     vmOS = strAt (podAnnotations p) ''os'', vmConnType = strAt (podAnnotations p) ''conn'', vmOther = []\<rparr>"
  by (simp add: demoMeta_def)

lemma demo_kube:
  "AnnotationsMergePatch demoKube k v = None" "ConditionTypeReady demoKube = ''Ready''"
  "SetControllerReference demoKube cs p = Inr (p\<lparr>podOwners :=
     [\<lparr>ownKind = ''CocoonSet'', ownName = csName cs, ownUID = csUID cs, ownController = True\<rparr>]\<rparr>)"
  "IsControlledBy demoKube p cs = list_ex (\<lambda>w. ownController w \<and> ownUID w = csUID cs) (podOwners p)"
  "RemoveFinalizer demoKube fs f = (f \<in> set fs, filter (\<lambda>x. x \<noteq> f) fs)"
  "ManifestParse demoKube raw = Inr [(''image'', raw)]" "AnnotationSnapshotBaseImage demoKube = ''image''"
  "DeepEqualStatus demoKube = (=)"
  "SnapshotPolicyDefault demoKube pol = (if pol = SnapUnset then SnapAlways else pol)"
  "SetStatusCondition demoKube = demoSetCondition"
  "NewReadyCondition demoKube g st rs msg = \<lparr>cdType = ''Ready'', cdStatus = st, cdReason = rs, cdMessage = msg,
       cdObservedGeneration = g, cdLastTransition = None\<rparr>"
  "FindStatusCondition demoKube conds t = find (\<lambda>i. cdType (conds ! i) = t) [0..<length conds]"
  by (simp_all add: demoKube_def)

lemma demo_client:
  "cliGetPod (demoClient pods hibs) h ns n =
     (case find (\<lambda>x. podName x = n) pods of None \<Rightarrow> Inl (ErrNotFound n) | Some x \<Rightarrow> Inr x)"
  "cliListPods (demoClient pods hibs) h ns k v = Inr pods" "cliListHibs (demoClient pods hibs) h ns = Inr hibs"
  "cliUpdateSet (demoClient pods hibs) h cs = (None, cs)" "cliPatchSet (demoClient pods hibs) h cs cs' = (None, cs')"
  "cliPatchSetStatus (demoClient pods hibs) h cs cs' = (None, cs')"
  "cliAnnotateSet (demoClient pods hibs) h cs k u =
     (None, cs\<lparr>csAnnotations := annotated (csAnnotations cs) k u\<rparr>)"
  "cliPatchPod (demoClient pods hibs) h p p' = (None, p')"
  "cliAnnotatePod (demoClient pods hibs) h p k u =
     (None, p\<lparr>podAnnotations := annotated (podAnnotations p) k u\<rparr>)"
  "cliCreatePod (demoClient pods hibs) h p = None" "cliDeletePod (demoClient pods hibs) h p = None"
  "cliUpdateHib (demoClient pods hibs) h x = (None, x)" "cliPatchHibStatus (demoClient pods hibs) h x x' = (None, x')"
  by (simp_all add: demoClient_def)

lemma demo_registry:
  "regGetManifest (demoRegistry tags) h n t = (case (if deletedTag h n t then None else map_of tags (n, t)) of
     None \<Rightarrow> Inl ErrManifestNotFound | Some img \<Rightarrow> Inr img)"
  "regHasManifest (demoRegistry tags) h n t = Inr (\<not> deletedTag h n t \<and> map_of tags (n, t) \<noteq> None)"
  "regDeleteManifest (demoRegistry tags) h n t = None"
  by (simp_all add: demoRegistry_def)

lemma demo_env:
  "meta (demoEnv pods hibs tags t) = demoMeta" "kube (demoEnv pods hibs tags t) = demoKube"
  "cli (demoEnv pods hibs tags t) = demoClient pods hibs"
  "registry (demoEnv pods hibs tags t) = demoRegistry tags" "clock (demoEnv pods hibs tags t) h = t"
  "ctxErr (demoEnv pods hibs tags t) h = None" "sched (demoEnv pods hibs tags t) h = []"
  "vmHash (demoEnv pods hibs tags t) vm = length vm"
  by (simp_all add: demoEnv_def)

lemmas demo_simps = demo_meta demo_kube demo_client demo_registry demo_env annTrue_def setAnn_def
  intAnn_def annotated_def deletedTag_def

text \<open>Searching a concrete history.\<close>

fun createdWith :: "(pod \<Rightarrow> bool) \<Rightarrow> history \<Rightarrow> bool" where
  "createdWith P [] = False"
| "createdWith P (EvCreatePod q x # h) = (P q \<or> createdWith P h)"
| "createdWith P (_ # h) = createdWith P h"

lemma createdWithD: "createdWith P h \<Longrightarrow> \<exists>q x. EvCreatePod q x \<in> set h \<and> P q"
  by (induction P h rule: createdWith.induct) auto

fun deletedWith :: "(pod \<Rightarrow> bool) \<Rightarrow> history \<Rightarrow> bool" where
  "deletedWith P [] = False"
| "deletedWith P (EvDeletePod q x # h) = (P q \<or> deletedWith P h)"
| "deletedWith P (_ # h) = deletedWith P h"

lemma deletedWithD: "deletedWith P h \<Longrightarrow> \<exists>q x. EvDeletePod q x \<in> set h \<and> P q"
  by (induction P h rule: deletedWith.induct) auto

end
