(* ===== verification/Podpatch.thy ===== *)
theory Podpatch
  imports Fixture
begin

text \<open>
  \<open>podpatch/podpatch.go\<close>: the pod annotation patches the operator owns. Each returns the
  error and the pod as the call leaves it. The three share one contract, the locale
  \<open>short_circuit_patch\<close>: nothing is sent when the pod already carries the state, otherwise
  exactly one patch is sent, and a second call after a successful first one sends nothing.
\<close>

definition podpatchHibernateState ::
    "env \<Rightarrow> bool \<Rightarrow> pod \<Rightarrow> ('z world_scheme, gerr option \<times> pod) state" where
  "podpatchHibernateState r st pod =
     (if ReadHibernateState (meta r) pod = st then State_Monad.return (None, pod)
      else patchPod r pod (ApplyHibernateState (meta r) st))"

definition podpatchKeepSnapshotOnDelete ::
    "env \<Rightarrow> pod \<Rightarrow> ('z world_scheme, gerr option \<times> pod) state" where
  "podpatchKeepSnapshotOnDelete r pod =
     (if ReadKeepSnapshotOnDelete (meta r) pod then State_Monad.return (None, pod)
      else patchPod r pod (MarkKeepSnapshotOnDelete (meta r)))"

definition podpatchCocoonSetGeneration ::
    "env \<Rightarrow> int \<Rightarrow> pod \<Rightarrow> ('z world_scheme, gerr option \<times> pod) state" where
  "podpatchCocoonSetGeneration r generation pod =
     (if ReadCocoonSetGeneration (meta r) pod = generation then State_Monad.return (None, pod)
      else patchPod r pod (StampCocoonSetGeneration (meta r) generation))"

locale short_circuit_patch =
  fixes patch :: "env \<Rightarrow> pod \<Rightarrow> ('z world_scheme, gerr option \<times> pod) state"
    and carries :: "env \<Rightarrow> pod \<Rightarrow> bool"
    and mutate :: "env \<Rightarrow> pod \<Rightarrow> pod"
  assumes skip: "carries r p \<Longrightarrow> patch r p = State_Monad.return (None, p)"
    and send: "\<not> carries r p \<Longrightarrow> patch r p = patchPod r p (mutate r)"
begin

lemma wp_patch:
  "wp (patch r p) Q s =
     (if carries r p then Q (None, p) s
      else let a = cliPatchPod (cli r) (hist s) p (mutate r p)
           in Q a (s\<lparr>hist := EvPatchPod p (mutate r p) (fst a) # hist s\<rparr>))"
  by (simp add: skip send wp_simps Let_def)

lemma emits_patch:
  "(\<And>e. K (EvPatchPod p (mutate r p) e)) \<Longrightarrow> emits K (patch r p)"
  by (cases "carries r p") (simp_all add: skip send emits_return patchPod_def emits_ask)

lemma settled_sends_nothing: "carries r p \<Longrightarrow> run_state (patch r p) s = ((None, p), s)"
  by (simp add: skip)

lemma at_most_one_call:
  "\<exists>es. hist (final (patch r p) s) = es @ hist s \<and> length es \<le> 1 \<and>
        (\<forall>e\<in>set es. \<exists>x. e = EvPatchPod p (mutate r p) x)"
proof -
  have "wp (patch r p) (\<lambda>_ t. \<exists>es. hist t = es @ hist s \<and> length es \<le> 1 \<and>
        (\<forall>e\<in>set es. \<exists>x. e = EvPatchPod p (mutate r p) x)) s"
    by (auto simp: wp_patch Let_def)
  then show ?thesis by (simp add: wp_result_final)
qed

end

interpretation hibState: short_circuit_patch
  "\<lambda>r. podpatchHibernateState r st" "\<lambda>r p. ReadHibernateState (meta r) p = st"
  "\<lambda>r. ApplyHibernateState (meta r) st" for st
  by unfold_locales (simp_all add: podpatchHibernateState_def)

interpretation keepSnap: short_circuit_patch
  podpatchKeepSnapshotOnDelete "\<lambda>r p. ReadKeepSnapshotOnDelete (meta r) p"
  "\<lambda>r. MarkKeepSnapshotOnDelete (meta r)"
  by unfold_locales (simp_all add: podpatchKeepSnapshotOnDelete_def)

interpretation stampGen: short_circuit_patch
  "\<lambda>r. podpatchCocoonSetGeneration r g" "\<lambda>r p. ReadCocoonSetGeneration (meta r) p = g"
  "\<lambda>r. StampCocoonSetGeneration (meta r) g" for g
  by unfold_locales (simp_all add: podpatchCocoonSetGeneration_def)

lemmas podpatch_wp [wp_simps] = hibState.wp_patch keepSnap.wp_patch stampGen.wp_patch
lemmas podpatch_emits [emits_intros] = hibState.emits_patch keepSnap.emits_patch stampGen.emits_patch


section \<open>Property\<close>

text \<open>
  A hibernate patch is sent only when it changes something. On a pod that already carries
  the state the call touches neither the API server nor the pod and returns nil; on any other pod
  exactly one patch is sent, from the pod to the pod with the state applied.
\<close>

theorem hibernate_patch_short_circuits:
  "if ReadHibernateState (meta r) p = st
   then run_state (podpatchHibernateState r st p) s = ((None, p), s)
   else \<exists>e. hist (final (podpatchHibernateState r st p) s) =
          EvPatchPod p (ApplyHibernateState (meta r) st p) e # hist s"
proof (cases "ReadHibernateState (meta r) p = st")
  case True
  then show ?thesis by (simp add: hibState.settled_sends_nothing)
next
  case False
  have "wp (podpatchHibernateState r st p)
      (\<lambda>_ t. \<exists>e. hist t = EvPatchPod p (ApplyHibernateState (meta r) st p) e # hist s) s"
    using False by (simp add: wp_simps Let_def)
  with False show ?thesis by (simp add: wp_result_final)
qed

end
