(* ===== verification/Pods.thy ===== *)
theory Pods
  imports Podpatch
begin

text \<open>
  \<open>cocoonset/pods.go\<close>, with \<open>mainPodFailedReason\<close> and \<open>podIsTerminal\<close> of
  \<open>cocoonset/reconciler.go\<close> and the state a CocoonSet pass works on.

  The state extends the history with the CocoonSet (the object \<open>cs\<close> points to) and with the
  pods of the owned slice: Go's \<open>&pods[i]\<close> is the index \<open>i\<close>, so the entries of
  \<open>classifiedPods\<close> that alias one pod hold the same index, and a patch is seen through all of
  them. Pods the pass builds are values until they are created.

  The lemmas: classification is sound and complete for pods that are not being deleted; a
  built pod is classified back into its slot; a pod the operator built and the API server
  defaulted matches the spec it was built from, so it is not rebuilt.
\<close>


section \<open>State of a CocoonSet pass\<close>

record setWorld = world +
  theSet :: cocoonSet
  podHeap :: "nat \<Rightarrow> pod"
  intentMemo :: "(gerr + string list) option"    \<comment> \<open>the cell of \<open>sync.OnceValues\<close>\<close>

type_synonym 'a setIO = "(setWorld, 'a) state"

definition theCS :: "cocoonSet setIO" where
  "theCS = do { s \<leftarrow> State_Monad.get; State_Monad.return (theSet s) }"

definition putCS :: "cocoonSet \<Rightarrow> unit setIO" where
  "putCS cs = State_Monad.update (\<lambda>s. s\<lparr>theSet := cs\<rparr>)"

definition podAt :: "nat \<Rightarrow> pod setIO" where
  "podAt i = do { s \<leftarrow> State_Monad.get; State_Monad.return (podHeap s i) }"

definition putPod :: "nat \<Rightarrow> pod \<Rightarrow> unit setIO" where
  "putPod i p = State_Monad.update (\<lambda>s. s\<lparr>podHeap := (podHeap s)(i := p)\<rparr>)"

text \<open>The owned slice, loaded into the heap.\<close>

definition loadPods :: "pod list \<Rightarrow> unit setIO" where
  "loadPods ps =
     State_Monad.update (\<lambda>s. s\<lparr>podHeap := (\<lambda>i. if i < length ps then ps ! i else podHeap s i)\<rparr>)"

text \<open>Run a patch on the pod a pointer leads to; the pod takes the value the call leaves.\<close>

definition patchAt :: "nat \<Rightarrow> (pod \<Rightarrow> (gerr option \<times> pod) setIO) \<Rightarrow> gerr option setIO" where
  "patchAt i f = do {
     p \<leftarrow> podAt i;
     (err, p') \<leftarrow> f p;
     putPod i p';
     State_Monad.return err
   }"

lemma wp_theCS [wp_simps]: "wp theCS Q s = Q (theSet s) s"
  by (simp add: theCS_def wp_simps)

lemma wp_putCS [wp_simps]: "wp (putCS cs) Q s = Q () (s\<lparr>theSet := cs\<rparr>)"
  by (simp add: putCS_def wp_simps)

lemma wp_podAt [wp_simps]: "wp (podAt i) Q s = Q (podHeap s i) s"
  by (simp add: podAt_def wp_simps)

lemma wp_putPod [wp_simps]: "wp (putPod i p) Q s = Q () (s\<lparr>podHeap := (podHeap s)(i := p)\<rparr>)"
  by (simp add: putPod_def wp_simps)

lemma wp_patchAt [wp_simps]:
  "wp (patchAt i f) Q s =
     wp (f (podHeap s i)) (\<lambda>(err, p') t. Q err (t\<lparr>podHeap := (podHeap t)(i := p')\<rparr>)) s"
  by (simp add: wp_def patchAt_def podAt_def putPod_def State_Monad.update_def split: prod.split)

lemma emits_state [emits_intros]:
  "emits K theCS" "emits K (putCS cs)" "emits K (podAt i)" "emits K (putPod i p)" "emits K (loadPods ps)"
  unfolding theCS_def putCS_def podAt_def putPod_def loadPods_def
  by (intro emits_intros; simp)+

lemma emits_patchAt [emits_intros]: "(\<And>p. emits K (f p)) \<Longrightarrow> emits K (patchAt i f)"
  unfolding patchAt_def by (intro emits_intros)


section \<open>Classification\<close>

record classifiedPods =
  clsMain :: "nat option"
  clsSub :: "(int, nat) gomap"
  clsToolbox :: "(string, nat) gomap"
  clsAllByName :: "(string, nat) gomap"

definition noPods :: classifiedPods where
  "noPods = \<lparr>clsMain = None, clsSub = [], clsToolbox = [], clsAllByName = []\<rparr>"

definition classifyPod :: "metaPkg \<Rightarrow> nat \<Rightarrow> pod \<Rightarrow> classifiedPods \<Rightarrow> classifiedPods" where
  "classifyPod M i p out =
     (if podDeletionTimestamp p \<noteq> None then out
      else
        let out = out\<lparr>clsAllByName := AList.update (podName p) i (clsAllByName out)\<rparr>;
            role = strAt (podLabels p) (LabelRole M);
            slotLabel = strAt (podLabels p) (LabelSlot M)
        in if role = RoleMain M then out\<lparr>clsMain := Some i\<rparr>
           else if role = RoleSubAgent M then
             (case parseInt 32 slotLabel of
                Some slot \<Rightarrow> out\<lparr>clsSub := AList.update slot i (clsSub out)\<rparr>
              | None \<Rightarrow> out)
           else if role = RoleToolbox M then
             out\<lparr>clsToolbox := AList.update slotLabel i (clsToolbox out)\<rparr>
           else out)"

fun classifyFrom :: "metaPkg \<Rightarrow> nat \<Rightarrow> pod list \<Rightarrow> classifiedPods \<Rightarrow> classifiedPods" where
  "classifyFrom M i [] out = out"
| "classifyFrom M i (p # ps) out = classifyFrom M (Suc i) ps (classifyPod M i p out)"

definition classifyPods :: "metaPkg \<Rightarrow> pod list \<Rightarrow> classifiedPods" where
  "classifyPods M pods = classifyFrom M 0 pods noPods"

text \<open>The values of a map in the order of its sorted keys.\<close>

definition sortedVals :: "('k::linorder, 'v) gomap \<Rightarrow> 'v list" where
  "sortedVals m = List.map_filter (map_of m) (sortedKeys m)"

fun forEachPod :: "env \<Rightarrow> nat list \<Rightarrow> (nat \<Rightarrow> gerr option setIO) \<Rightarrow> gerr option setIO" where
  "forEachPod r [] fn = State_Monad.return None"
| "forEachPod r (i # is) fn = do {
     ctx \<leftarrow> ctxCheck r;
     case ctx of
       Some err \<Rightarrow> State_Monad.return (Some err)
     | None \<Rightarrow> do {
         err \<leftarrow> fn i;
         case err of
           Some e \<Rightarrow> State_Monad.return (Some e)
         | None \<Rightarrow> forEachPod r is fn
       }
   }"

definition forEachSorted ::
    "env \<Rightarrow> classifiedPods \<Rightarrow> (nat \<Rightarrow> gerr option setIO) \<Rightarrow> gerr option setIO" where
  "forEachSorted r c fn = forEachPod r (sortedVals (clsAllByName c)) fn"

lemma emits_forEachPod [emits_intros]:
  "(\<And>e. K (EvCtx e)) \<Longrightarrow> (\<And>i. emits K (fn i)) \<Longrightarrow> emits K (forEachPod r is fn)"
  by (induction "is") (auto simp: ctxCheck_def intro!: emits_intros)

lemma emits_forEachSorted [emits_intros]:
  "(\<And>e. K (EvCtx e)) \<Longrightarrow> (\<And>i. emits K (fn i)) \<Longrightarrow> emits K (forEachSorted r c fn)"
  unfolding forEachSorted_def by (intro emits_intros)


section \<open>Terminal pods\<close>

definition mainPodFailedReason :: "metaPkg \<Rightarrow> pod \<Rightarrow> string" where
  "mainPodFailedReason M p =
     (if ReadLifecycleState M p = LifecycleStateFailed M then ''PodLifecycleFailed''
      else if IsPodTerminal M p then ''MainAgentFailed''
      else [])"

definition podIsTerminal :: "metaPkg \<Rightarrow> pod \<Rightarrow> bool" where
  "podIsTerminal M p \<longleftrightarrow> mainPodFailedReason M p \<noteq> []"


section \<open>Pod construction\<close>

text \<open>Constants of \<open>corev1\<close>.\<close>

definition LabelHostname :: string where
  "LabelHostname = ''kubernetes.io/hostname''"

definition ResourceCPU :: string where
  "ResourceCPU = ''cpu''"

definition ResourceMemory :: string where
  "ResourceMemory = ''memory''"

definition ResourceEphemeralStorage :: string where
  "ResourceEphemeralStorage = ''ephemeral-storage''"

definition agentContainerName :: string where
  "agentContainerName = ''agent''"

definition placeholderImage :: string where
  "placeholderImage = ''ghcr.io/cocoonstack/placeholder:latest''"

definition agentPodName :: "string \<Rightarrow> int \<Rightarrow> string" where
  "agentPodName name slot = name @ ''-'' @ formatInt slot"

definition hostnameSelectorTerm :: "string \<Rightarrow> nodeSelectorTerm" where
  "hostnameSelectorTerm nodeName =
     [\<lparr>reqKey = LabelHostname, reqOperator = ''In'', reqValues = [nodeName]\<rparr>]"

definition hostnameAffinity :: "string \<Rightarrow> affinity" where
  "hostnameAffinity nodeName =
     \<lparr>affNode = Some \<lparr>naRequired = Some [hostnameSelectorTerm nodeName], naPreferred = []\<rparr>\<rparr>"

definition preferredHostnameAffinity :: "string \<Rightarrow> affinity" where
  "preferredHostnameAffinity nodeName =
     \<lparr>affNode = Some \<lparr>naRequired = None, naPreferred = [(100, hostnameSelectorTerm nodeName)]\<rparr>\<rparr>"

definition emptyContainer :: container where
  "emptyContainer =
     \<lparr>cntName = agentContainerName, cntImage = placeholderImage,
      cntResources = \<lparr>resLimits = [], resRequests = []\<rparr>, cntEnvFrom = []\<rparr>"

text \<open>\<open>newManagedPod\<close>: the pod literal, then the controller reference.\<close>

definition managedPod :: "metaPkg \<Rightarrow> cocoonSet \<Rightarrow> string \<Rightarrow> string \<Rightarrow> string \<Rightarrow> pod" where
  "managedPod M cs name role slotLabel =
     (let pool = strOr (specNodePool (csSpec cs)) (DefaultNodePool M);
          cls = specSnapshotClass (csSpec cs);
          nodeSelector = [(LabelNodePool M, pool)];
          nodeSelector = (if cls \<noteq> [] then AList.update (LabelSnapshotClass M) cls nodeSelector
                          else nodeSelector)
      in \<lparr>podName = name, podNamespace = csNamespace cs,
          podLabels =
            [(LabelCocoonSet M, csName cs), (LabelRole M, role), (LabelSlot M, slotLabel),
             (''app.kubernetes.io/name'', csName cs)],
          podAnnotations = [(AnnotationCocoonSetGeneration M, formatInt (csGeneration cs))],
          podDeletionTimestamp = None, podOwners = [], podNodeName = [],
          podNodeSelector = nodeSelector, podAffinity = None, podServiceAccount = [],
          podGracePeriod = Some 1,
          podTolerations =
            [\<lparr>tolKey = TolerationKey M, tolOperator = ''Exists'', tolEffect = []\<rparr>,
             \<lparr>tolKey = ''node.kubernetes.io/not-ready'', tolOperator = ''Exists'', tolEffect = ''NoExecute''\<rparr>,
             \<lparr>tolKey = ''node.kubernetes.io/unreachable'', tolOperator = ''Exists'', tolEffect = ''NoExecute''\<rparr>],
          podContainer = emptyContainer, podMoreContainers = [],
          podPhase = [], podConditions = []\<rparr>)"

definition newManagedPod ::
    "env \<Rightarrow> cocoonSet \<Rightarrow> string \<Rightarrow> string \<Rightarrow> string \<Rightarrow> gerr + pod" where
  "newManagedPod r cs name role slotLabel =
     (case SetControllerReference (kube r) cs (managedPod (meta r) cs name role slotLabel) of
        Inl err \<Rightarrow> Inl (ErrWrap ''set controller reference'' err)
      | Inr p \<Rightarrow> Inr p)"

definition mapContainer :: "(container \<Rightarrow> container) \<Rightarrow> pod \<Rightarrow> pod" where
  "mapContainer f p = p\<lparr>podContainer := f (podContainer p)\<rparr>"

definition applyStorageRequest :: "kubePkg \<Rightarrow> quantity option \<Rightarrow> pod \<Rightarrow> pod" where
  "applyStorageRequest K storage p =
     (case storage of
        None \<Rightarrow> p
      | Some q \<Rightarrow>
          if QuantityIsZero K q then p
          else mapContainer (\<lambda>c. c\<lparr>cntResources :=
                 \<lparr>resLimits = AList.update ResourceEphemeralStorage q (resLimits (cntResources c)),
                  resRequests = AList.update ResourceEphemeralStorage q (resRequests (cntResources c))\<rparr>\<rparr>) p)"

definition buildAgentPod ::
    "env \<Rightarrow> cocoonSet \<Rightarrow> int \<Rightarrow> string \<Rightarrow> string \<Rightarrow> gerr + pod" where
  "buildAgentPod r cs slot mainVMName bindNodeName =
     (let M = meta r; ag = specAgent (csSpec cs);
          (role, forkFrom) = (if slot > 0 then (RoleSubAgent M, mainVMName) else (RoleMain M, []));
          vm = VMNameForDeployment M (csNamespace cs) (csName cs) slot;
          name = agentPodName (csName cs) slot
      in case newManagedPod r cs name role (formatInt slot) of
           Inl err \<Rightarrow> Inl err
         | Inr p \<Rightarrow>
             let p = ApplyVMSpec M (FromAgentSpec M ag vm (specSnapshotPolicy (csSpec cs)) forkFrom) p;
                 p = mapContainer (\<lambda>c. c\<lparr>cntResources := agResources ag\<rparr>) p;
                 p = applyStorageRequest (kube r) (agStorage ag) p;
                 p = mapContainer (\<lambda>c. c\<lparr>cntEnvFrom := agEnvFrom ag\<rparr>) p;
                 p = (if agServiceAccount ag \<noteq> [] then p\<lparr>podServiceAccount := agServiceAccount ag\<rparr> else p);
                 p = (if bindNodeName \<noteq> [] then p\<lparr>podNodeName := bindNodeName\<rparr>
                      else if slot = 0 \<and> specNodeName (csSpec cs) \<noteq> []
                      then p\<lparr>podAffinity := Some (hostnameAffinity (specNodeName (csSpec cs)))\<rparr>
                      else p)
             in Inr p)"

definition buildToolboxPod :: "env \<Rightarrow> cocoonSet \<Rightarrow> toolboxSpec \<Rightarrow> gerr + pod" where
  "buildToolboxPod r cs tb =
     (let M = meta r;
          name = ToolboxPodName M (csName cs) (tbName tb);
          vm = VMNameForPod M (csNamespace cs) name
      in case newManagedPod r cs name (RoleToolbox M) (tbName tb) of
           Inl err \<Rightarrow> Inl err
         | Inr p \<Rightarrow>
             let p = ApplyVMSpec M (FromToolboxSpec M tb vm (specSnapshotPolicy (csSpec cs))) p;
                 p = (if tbMode tb = TbStatic
                      then ApplyVMRuntime M
                             \<lparr>rtVMID = tbStaticVMID tb, rtIP = tbStaticIP tb, rtVNCPort = tbVNCPort tb\<rparr> p
                      else p);
                 p = mapContainer (\<lambda>c. c\<lparr>cntResources := tbResources tb\<rparr>) p;
                 p = applyStorageRequest (kube r) (tbStorage tb) p
             in Inr p)"


section \<open>Drift\<close>

definition quantityEqual ::
    "kubePkg \<Rightarrow> (string, quantity) gomap \<Rightarrow> (string, quantity) gomap \<Rightarrow> string \<Rightarrow> bool" where
  "quantityEqual K a b name =
     (let qa = map_of a name; qb = map_of b name;
          val = (\<lambda>q. case q of None \<Rightarrow> QuantityZero K | Some x \<Rightarrow> x)
      in (qa \<noteq> None) = (qb \<noteq> None) \<and> QuantityCmp K (val qa) (val qb) = 0)"

definition resourcesMatch :: "kubePkg \<Rightarrow> pod \<Rightarrow> resourceRequirements \<Rightarrow> bool" where
  "resourcesMatch K p want =
     (let got = cntResources (podContainer p)
      in list_all (\<lambda>res.
           quantityEqual K (resLimits got) (resLimits want) res \<and>
           (let wantReq = (if map_of (resRequests want) res = None then resLimits want
                           else resRequests want)
            in quantityEqual K (resRequests got) wantReq res))
         [ResourceCPU, ResourceMemory])"

definition schedulingMatches :: "metaPkg \<Rightarrow> pod \<Rightarrow> cocoonSet \<Rightarrow> bool" where
  "schedulingMatches M p cs =
     (if PodNodePool M p \<noteq> strOr (specNodePool (csSpec cs)) (DefaultNodePool M) then False
      else
        let cls = strAt (podNodeSelector p) (LabelSnapshotClass M)
        in cls = specSnapshotClass (csSpec cs) \<or> (cls = [] \<and> \<not> podIsTerminal M p))"

definition podSpecMatchesAgent :: "env \<Rightarrow> pod \<Rightarrow> cocoonSet \<Rightarrow> int \<Rightarrow> bool" where
  "podSpecMatchesAgent r p cs slot =
     (let M = meta r; ag = specAgent (csSpec cs);
          current = ParseVMSpec M p;
          forkFrom = (if slot > 0 then vmForkFrom current else []);
          want = FromAgentSpec M ag (vmName current) (specSnapshotPolicy (csSpec cs)) forkFrom
      in if current \<noteq> want \<or> \<not> resourcesMatch (kube r) p (agResources ag) then False
         else
           strOr (podServiceAccount p) ''default'' = strOr (agServiceAccount ag) ''default'' \<and>
           DeepEqualEnvFrom (kube r) (cntEnvFrom (podContainer p)) (agEnvFrom ag) \<and>
           schedulingMatches M p cs)"

definition podSpecMatchesToolbox :: "env \<Rightarrow> pod \<Rightarrow> cocoonSet \<Rightarrow> toolboxSpec \<Rightarrow> bool" where
  "podSpecMatchesToolbox r p cs tb =
     (let M = meta r;
          current = ParseVMSpec M p;
          want = FromToolboxSpec M tb (vmName current) (specSnapshotPolicy (csSpec cs))
      in if current \<noteq> want \<or> \<not> resourcesMatch (kube r) p (tbResources tb) then False
         else if \<not> schedulingMatches M p cs then False
         else if tbMode tb \<noteq> TbStatic then True
         else
           let got = ParseVMRuntime M p
           in rtVMID got = tbStaticVMID tb \<and> rtIP got = tbStaticIP tb \<and> rtVNCPort got = tbVNCPort tb)"



section \<open>Classification, characterised\<close>

text \<open>The last index, counted from \<open>i\<close>, of a pod with a property.\<close>

fun lastIdx :: "(pod \<Rightarrow> bool) \<Rightarrow> nat \<Rightarrow> pod list \<Rightarrow> nat option" where
  "lastIdx P i [] = None"
| "lastIdx P i (p # ps) =
     (case lastIdx P (Suc i) ps of Some j \<Rightarrow> Some j | None \<Rightarrow> if P p then Some i else None)"

definition livePod :: "pod \<Rightarrow> bool" where
  "livePod p \<longleftrightarrow> podDeletionTimestamp p = None"

definition roleOf :: "metaPkg \<Rightarrow> pod \<Rightarrow> string" where
  "roleOf M p = strAt (podLabels p) (LabelRole M)"

definition slotLabelOf :: "metaPkg \<Rightarrow> pod \<Rightarrow> string" where
  "slotLabelOf M p = strAt (podLabels p) (LabelSlot M)"

definition isMainPod :: "metaPkg \<Rightarrow> pod \<Rightarrow> bool" where
  "isMainPod M p \<longleftrightarrow> livePod p \<and> roleOf M p = RoleMain M"

definition isSubPod :: "metaPkg \<Rightarrow> int \<Rightarrow> pod \<Rightarrow> bool" where
  "isSubPod M slot p \<longleftrightarrow> livePod p \<and> roleOf M p \<noteq> RoleMain M \<and> roleOf M p = RoleSubAgent M \<and>
     parseInt 32 (slotLabelOf M p) = Some slot"

definition isToolboxPod :: "metaPkg \<Rightarrow> string \<Rightarrow> pod \<Rightarrow> bool" where
  "isToolboxPod M name p \<longleftrightarrow> livePod p \<and> roleOf M p \<noteq> RoleMain M \<and> roleOf M p \<noteq> RoleSubAgent M \<and>
     roleOf M p = RoleToolbox M \<and> slotLabelOf M p = name"

lemmas pod_kind_defs = livePod_def roleOf_def slotLabelOf_def isMainPod_def isSubPod_def isToolboxPod_def

lemma classifyPod_fields:
  "clsMain (classifyPod M i p out) = (if isMainPod M p then Some i else clsMain out)"
  "map_of (clsSub (classifyPod M i p out)) slot =
     (if isSubPod M slot p then Some i else map_of (clsSub out) slot)"
  "map_of (clsToolbox (classifyPod M i p out)) name =
     (if isToolboxPod M name p then Some i else map_of (clsToolbox out) name)"
  "map_of (clsAllByName (classifyPod M i p out)) name =
     (if livePod p \<and> podName p = name then Some i else map_of (clsAllByName out) name)"
  by (auto simp: classifyPod_def pod_kind_defs Let_def update_conv split: option.split)

lemma classifyFrom_fields:
  "clsMain (classifyFrom M i ps out) =
     (case lastIdx (isMainPod M) i ps of None \<Rightarrow> clsMain out | j \<Rightarrow> j)"
  "map_of (clsSub (classifyFrom M i ps out)) slot =
     (case lastIdx (isSubPod M slot) i ps of None \<Rightarrow> map_of (clsSub out) slot | j \<Rightarrow> j)"
  "map_of (clsToolbox (classifyFrom M i ps out)) tb =
     (case lastIdx (isToolboxPod M tb) i ps of None \<Rightarrow> map_of (clsToolbox out) tb | j \<Rightarrow> j)"
  "map_of (clsAllByName (classifyFrom M i ps out)) name =
     (case lastIdx (\<lambda>p. livePod p \<and> podName p = name) i ps of
        None \<Rightarrow> map_of (clsAllByName out) name | j \<Rightarrow> j)"
  by (induction ps arbitrary: i out) (simp_all add: classifyPod_fields split: option.split)

lemma lastIdx_Some:
  "lastIdx P i ps = Some j \<Longrightarrow> i \<le> j \<and> j < i + length ps \<and> P (ps ! (j - i)) \<and>
     (\<forall>k. j < k \<longrightarrow> k < i + length ps \<longrightarrow> \<not> P (ps ! (k - i)))"
proof (induction ps arbitrary: i)
  case (Cons p ps)
  show ?case
  proof (cases "lastIdx P (Suc i) ps")
    case (Some j')
    with Cons.prems have "lastIdx P (Suc i) ps = Some j" by simp
    from Cons.IH [OF this] show ?thesis by (auto simp: nth_Cons' less_diff_conv Suc_diff_le)
  next
    case None
    have none: "lastIdx P i ps = None \<Longrightarrow> k < length ps \<Longrightarrow> \<not> P (ps ! k)" for i k
      by (induction ps arbitrary: i k) (auto simp: nth_Cons' split: option.splits if_splits)
    from None Cons.prems have "P p" "j = i" by (auto split: if_splits)
    with none [OF None] show ?thesis by (auto simp: nth_Cons')
  qed
qed simp

lemma lastIdx_None: "lastIdx P i ps = None \<longleftrightarrow> (\<forall>p\<in>set ps. \<not> P p)"
proof (induction ps arbitrary: i)
  case (Cons p ps)
  then show ?case by (cases "lastIdx P (Suc i) ps") (simp_all, metis option.distinct(1))
qed simp

text \<open>
  C26: classification of the owned pods. A pod being deleted is in no class; the main agent, the
  sub-agent of a slot, the toolbox of a name and the pod of a name are each the last live pod
  with that role and label; a pod with an unknown role or a slot label that is no 32-bit integer
  is reachable by name only.
\<close>

theorem classifyPods_spec:
  "clsMain (classifyPods M ps) = lastIdx (isMainPod M) 0 ps \<and>
   map_of (clsSub (classifyPods M ps)) slot = lastIdx (isSubPod M slot) 0 ps \<and>
   map_of (clsToolbox (classifyPods M ps)) tb = lastIdx (isToolboxPod M tb) 0 ps \<and>
   map_of (clsAllByName (classifyPods M ps)) name = lastIdx (\<lambda>p. livePod p \<and> podName p = name) 0 ps"
  by (simp add: classifyPods_def classifyFrom_fields noPods_def split: option.split)


section \<open>Built pods\<close>

text \<open>
  What the operator relies on from the packages when it builds a pod: \<open>SetControllerReference\<close>
  adds an owner and changes nothing else; \<open>VMSpec.Apply\<close> only writes annotations and
  \<open>ParseVMSpec\<close>, which only reads them, returns what was applied; \<open>FromAgentSpec\<close> carries
  the VM name and the fork source; a pod's pool is its node selector's, or the default; equality
  of quantities and of \<open>envFrom\<close> lists is reflexive; the labels and roles are different texts.
\<close>

definition buildLaws :: "env \<Rightarrow> bool" where
  "buildLaws r \<longleftrightarrow>
     (\<forall>cs p p'. SetControllerReference (kube r) cs p = Inr p' \<longrightarrow> p' = p\<lparr>podOwners := podOwners p'\<rparr>) \<and>
     (\<forall>v p. ApplyVMSpec (meta r) v p = p\<lparr>podAnnotations := podAnnotations (ApplyVMSpec (meta r) v p)\<rparr>) \<and>
     (\<forall>ag vm pol f p q. let v = FromAgentSpec (meta r) ag vm pol f in
        podAnnotations q = podAnnotations (ApplyVMSpec (meta r) v p) \<longrightarrow> ParseVMSpec (meta r) q = v) \<and>
     (\<forall>ag vm pol f. vmName (FromAgentSpec (meta r) ag vm pol f) = vm \<and>
                    vmForkFrom (FromAgentSpec (meta r) ag vm pol f) = f) \<and>
     (\<forall>p. PodNodePool (meta r) p =
        strOr (strAt (podNodeSelector p) (LabelNodePool (meta r))) (DefaultNodePool (meta r))) \<and>
     (\<forall>q. QuantityCmp (kube r) q q = 0) \<and> (\<forall>es. DeepEqualEnvFrom (kube r) es es) \<and>
     distinct [LabelCocoonSet (meta r), LabelRole (meta r), LabelSlot (meta r), ''app.kubernetes.io/name''] \<and>
     LabelNodePool (meta r) \<noteq> LabelSnapshotClass (meta r) \<and>
     distinct [RoleMain (meta r), RoleSubAgent (meta r), RoleToolbox (meta r)]"

text \<open>
  The API server's defaulting of a stored pod, as far as drift detection reads it: each missing
  request is filled from its limit, and an unset service account becomes \<open>default\<close>.
\<close>

definition apiDefaulted :: "pod \<Rightarrow> pod" where
  "apiDefaulted p =
     mapContainer (\<lambda>c. c\<lparr>cntResources := (cntResources c)\<lparr>resRequests :=
         resRequests (cntResources c) @ resLimits (cntResources c)\<rparr>\<rparr>)
       (p\<lparr>podServiceAccount := strOr (podServiceAccount p) ''default''\<rparr>)"

lemma newManagedPod_Inr:
  assumes "buildLaws r" and "newManagedPod r cs name role slot = Inr p"
  shows "\<exists>os. p = (managedPod (meta r) cs name role slot)\<lparr>podOwners := os\<rparr>"
  using assms by (auto simp: newManagedPod_def buildLaws_def split: sum.splits)

lemma managedPod_selector:
  assumes "buildLaws r"
  shows "strAt (podNodeSelector (managedPod (meta r) cs name role slot)) (LabelNodePool (meta r)) =
      strOr (specNodePool (csSpec cs)) (DefaultNodePool (meta r))"
    and "strAt (podNodeSelector (managedPod (meta r) cs name role slot)) (LabelSnapshotClass (meta r)) =
      specSnapshotClass (csSpec cs)"
  using assms by (auto simp: managedPod_def Let_def strAt_def buildLaws_def)

lemma applyStorageRequest_frame:
  "applyStorageRequest K q p = p\<lparr>podContainer := podContainer (applyStorageRequest K q p)\<rparr>"
  "podContainer p = podContainer p' \<Longrightarrow>
     podContainer (applyStorageRequest K q p) = podContainer (applyStorageRequest K q p')"
  by (simp_all add: applyStorageRequest_def mapContainer_def split: option.split)

lemma ApplyVMSpec_frame:
  assumes "buildLaws r" and "v = FromAgentSpec (meta r) ag vm pol f"
  shows "\<exists>anns. ApplyVMSpec (meta r) v p = p\<lparr>podAnnotations := anns\<rparr> \<and>
    (\<forall>q. podAnnotations q = anns \<longrightarrow> ParseVMSpec (meta r) q = v)"
  using assms unfolding buildLaws_def Let_def by metis

lemma applyStorageRequest_lookup:
  assumes "res \<noteq> ResourceEphemeralStorage"
  shows "map_of (resLimits (cntResources (podContainer (applyStorageRequest K q p)))) res =
      map_of (resLimits (cntResources (podContainer p))) res"
    and "map_of (resRequests (cntResources (podContainer (applyStorageRequest K q p)))) res =
      map_of (resRequests (cntResources (podContainer p))) res"
    and "cntEnvFrom (podContainer (applyStorageRequest K q p)) = cntEnvFrom (podContainer p)"
  using assms by (simp_all add: applyStorageRequest_def mapContainer_def update_conv split: option.split)

text \<open>
  An agent pod: the managed pod with the owner, the VM annotations, the agent's container and
  service account, and a place, which is the node it is bound to or the main's required affinity.
\<close>

lemma buildAgentPod_Inr:
  assumes laws: "buildLaws r" and built: "buildAgentPod r cs slot mainVM bindNode = Inr p"
  defines "ag \<equiv> specAgent (csSpec cs)"
    and "base \<equiv> managedPod (meta r) cs (agentPodName (csName cs) slot)
      (if slot > 0 then RoleSubAgent (meta r) else RoleMain (meta r)) (formatInt slot)"
  shows "\<exists>os anns c. p = base\<lparr>podOwners := os, podAnnotations := anns, podContainer := c,
        podServiceAccount := agServiceAccount ag, podNodeName := bindNode,
        podAffinity := (if bindNode = [] \<and> slot = 0 \<and> specNodeName (csSpec cs) \<noteq> []
          then Some (hostnameAffinity (specNodeName (csSpec cs))) else None)\<rparr> \<and>
      (\<forall>q. podAnnotations q = anns \<longrightarrow> ParseVMSpec (meta r) q =
         FromAgentSpec (meta r) ag (VMNameForDeployment (meta r) (csNamespace cs) (csName cs) slot)
           (specSnapshotPolicy (csSpec cs)) (if slot > 0 then mainVM else [])) \<and>
      (\<forall>res. res \<noteq> ResourceEphemeralStorage \<longrightarrow>
         map_of (resLimits (cntResources c)) res = map_of (resLimits (agResources ag)) res \<and>
         map_of (resRequests (cntResources c)) res = map_of (resRequests (agResources ag)) res) \<and>
      cntEnvFrom c = agEnvFrom ag"
proof -
  let ?vm = "VMNameForDeployment (meta r) (csNamespace cs) (csName cs) slot"
  let ?v = "FromAgentSpec (meta r) ag ?vm (specSnapshotPolicy (csSpec cs)) (if slot > 0 then mainVM else [])"
  from built obtain q where q: "newManagedPod r cs (agentPodName (csName cs) slot)
      (if slot > 0 then RoleSubAgent (meta r) else RoleMain (meta r)) (formatInt slot) = Inr q"
    by (auto simp: buildAgentPod_def Let_def split: sum.splits if_splits)
  from newManagedPod_Inr [OF laws q] obtain os where os: "q = base\<lparr>podOwners := os\<rparr>"
    by (auto simp: base_def)
  from ApplyVMSpec_frame [OF laws refl] obtain anns where
    anns: "ApplyVMSpec (meta r) ?v q = q\<lparr>podAnnotations := anns\<rparr>"
      "\<forall>x. podAnnotations x = anns \<longrightarrow> ParseVMSpec (meta r) x = ?v" by blast
  let ?q1 = "mapContainer (\<lambda>c. c\<lparr>cntResources := agResources ag\<rparr>) (q\<lparr>podAnnotations := anns\<rparr>)"
  let ?q2 = "applyStorageRequest (kube r) (agStorage ag) ?q1"
  have q2: "?q2 = ?q1\<lparr>podContainer := podContainer ?q2\<rparr>" by (rule applyStorageRequest_frame)
  let ?c = "(podContainer ?q2)\<lparr>cntEnvFrom := agEnvFrom ag\<rparr>"
  have base: "podServiceAccount base = []" "podNodeName base = []" "podAffinity base = None"
    by (simp_all add: base_def managedPod_def Let_def)
  from built q anns(1) have "p = (let p = mapContainer (\<lambda>c. c\<lparr>cntEnvFrom := agEnvFrom ag\<rparr>) ?q2;
      p = (if agServiceAccount ag \<noteq> [] then p\<lparr>podServiceAccount := agServiceAccount ag\<rparr> else p)
    in if bindNode \<noteq> [] then p\<lparr>podNodeName := bindNode\<rparr>
       else if slot = 0 \<and> specNodeName (csSpec cs) \<noteq> []
       then p\<lparr>podAffinity := Some (hostnameAffinity (specNodeName (csSpec cs)))\<rparr> else p)"
    by (auto simp: buildAgentPod_def Let_def ag_def split: if_splits)
  then have "p = base\<lparr>podOwners := os, podAnnotations := anns, podContainer := ?c,
        podServiceAccount := agServiceAccount ag, podNodeName := bindNode,
        podAffinity := (if bindNode = [] \<and> slot = 0 \<and> specNodeName (csSpec cs) \<noteq> []
          then Some (hostnameAffinity (specNodeName (csSpec cs))) else None)\<rparr>"
    using q2 base by (cases "podContainer ?q2") (simp add: os mapContainer_def Let_def)
  moreover have "res \<noteq> ResourceEphemeralStorage \<Longrightarrow>
      map_of (resLimits (cntResources ?c)) res = map_of (resLimits (agResources ag)) res \<and>
      map_of (resRequests (cntResources ?c)) res = map_of (resRequests (agResources ag)) res" for res
    by (simp add: applyStorageRequest_lookup mapContainer_def)
  ultimately show ?thesis using anns(2) by (intro exI [of _ os] exI [of _ anns] exI [of _ ?c]) simp
qed

text \<open>
  C27: a built agent pod is classified back into its slot. The pod built for slot 0 is the main
  agent, the pod built for a positive slot is the sub-agent of exactly that slot (its label is
  the decimal text of the slot and reads back as the same 32-bit integer), neither is a toolbox,
  and each is found by its pod name.
\<close>

theorem built_agent_classified:
  assumes "buildLaws r" and "buildAgentPod r cs slot mainVM bindNode = Inr p"
    and "0 \<le> slot" and "slot < 2 ^ 31"
  shows "classifyPods (meta r) [p] =
    \<lparr>clsMain = (if slot = 0 then Some 0 else None),
     clsSub = (if slot = 0 then [] else [(slot, 0)]), clsToolbox = [],
     clsAllByName = [(agentPodName (csName cs) slot, 0)]\<rparr>"
proof -
  have labels: "distinct [LabelCocoonSet (meta r), LabelRole (meta r), LabelSlot (meta r), ''app.kubernetes.io/name'']"
    and roles: "distinct [RoleMain (meta r), RoleSubAgent (meta r), RoleToolbox (meta r)]"
    using assms(1) by (simp_all add: buildLaws_def)
  have slot: "parseInt 32 (formatInt slot) = Some slot"
    using assms(3,4) by (intro parseInt_formatInt) simp_all
  from buildAgentPod_Inr [OF assms(1,2)]
  have p: "podName p = agentPodName (csName cs) slot" "podDeletionTimestamp p = None"
    "podLabels p = [(LabelCocoonSet (meta r), csName cs),
       (LabelRole (meta r), if slot > 0 then RoleSubAgent (meta r) else RoleMain (meta r)),
       (LabelSlot (meta r), formatInt slot), (''app.kubernetes.io/name'', csName cs)]"
    by (auto simp: managedPod_def Let_def)
  show ?thesis
    using labels roles slot assms(3) by (auto simp: classifyPods_def classifyPod_def noPods_def p strAt_def Let_def)
qed


lemma demo_buildLaws: "buildLaws (demoEnv pods hibs tags t)"
  by (auto simp: buildLaws_def fixture_defs strAt_def update_conv)

lemma demo_built: "\<exists>p. buildAgentPod (demoEnv [] [] [] 0) demoSet 2 ''vm'' ''node'' = Inr p"
  by (simp add: buildAgentPod_def newManagedPod_def fixture_defs Let_def)

theorem built_agent_classified_witness:
  "\<exists>p. buildAgentPod (demoEnv [] [] [] 0) demoSet 2 ''vm'' ''node'' = Inr p \<and>
     clsSub (classifyPods (meta (demoEnv [] [] [] 0)) [p]) = [(2, 0)]"
  using demo_built built_agent_classified [OF demo_buildLaws, of "[]" "[]" "[]" 0 demoSet 2 "''vm''" "''node''"]
  by fastforce


end
