(* ===== verification/Ownership.thy ===== *)
theory Ownership
  imports Pods
begin

text \<open>
  \<open>cocoonset/ownership.go\<close> and \<open>cocoonset/lifecycle.go\<close>: the pods a CocoonSet controls, and
  the generation stamp that lets vk-cocoon echo the generation back. The lemmas are the rules the
  later stages use: what the list answers, and that stamping only patches pods.
\<close>

definition listOwnedPods :: "env \<Rightarrow> cocoonSet \<Rightarrow> (gerr + pod list) setIO" where
  "listOwnedPods r cs = do {
     got \<leftarrow> listPods r (csNamespace cs) (LabelCocoonSet (meta r)) (csName cs);
     case got of
       Inl err \<Rightarrow> State_Monad.return (Inl err)
     | Inr items \<Rightarrow>
         State_Monad.return (Inr (deleteFunc (\<lambda>p. \<not> IsControlledBy (kube r) p cs) items))
   }"

definition stampPod :: "env \<Rightarrow> nat \<Rightarrow> gerr option setIO" where
  "stampPod r i = do {
     cs \<leftarrow> theCS;
     err \<leftarrow> patchAt i (podpatchCocoonSetGeneration r (csGeneration cs));
     p \<leftarrow> podAt i;
     case err of
       Some e \<Rightarrow>
         State_Monad.return (Some (ErrWrap
           (''patch cocoonset generation on '' @ podNamespace p @ ''/'' @ podName p) e))
     | None \<Rightarrow> State_Monad.return None
   }"

definition syncCocoonSetGeneration :: "env \<Rightarrow> classifiedPods \<Rightarrow> gerr option setIO" where
  "syncCocoonSetGeneration r c = forEachSorted r c (stampPod r)"

lemma wp_listOwnedPods [wp_simps]:
  "wp (listOwnedPods r cs) Q s =
     (let a = cliListPods (cli r) (hist s) (csNamespace cs) (LabelCocoonSet (meta r)) (csName cs);
          s' = s\<lparr>hist := EvListPods (csNamespace cs) (LabelCocoonSet (meta r)) (csName cs) a # hist s\<rparr>
      in case a of
           Inl err \<Rightarrow> Q (Inl err) s'
         | Inr items \<Rightarrow> Q (Inr (deleteFunc (\<lambda>p. \<not> IsControlledBy (kube r) p cs) items)) s')"
  by (simp add: listOwnedPods_def wp_simps Let_def split: sum.split)

lemma listOwnedPods_emits [emits_intros]:
  "(\<And>a. K (EvListPods (csNamespace cs) (LabelCocoonSet (meta r)) (csName cs) a)) \<Longrightarrow>
     emits K (listOwnedPods r cs)"
  unfolding listOwnedPods_def call_defs by (intro emits_intros)

lemma stampPod_emits [emits_intros]:
  "(\<And>p q e. K (EvPatchPod p q e)) \<Longrightarrow> emits K (stampPod r i)"
  unfolding stampPod_def by (intro emits_intros)

lemma syncCocoonSetGeneration_emits [emits_intros]:
  "(\<And>p q e. K (EvPatchPod p q e)) \<Longrightarrow> (\<And>e. K (EvCtx e)) \<Longrightarrow> emits K (syncCocoonSetGeneration r c)"
  unfolding syncCocoonSetGeneration_def by (intro emits_intros)

end
