(* ===== verification/Status.thy ===== *)
theory Status
  imports Ownership
begin

text \<open>
  \<open>cocoonset/status.go\<close>: the status a pass computes from the classified pods, its phase and
  conditions, and the write through the status subresource that is skipped when nothing
  changed. The counters are \<open>int32\<close>, so \<open>1 + Replicas\<close> wraps at the top of the range.
  \<open>buildStatus\<close> reads the pods through the heap the pass works on. The lemmas: the counters
  are the numbers of ready pods, the derived phase is \<open>Running\<close> exactly when every desired
  agent and toolbox is ready, and a status equal to the stored one is not written.
\<close>

definition annotationDeadLetter :: string where
  "annotationDeadLetter = ''cocoonset.cocoonstack.io/dead-letter''"

type_synonym podStore = "nat \<Rightarrow> pod"

definition agentStatusFromPod :: "metaPkg \<Rightarrow> pod \<Rightarrow> int \<Rightarrow> string \<Rightarrow> string \<Rightarrow> agentStatus" where
  "agentStatusFromPod M p slot role forkedFrom =
     (let spec = ParseVMSpec M p; rt = ParseVMRuntime M p
      in \<lparr>asSlot = slot, asRole = role, asPodName = podName p, asVMName = vmName spec,
          asVMID = rtVMID rt, asIP = rtIP rt, asPhase = podPhase p, asForkedFrom = forkedFrom\<rparr>)"

definition toolboxStatusFromPod :: "metaPkg \<Rightarrow> pod \<Rightarrow> string \<Rightarrow> toolboxStatus" where
  "toolboxStatusFromPod M p name =
     (let spec = ParseVMSpec M p; rt = ParseVMRuntime M p
      in \<lparr>tsName = name, tsPodName = podName p, tsVMName = vmName spec, tsVMID = rtVMID rt,
          tsIP = rtIP rt, tsPhase = podPhase p,
          tsConnType = ConnectionType M (vmOS spec) (rtVNCPort rt > 0) (vmConnType spec),
          tsVNCPort = rtVNCPort rt\<rparr>)"

definition derivePhase :: "nat option \<Rightarrow> int \<Rightarrow> int \<Rightarrow> int \<Rightarrow> int \<Rightarrow> csPhase" where
  "derivePhase main ready desired tbReady tbDesired =
     (if main = None then CSPending
      else if ready < desired \<or> tbReady < tbDesired then CSScaling
      else CSRunning)"

definition deadLetteredPods :: "cocoonSet \<Rightarrow> podStore \<Rightarrow> classifiedPods \<Rightarrow> string list" where
  "deadLetteredPods cs H c =
     filter (\<lambda>name. case map_of (clsAllByName c) name of
         None \<Rightarrow> False
       | Some i \<Rightarrow> strAt (podAnnotations (H i)) annotationDeadLetter = formatInt (csGeneration cs))
       (sortedKeys (clsAllByName c))"

definition buildConditions ::
    "kubePkg \<Rightarrow> cocoonSet \<Rightarrow> int \<Rightarrow> int \<Rightarrow> int \<Rightarrow> int \<Rightarrow> csPhase \<Rightarrow> string list \<Rightarrow> condition list" where
  "buildConditions K cs ready desired tbReady tbDesired phase parked =
     (let allReady = (ready = desired \<and> desired > 0 \<and> tbReady = tbDesired);
          readyCond = NewReadyCondition K (csGeneration cs)
            (if allReady then ''True'' else ''False'')
            (if allReady then ''AllAgentsReady'' else ''AgentsNotReady'')
            (formatInt ready @ ''/'' @ formatInt desired @ '' agents ready, '' @
             formatInt tbReady @ ''/'' @ formatInt tbDesired @ '' toolboxes ready'');
          progressing = \<lparr>cdType = ''Progressing'', cdStatus = ''False'', cdReason = ''Stable'',
            cdMessage = csPhaseText phase, cdObservedGeneration = csGeneration cs,
            cdLastTransition = None\<rparr>;
          progressing = (if phase = CSPending \<or> phase = CSScaling
            then progressing\<lparr>cdStatus := ''True'', cdReason := ''Reconciling''\<rparr> else progressing);
          progressing = (if parked \<noteq> []
            then progressing\<lparr>cdStatus := ''False'', cdReason := ''DeadLettered'',
              cdMessage := csPhaseText phase @ ''; dead-lettered at generation '' @
                formatInt (csGeneration cs) @ '': '' @ join '', '' parked\<rparr>
            else progressing)
      in [readyCond, progressing])"

text \<open>The \<open>int32\<close> counter of ready pods among those visited.\<close>

fun countReady :: "metaPkg \<Rightarrow> podStore \<Rightarrow> int \<Rightarrow> nat list \<Rightarrow> int" where
  "countReady M H n [] = n"
| "countReady M H n (i # is) =
     countReady M H (if IsPodReady M (H i) then wrap32 (n + 1) else n) is"

definition desiredAgents :: "cocoonSet \<Rightarrow> int" where
  "desiredAgents cs = wrap32 (1 + agReplicas (specAgent (csSpec cs)))"

definition phaseOr :: "csPhase \<Rightarrow> csPhase \<Rightarrow> csPhase" where
  "phaseOr a b = (if a \<noteq> CSNone then a else b)"

text \<open>
  \<open>Agents\<close> is allocated with capacity \<open>desired\<close>; the definition covers the specs for which
  that is not negative (\<open>Replicas\<close> below the largest \<open>int32\<close>).
\<close>

definition buildStatus ::
    "env \<Rightarrow> cocoonSet \<Rightarrow> podStore \<Rightarrow> classifiedPods \<Rightarrow> csPhase \<Rightarrow> cocoonSetStatus" where
  "buildStatus r cs H c phase =
     (let M = meta r;
          desired = desiredAgents cs;
          mains = (case clsMain c of None \<Rightarrow> [] | Some i \<Rightarrow> [i]);
          mainVMName = (case clsMain c of None \<Rightarrow> [] | Some i \<Rightarrow> vmName (ParseVMSpec M (H i)));
          subs = sortedKeys (clsSub c);
          ready = countReady M H 0 (mains @ sortedVals (clsSub c));
          agents = map (\<lambda>i. agentStatusFromPod M (H i) 0 (RoleMain M) []) mains @
            List.map_filter (\<lambda>slot. map_option
              (\<lambda>i. agentStatusFromPod M (H i) slot (RoleSubAgent M) mainVMName) (map_of (clsSub c) slot)) subs;
          tbDesired = wrap32 (int (length (specToolboxes (csSpec cs))));
          tbReady = countReady M H 0 (sortedVals (clsToolbox c));
          tbStatuses = List.map_filter (\<lambda>name. map_option
              (\<lambda>i. toolboxStatusFromPod M (H i) name) (map_of (clsToolbox c) name)) (sortedKeys (clsToolbox c));
          phase = phaseOr phase (derivePhase (clsMain c) ready desired tbReady tbDesired)
      in \<lparr>stObservedGeneration = csGeneration cs, stPhase = phase, stReadyAgents = ready,
          stDesiredAgents = desired, stReadyToolboxes = tbReady, stDesiredToolboxes = tbDesired,
          stAgents = agents, stToolboxes = tbStatuses,
          stConditions = buildConditions (kube r) cs ready desired tbReady tbDesired phase
            (deadLetteredPods cs H c)\<rparr>)"

text \<open>\<open>SetStatusCondition\<close> may stamp the current time; each call is given its own reading.\<close>

fun mergeConditions :: "env \<Rightarrow> condition list \<Rightarrow> condition list \<Rightarrow> condition list setIO" where
  "mergeConditions r [] merged = State_Monad.return merged"
| "mergeConditions r (c # cs) merged = do {
     t \<leftarrow> now r;
     mergeConditions r cs (SetStatusCondition (kube r) t merged c)
   }"

definition patchStatus :: "env \<Rightarrow> cocoonSetStatus \<Rightarrow> gerr option setIO" where
  "patchStatus r status = do {
     cs \<leftarrow> theCS;
     merged \<leftarrow> mergeConditions r (stConditions status) (stConditions (csStatus cs));
     let status = status\<lparr>stConditions := merged\<rparr>;
     if DeepEqualStatus (kube r) (csStatus cs) status then State_Monad.return None
     else do {
       (err, cs') \<leftarrow> patchSetStatus r cs (\<lambda>c. c\<lparr>csStatus := status\<rparr>);
       putCS cs';
       State_Monad.return (map_option
         (ErrWrap (''patch status '' @ csNamespace cs' @ ''/'' @ csName cs')) err)
     }
   }"

text \<open>\<open>r.patchStatus(ctx, cs, buildStatus(cs, classified, phase))\<close>.\<close>

definition patchPhase :: "env \<Rightarrow> classifiedPods \<Rightarrow> csPhase \<Rightarrow> gerr option setIO" where
  "patchPhase r c phase = do {
     s \<leftarrow> State_Monad.get;
     patchStatus r (buildStatus r (theSet s) (podHeap s) c phase)
   }"


section \<open>Footprint and frame\<close>

lemma mergeConditions_emits [emits_intros]:
  "(\<And>t. K (EvNow t)) \<Longrightarrow> emits K (mergeConditions r cs merged)"
  by (induction cs arbitrary: merged) (auto simp: now_def intro!: emits_intros)

lemma patchStatus_emits [emits_intros]:
  assumes "\<And>t. K (EvNow t)" and "\<And>a b e. K (EvPatchSetStatus a b e)"
  shows "emits K (patchStatus r status)"
  unfolding patchStatus_def patchSetStatus_def by (intro emits_intros assms)

lemma patchPhase_emits [emits_intros]:
  assumes "\<And>t. K (EvNow t)" and "\<And>a b e. K (EvPatchSetStatus a b e)"
  shows "emits K (patchPhase r c phase)"
  unfolding patchPhase_def by (intro emits_intros assms)

text \<open>A status written with a given phase carries it.\<close>

lemma patchStatus_keeps_phase:
  assumes "\<And>t. K (EvNow t)" and "\<And>a b e. stPhase (csStatus b) = stPhase status \<Longrightarrow> K (EvPatchSetStatus a b e)"
  shows "emits K (patchStatus r status)"
  unfolding patchStatus_def patchSetStatus_def Let_def by (intro emits_intros assms) simp

lemma buildStatus_phase: "phase \<noteq> CSNone \<Longrightarrow> stPhase (buildStatus r cs H c phase) = phase"
  by (simp add: buildStatus_def Let_def phaseOr_def)

lemma patchPhase_writes:
  assumes "phase \<noteq> CSNone" and "\<And>t. K (EvNow t)"
    and "\<And>a b e. stPhase (csStatus b) = phase \<Longrightarrow> K (EvPatchSetStatus a b e)"
  shows "emits K (patchPhase r c phase)"
  unfolding patchPhase_def
  by (intro emits_bind emits_get patchStatus_keeps_phase) (simp_all add: assms buildStatus_phase)

text \<open>\<open>writesPhase ph e\<close>: the event sends a status with phase \<open>ph\<close>.\<close>

fun writesPhase :: "csPhase \<Rightarrow> event \<Rightarrow> bool" where
  "writesPhase ph (EvPatchSetStatus a b x) = (stPhase (csStatus b) = ph)"
| "writesPhase ph _ = False"

lemma wp_mergeConditions_frame:
  "wp (mergeConditions r cs merged) (\<lambda>_ t. theSet t = theSet s \<and> podHeap t = podHeap s) s"
proof (induction cs arbitrary: merged s)
  case (Cons c cs)
  from Cons.IH [where s = "s\<lparr>hist := EvNow (clock r (hist s)) # hist s\<rparr>"] show ?case
    by (simp add: wp_simps)
qed (simp add: wp_return)

lemma wp_patchPhase_heap: "wp (patchPhase r c phase) (\<lambda>_ t. podHeap t = podHeap s) s"
  unfolding patchPhase_def patchStatus_def wp_bind wp_get wp_theCS
  by (rule wp_mono [OF wp_mergeConditions_frame]) (simp add: wp_simps Let_def split_def)


section \<open>Counters and phase\<close>

lemma countReady_exact:
  "0 \<le> n \<Longrightarrow> n + int (length (filter (\<lambda>i. IsPodReady M (H i)) is)) < 2 ^ 31 \<Longrightarrow>
     countReady M H n is = n + int (length (filter (\<lambda>i. IsPodReady M (H i)) is))"
  by (induction "is" arbitrary: n) (auto simp: wrap32_id)

text \<open>The pods that count as agents: the main, then the sub-agents by slot.\<close>

definition agentPods :: "classifiedPods \<Rightarrow> nat list" where
  "agentPods c = (case clsMain c of None \<Rightarrow> [] | Some i \<Rightarrow> [i]) @ sortedVals (clsSub c)"

definition readyAmong :: "metaPkg \<Rightarrow> podStore \<Rightarrow> nat list \<Rightarrow> int" where
  "readyAmong M H is = int (length (filter (\<lambda>i. IsPodReady M (H i)) is))"

lemma readyAmong_bound: "int (length is) < 2 ^ 31 \<Longrightarrow> readyAmong M H is < 2 ^ 31"
  unfolding readyAmong_def by (meson length_filter_le of_nat_le_iff order_le_less_trans)

lemma countReady_0: "int (length is) < 2 ^ 31 \<Longrightarrow> countReady M H 0 is = readyAmong M H is"
  using countReady_exact [of 0 M H "is"] readyAmong_bound [of "is" M H] by (simp add: readyAmong_def)

text \<open>
  C28: the status counts what it says. For a spec and a cluster within the range of the 32-bit
  counters, \<open>ReadyAgents\<close> and \<open>ReadyToolboxes\<close> are the numbers of ready agent and toolbox
  pods, the desired numbers are \<open>1 + replicas\<close> and the number of toolboxes, and the derived phase
  is Pending without a main agent, Running exactly when no ready agent and no ready toolbox is
  missing, and Scaling otherwise.
\<close>

theorem status_counts:
  assumes "0 \<le> agReplicas (specAgent (csSpec cs))" and "agReplicas (specAgent (csSpec cs)) < 2 ^ 31 - 1"
    and "int (length (specToolboxes (csSpec cs))) < 2 ^ 31"
    and "int (length (agentPods c)) < 2 ^ 31" and "int (length (sortedVals (clsToolbox c))) < 2 ^ 31"
  shows "let st = buildStatus r cs H c CSNone; agents = readyAmong (meta r) H (agentPods c);
      toolboxes = readyAmong (meta r) H (sortedVals (clsToolbox c))
    in stReadyAgents st = agents \<and> stReadyToolboxes st = toolboxes \<and>
    stDesiredAgents st = 1 + agReplicas (specAgent (csSpec cs)) \<and>
    stDesiredToolboxes st = int (length (specToolboxes (csSpec cs))) \<and>
    stPhase st = (if clsMain c = None then CSPending
      else if agents < 1 + agReplicas (specAgent (csSpec cs)) \<or>
              toolboxes < int (length (specToolboxes (csSpec cs))) then CSScaling
      else CSRunning)"
  using assms
  by (simp add: buildStatus_def Let_def desiredAgents_def wrap32_id
      countReady_0 agentPods_def [symmetric] phaseOr_def derivePhase_def)

theorem status_counts_witness:
  "stPhase (buildStatus (demoEnv [] [] [] 0) demoSet
      (\<lambda>i. demoPod ''s-0'' ''main'' ''0'' ''n1'' [(''ready'', ''true'')])
      \<lparr>clsMain = Some 0, clsSub = [(1, 1)], clsToolbox = [], clsAllByName = []\<rparr> CSNone) = CSRunning"
  using status_counts [of demoSet "\<lparr>clsMain = Some 0, clsSub = [(1, 1)], clsToolbox = [], clsAllByName = []\<rparr>"
      "demoEnv [] [] [] 0" "\<lambda>i. demoPod ''s-0'' ''main'' ''0'' ''n1'' [(''ready'', ''true'')]"]
  by (simp add: Let_def fixture_defs agentPods_def readyAmong_def sortedVals_def sortedKeys_def map_filter_simps
      strAt_def)



section \<open>Writing the status\<close>

text \<open>Merging with one clock reading per condition.\<close>

fun mergeAt :: "kubePkg \<Rightarrow> int list \<Rightarrow> condition list \<Rightarrow> condition list \<Rightarrow> condition list" where
  "mergeAt K (t # ts) (c # cs) merged = mergeAt K ts cs (SetStatusCondition K t merged c)"
| "mergeAt K _ _ merged = merged"

lemma wp_mergeConditions:
  "wp (mergeConditions r cs merged) (\<lambda>out t. \<exists>ts. length ts = length cs \<and>
     t = s\<lparr>hist := map EvNow (rev ts) @ hist s\<rparr> \<and> out = mergeAt (kube r) ts cs merged) s"
proof (induction cs arbitrary: merged s)
  case Nil
  then show ?case by (simp add: wp_simps)
next
  case (Cons c cs)
  let ?t = "clock r (hist s)"
  have "wp (mergeConditions r cs (SetStatusCondition (kube r) ?t merged c)) (\<lambda>out t. \<exists>ts.
      length ts = length (c # cs) \<and> t = s\<lparr>hist := map EvNow (rev ts) @ hist s\<rparr> \<and>
      out = mergeAt (kube r) ts (c # cs) merged) (s\<lparr>hist := EvNow ?t # hist s\<rparr>)"
  proof (rule wp_mono [OF Cons.IH], elim exE conjE)
    fix out t ts
    assume "length ts = length cs" "out = mergeAt (kube r) ts cs (SetStatusCondition (kube r) ?t merged c)"
      "t = s\<lparr>hist := EvNow ?t # hist s\<rparr>\<lparr>hist := map EvNow (rev ts) @ hist (s\<lparr>hist := EvNow ?t # hist s\<rparr>)\<rparr>"
    then show "\<exists>ts. length ts = length (c # cs) \<and> t = s\<lparr>hist := map EvNow (rev ts) @ hist s\<rparr> \<and>
        out = mergeAt (kube r) ts (c # cs) merged"
      by (intro exI [of _ "?t # ts"]) simp
  qed
  then show ?case by (simp add: wp_bind now_def wp_ask)
qed

text \<open>
  A status equal to the stored one is never written. A status update reads the clock once per
  condition and sends at most one patch, of the status with the merged conditions; it sends none,
  and leaves the set as it is, exactly when the merged status is semantically equal to the stored
  one.
\<close>

theorem patch_status_skips_noop:
  "\<exists>ts next. length ts = length (stConditions status) \<and>
     next = status\<lparr>stConditions :=
       mergeAt (kube r) ts (stConditions status) (stConditions (csStatus (theSet s)))\<rparr> \<and>
     (if DeepEqualStatus (kube r) (csStatus (theSet s)) next
      then run_state (patchStatus r status) s = (None, s\<lparr>hist := map EvNow (rev ts) @ hist s\<rparr>)
      else \<exists>e. hist (final (patchStatus r status) s) =
        EvPatchSetStatus (theSet s) ((theSet s)\<lparr>csStatus := next\<rparr>) e # map EvNow (rev ts) @ hist s)"
proof -
  obtain ts where ts: "length ts = length (stConditions status)"
    "run_state (mergeConditions r (stConditions status) (stConditions (csStatus (theSet s)))) s =
      (mergeAt (kube r) ts (stConditions status) (stConditions (csStatus (theSet s))),
       s\<lparr>hist := map EvNow (rev ts) @ hist s\<rparr>)"
    using wp_mergeConditions [of r "stConditions status" "stConditions (csStatus (theSet s))" s]
    by (auto simp: wp_def split: prod.splits)
  then show ?thesis
    by (intro exI [of _ ts] exI conjI)
      (auto simp: patchStatus_def theCS_def putCS_def Let_def patchSetStatus_def ask_def emit_def
        State_Monad.update_def final_def split: prod.split)
qed

end
