(* ===== verification/GoTime.thy ===== *)
theory GoTime
  imports GoStd
begin

text \<open>
  \<open>time.Time\<close> as nanoseconds since the Unix epoch, and the two layouts the operator stores:
  \<open>time.RFC3339\<close> (the \<open>suspending-since\<close> annotation) and RFC 3339 with nanoseconds, the text
  \<open>encoding/json\<close> gives a time (the rebuild history). Dates are proleptic Gregorian, in UTC;
  the round trip holds for every instant of the years 1 to 9999.
\<close>


section \<open>Civil dates\<close>

definition leapYear :: "int \<Rightarrow> bool" where
  "leapYear y \<longleftrightarrow> y mod 4 = 0 \<and> (y mod 100 \<noteq> 0 \<or> y mod 400 = 0)"

text \<open>Days from 1 January of year 1 to 1 January of \<open>y\<close>.\<close>

definition daysBeforeYear :: "int \<Rightarrow> int" where
  "daysBeforeYear y = 365 * (y - 1) + (y - 1) div 4 - (y - 1) div 100 + (y - 1) div 400"

definition monthLengths :: "bool \<Rightarrow> int list" where
  "monthLengths leap = [31, if leap then 29 else 28, 31, 30, 31, 30, 31, 31, 30, 31, 30, 31]"

text \<open>Split a day of the year into month (from 1) and day of the month (from 1).\<close>

fun splitMonth :: "int list \<Rightarrow> int \<Rightarrow> int \<Rightarrow> int \<times> int" where
  "splitMonth [] m d = (m, d + 1)"
| "splitMonth [l] m d = (m, d + 1)"
| "splitMonth (l # k # ls) m d = (if d < l then (m, d + 1) else splitMonth (k # ls) (m + 1) (d - l))"

text \<open>Year and day of the year (from 0) of a day counted from 1 January of year 1.\<close>

definition yearOfDay :: "int \<Rightarrow> int \<times> int" where
  "yearOfDay n =
     (let a = n div 146097; d1 = n mod 146097;
          b = min (d1 div 36524) 3; d2 = d1 - 36524 * b;
          c = d2 div 1461; d3 = d2 mod 1461;
          e = min (d3 div 365) 3
      in (400 * a + 100 * b + 4 * c + e + 1, d3 - 365 * e))"

definition daysOfDate :: "int \<Rightarrow> int \<Rightarrow> int \<Rightarrow> int" where
  "daysOfDate y m d =
     daysBeforeYear y + sum_list (take (nat (m - 1)) (monthLengths (leapYear y))) + (d - 1)"

definition dateOfDays :: "int \<Rightarrow> int \<times> int \<times> int" where
  "dateOfDays n =
     (let (y, yd) = yearOfDay n; (m, d) = splitMonth (monthLengths (leapYear y)) 1 yd in (y, m, d))"

definition unixEpochDay :: int where
  "unixEpochDay = 719162"


section \<open>RFC 3339 text\<close>

definition pad :: "nat \<Rightarrow> int \<Rightarrow> string" where
  "pad w n = (let t = formatNat (nat n) in replicate (w - length t) (CHR ''0'') @ t)"

definition formatSeconds :: "int \<Rightarrow> string" where
  "formatSeconds sec =
     (let (y, m, d) = dateOfDays (sec div 86400 + unixEpochDay); t = sec mod 86400
      in pad 4 y @ ''-'' @ pad 2 m @ ''-'' @ pad 2 d @ ''T'' @ pad 2 (t div 3600) @ '':'' @
         pad 2 (t div 60 mod 60) @ '':'' @ pad 2 (t mod 60))"

text \<open>\<open>t.UTC().Format(time.RFC3339)\<close>.\<close>

definition formatRFC3339 :: "int \<Rightarrow> string" where
  "formatRFC3339 t = formatSeconds (t div 1000000000) @ ''Z''"

text \<open>The nanosecond layout drops trailing zeros of the fraction.\<close>

definition trimZeros :: "string \<Rightarrow> string" where
  "trimZeros s = rev (dropWhile (\<lambda>c. c = CHR ''0'') (rev s))"

definition formatRFC3339Nano :: "int \<Rightarrow> string" where
  "formatRFC3339Nano t =
     formatSeconds (t div 1000000000) @
     (if t mod 1000000000 = 0 then [] else ''.'' @ trimZeros (pad 9 (t mod 1000000000))) @ ''Z''"

text \<open>A fixed-width field of digits, and a literal byte.\<close>

definition takeNum :: "nat \<Rightarrow> string \<Rightarrow> (int \<times> string) option" where
  "takeNum w s =
     (if length s < w then None
      else map_option (\<lambda>n. (int n, drop w s)) (parseNat (take w s)))"

fun takeChar :: "char \<Rightarrow> string \<Rightarrow> string option" where
  "takeChar c [] = None"
| "takeChar c (x # xs) = (if x = c then Some xs else None)"

definition isDigit :: "char \<Rightarrow> bool" where
  "isDigit c \<longleftrightarrow> digitVal c \<noteq> None"

text \<open>An optional fraction: at least one digit, nine count.\<close>

definition takeFraction :: "string \<Rightarrow> (int \<times> string) option" where
  "takeFraction s =
     (case s of
        c # cs \<Rightarrow>
          if c = CHR ''.'' \<or> c = CHR '','' then
            (let ds = takeWhile isDigit cs
             in if ds = [] then None
                else map_option (\<lambda>n. (int n, dropWhile isDigit cs))
                       (parseNat (take 9 (ds @ replicate 9 (CHR ''0'')))))
          else Some (0, s)
      | [] \<Rightarrow> Some (0, s))"

text \<open>The zone: \<open>Z\<close>, or an offset \<open>+hh:mm\<close> or \<open>-hh:mm\<close>, in seconds east of UTC.\<close>

definition takeZone :: "string \<Rightarrow> (int \<times> string) option" where
  "takeZone s =
     (case s of
        [] \<Rightarrow> None
      | c # cs \<Rightarrow>
          if c = CHR ''Z'' then Some (0, cs)
          else if c = CHR ''+'' \<or> c = CHR ''-'' then
            do { (h, s1) \<leftarrow> takeNum 2 cs; s2 \<leftarrow> takeChar (CHR '':'') s1; (m, s3) \<leftarrow> takeNum 2 s2;
                 if h \<le> 23 \<and> m \<le> 59
                 then Some ((if c = CHR ''-'' then -1 else 1) * (h * 3600 + m * 60), s3)
                 else None }
          else None)"

text \<open>\<open>time.Parse(time.RFC3339, s)\<close>: \<open>None\<close> is a parse error.\<close>

definition parseRFC3339 :: "string \<Rightarrow> int option" where
  "parseRFC3339 s =
     do { (y, s1) \<leftarrow> takeNum 4 s; s2 \<leftarrow> takeChar (CHR ''-'') s1;
          (mo, s3) \<leftarrow> takeNum 2 s2; s4 \<leftarrow> takeChar (CHR ''-'') s3;
          (d, s5) \<leftarrow> takeNum 2 s4; s6 \<leftarrow> takeChar (CHR ''T'') s5;
          (h, s7) \<leftarrow> takeNum 2 s6; s8 \<leftarrow> takeChar (CHR '':'') s7;
          (mi, s9) \<leftarrow> takeNum 2 s8; s10 \<leftarrow> takeChar (CHR '':'') s9;
          (sec, s11) \<leftarrow> takeNum 2 s10;
          (frac, s12) \<leftarrow> takeFraction s11;
          (off, s13) \<leftarrow> takeZone s12;
          if s13 = [] \<and> 1 \<le> mo \<and> mo \<le> 12 \<and> 1 \<le> d \<and>
             d \<le> monthLengths (leapYear y) ! nat (mo - 1) \<and> h \<le> 23 \<and> mi \<le> 59 \<and> sec \<le> 59
          then Some (((daysOfDate y mo d - unixEpochDay) * 86400 + h * 3600 + mi * 60 + sec - off)
                       * 1000000000 + frac)
          else None }"



section \<open>Dates round-trip\<close>

lemma div_cycle:
  fixes a b c e :: int
  assumes "0 \<le> b" "b \<le> 3" "0 \<le> c" "c \<le> 24" "0 \<le> e" "e \<le> 3"
  defines "z \<equiv> 400 * a + 100 * b + 4 * c + e"
  shows "z div 4 = 100 * a + 25 * b + c" "z div 100 = 4 * a + b" "z div 400 = a"
  using assms(1-6) unfolding z_def
  by (auto intro: int_div_pos_eq [where r = e] int_div_pos_eq [where r = "4 * c + e"]
      int_div_pos_eq [where r = "100 * b + 4 * c + e"])

lemma daysBeforeYear_cycle:
  fixes a b c e :: int
  assumes "0 \<le> b" "b \<le> 3" "0 \<le> c" "c \<le> 24" "0 \<le> e" "e \<le> 3"
  shows "daysBeforeYear (400 * a + 100 * b + 4 * c + e + 1) =
           146097 * a + 36524 * b + 1461 * c + 365 * e"
  using div_cycle [OF assms, of a] by (simp add: daysBeforeYear_def)

lemma leapYear_cycle:
  fixes a b c :: int
  assumes "0 \<le> b" "b \<le> 3" "0 \<le> c" "c \<le> 24" "c = 24 \<Longrightarrow> b = 3"
  shows "leapYear (400 * a + 100 * b + 4 * c + 3 + 1)"
proof -
  let ?y = "400 * a + 100 * b + 4 * c + 3 + 1"
  have four: "?y mod 4 = 0"
    by (rule int_mod_pos_eq [where q = "100 * a + 25 * b + c + 1"]) auto
  show ?thesis
  proof (cases "c = 24")
    case True
    with assms(5) have "?y mod 400 = 0"
      by (intro int_mod_pos_eq [where q = "a + 1"]) auto
    with four show ?thesis by (simp add: leapYear_def)
  next
    case False
    with assms have "?y mod 100 = 4 * c + 4"
      by (intro int_mod_pos_eq [where q = "4 * a + b"]) auto
    with four assms(3) show ?thesis by (simp add: leapYear_def)
  qed
qed

lemma yearOfDay_sound:
  assumes "yearOfDay n = (y, yd)"
  shows "daysBeforeYear y + yd = n \<and> 0 \<le> yd \<and> yd < sum_list (monthLengths (leapYear y))"
proof -
  define a d1 where "a = n div 146097" and "d1 = n mod 146097"
  define b d2 where "b = min (d1 div 36524) 3" and "d2 = d1 - 36524 * min (d1 div 36524) 3"
  define c d3 where "c = d2 div 1461" and "d3 = d2 mod 1461"
  define e where "e = min (d3 div 365) 3"
  have y: "y = 400 * a + 100 * b + 4 * c + e + 1" and yd: "yd = d3 - 365 * e"
    using assms
    by (auto simp only: yearOfDay_def Let_def prod.inject a_def b_def c_def d1_def d2_def d3_def e_def)
  have n: "n = 146097 * a + d1" "0 \<le> d1" "d1 < 146097"
    by (simp_all add: a_def d1_def)
  have b: "0 \<le> b" "b \<le> 3" "0 \<le> d2" "d2 \<le> 36524" "d2 = 36524 \<Longrightarrow> b = 3"
    using n(2,3) unfolding b_def d2_def by linarith+
  have c: "d2 = 1461 * c + d3" "0 \<le> d3" "d3 < 1461"
    by (simp_all add: c_def d3_def)
  with b(3,4) have c_range: "0 \<le> c" "c \<le> 24" by linarith+
  note c = c c_range
  have e: "0 \<le> e" "e \<le> 3" "0 \<le> yd" "yd \<le> 365" "yd = 365 \<Longrightarrow> e = 3 \<and> d3 = 1460"
    using c(2,3) unfolding e_def yd by linarith+
  have "daysBeforeYear y + yd = n"
    using daysBeforeYear_cycle [OF b(1,2) c(4,5) e(1,2), of a] n(1) c(1) by (simp add: y yd d2_def b_def)
  moreover have "yd < sum_list (monthLengths (leapYear y))"
  proof (cases "yd = 365")
    case True
    with e(5) have "e = 3" "d3 = 1460" by auto
    with b(5) c(1) leapYear_cycle [OF b(1,2) c(4,5), of a] have "leapYear y"
      by (simp add: y)
    with True show ?thesis by (simp add: monthLengths_def)
  next
    case False
    with e(4) show ?thesis by (simp add: monthLengths_def)
  qed
  ultimately show ?thesis using e(3) by simp
qed

lemma splitMonth_sound:
  assumes "splitMonth (monthLengths leap) 1 yd = (m, d)" and "0 \<le> yd"
    and "yd < sum_list (monthLengths leap)"
  shows "1 \<le> m \<and> m \<le> 12 \<and> 1 \<le> d \<and> d \<le> monthLengths leap ! nat (m - 1) \<and>
         sum_list (take (nat (m - 1)) (monthLengths leap)) + (d - 1) = yd"
  using assms by (cases leap) (auto simp: monthLengths_def split: if_splits)

lemma dateOfDays_sound:
  assumes "dateOfDays n = (y, m, d)"
  shows "1 \<le> m \<and> m \<le> 12 \<and> 1 \<le> d \<and> d \<le> monthLengths (leapYear y) ! nat (m - 1) \<and>
         daysOfDate y m d = n"
proof -
  obtain yd where yd: "yearOfDay n = (y, yd)" "splitMonth (monthLengths (leapYear y)) 1 yd = (m, d)"
    using assms by (auto simp: dateOfDays_def split: prod.splits)
  from yearOfDay_sound [OF yd(1)] splitMonth_sound [OF yd(2)] show ?thesis
    by (auto simp: daysOfDate_def)
qed

lemma monthLengths_le: "1 \<le> m \<Longrightarrow> m \<le> 12 \<Longrightarrow> monthLengths leap ! nat (m - 1) \<le> 31"
proof -
  assume "1 \<le> m" "m \<le> 12"
  then have "nat (m - 1) < 12" by simp
  then have "monthLengths leap ! nat (m - 1) \<in> set (monthLengths leap)"
    by (intro nth_mem) (simp add: monthLengths_def)
  then show ?thesis by (auto simp: monthLengths_def)
qed


section \<open>Text round-trips\<close>

lemma length_formatNat: "0 < w \<Longrightarrow> n < 10 ^ w \<Longrightarrow> length (formatNat n) \<le> w"
proof (induction n arbitrary: w rule: formatNat.induct)
  case (1 n)
  show ?case
  proof (cases "n < 10")
    case True
    with "1.prems" show ?thesis by (simp add: formatNat.simps [of n])
  next
    case False
    with "1.prems" obtain v where w: "w = Suc v" "0 < v"
      by (cases w; cases "w - 1") auto
    with "1.prems" have "n div 10 < 10 ^ v" by (auto simp: less_mult_imp_div_less mult.commute)
    with "1.IH" False w show ?thesis by (simp add: formatNat.simps [of n])
  qed
qed

lemma parseDigits_zeros: "parseDigits 0 (replicate k (CHR ''0'') @ s) = parseDigits 0 s"
  by (induction k) (simp_all add: digitVal_def)

lemma pad_props:
  assumes "0 < w" and "0 \<le> n" and "n < 10 ^ w"
  shows "length (pad w n) = w" and "parseNat (pad w n) = Some (nat n)"
    and "\<forall>c\<in>set (pad w n). isDigit c"
proof -
  have "length (formatNat (nat n)) \<le> w"
    using assms by (intro length_formatNat) (simp_all add: nat_less_iff)
  then show "length (pad w n) = w" by (simp add: pad_def Let_def)
  show "parseNat (pad w n) = Some (nat n)"
    by (simp add: pad_def Let_def parseNat_def parseDigits_zeros parseDigits_formatNat)
  show "\<forall>c\<in>set (pad w n). isDigit c"
    by (auto simp: pad_def Let_def isDigit_def dest!: formatNat_digits) (simp add: digitVal_def)
qed

lemma takeNum_pad:
  assumes "0 < w" and "0 \<le> n" and "n < 10 ^ w"
  shows "takeNum w (pad w n @ s) = Some (n, s)"
  using pad_props [OF assms] assms(2) by (simp add: takeNum_def)


lemma takeWhile_digits:
  "\<forall>c\<in>set xs. isDigit c \<Longrightarrow> \<not> isDigit x \<Longrightarrow> takeWhile isDigit (xs @ x # ys) = xs"
  "\<forall>c\<in>set xs. isDigit c \<Longrightarrow> \<not> isDigit x \<Longrightarrow> dropWhile isDigit (xs @ x # ys) = x # ys"
  by (induction xs) auto

lemma trimZeros_fill: "trimZeros s @ replicate (length s - length (trimZeros s)) (CHR ''0'') = s"
proof -
  define t where "t = rev s"
  have "rev (dropWhile (\<lambda>c. c = CHR ''0'') t) @
          replicate (length t - length (dropWhile (\<lambda>c. c = CHR ''0'') t)) (CHR ''0'') = rev t"
    by (induction t) (auto simp: replicate_append_same simp flip: replicate_Suc,
        metis Suc_diff_le append_assoc length_dropWhile_le replicate_Suc replicate_append_same)
  then show ?thesis by (simp add: trimZeros_def t_def)
qed

lemma trimZeros_set: "set (trimZeros s) \<subseteq> set s"
  by (auto simp: trimZeros_def dest: set_dropWhileD)

lemma takeFraction_none: "takeFraction (CHR ''Z'' # s) = Some (0, CHR ''Z'' # s)"
  by (simp add: takeFraction_def)

lemma takeFraction_nanos:
  assumes "0 < f" and "f < 1000000000"
  shows "takeFraction (CHR ''.'' # trimZeros (pad 9 f) @ ''Z'') = Some (f, ''Z'')"
proof -
  have p: "length (pad 9 f) = 9" "parseNat (pad 9 f) = Some (nat f)" "\<forall>c\<in>set (pad 9 f). isDigit c"
    using pad_props [of 9 f] assms by simp_all
  let ?t = "trimZeros (pad 9 f)"
  have digits: "\<forall>c\<in>set ?t. isDigit c" and nz: "\<not> isDigit (CHR ''Z'')"
    using p(3) trimZeros_set by (auto simp: isDigit_def digitVal_def)
  have len: "length ?t \<le> 9"
    using trimZeros_fill [of "pad 9 f"] p(1) by (metis le_add1 length_append)
  have "take 9 (?t @ replicate 9 (CHR ''0'')) = pad 9 f"
    using trimZeros_fill [of "pad 9 f"] p(1) len by simp
  moreover have "?t \<noteq> []"
  proof
    assume "?t = []"
    with trimZeros_fill [of "pad 9 f"] p(1) have "pad 9 f = replicate 9 (CHR ''0'')" by simp
    with p(2) parseDigits_zeros [of 9 "[]"] assms(1) show False by (simp add: parseNat_def)
  qed
  ultimately show ?thesis
    using takeWhile_digits [OF digits nz, of "[]"] p(2) assms(1) by (simp add: takeFraction_def)
qed

lemma takeZone_Z [simp]: "takeZone ''Z'' = Some (0, [])"
  by (simp add: takeZone_def)

text \<open>The instants whose civil year has four digits.\<close>

definition fourDigitYear :: "int \<Rightarrow> bool" where
  "fourDigitYear t \<longleftrightarrow>
     (let y = fst (dateOfDays (t div 1000000000 div 86400 + unixEpochDay)) in 0 \<le> y \<and> y \<le> 9999)"

lemma parse_fields:
  assumes "0 \<le> y" "y < 10 ^ 4" "1 \<le> m" "m \<le> 12" "1 \<le> d"
    and dm: "d \<le> monthLengths (leapYear y) ! nat (m - 1)"
    and "0 \<le> h" "h \<le> 23" "0 \<le> mi" "mi \<le> 59" "0 \<le> sc" "sc \<le> 59"
    and rest: "takeFraction rest = Some (f, z)" "takeZone z = Some (0, [])"
  shows "parseRFC3339 (pad 4 y @ ''-'' @ pad 2 m @ ''-'' @ pad 2 d @ ''T'' @ pad 2 h @ '':'' @
             pad 2 mi @ '':'' @ pad 2 sc @ rest) =
           Some (((daysOfDate y m d - unixEpochDay) * 86400 + h * 3600 + mi * 60 + sc)
                   * 1000000000 + f)"
proof -
  have "d \<le> 31" using monthLengths_le [of m "leapYear y"] assms by linarith
  then have fields: "takeNum 4 (pad 4 y @ s) = Some (y, s)" "takeNum 2 (pad 2 m @ s) = Some (m, s)"
    "takeNum 2 (pad 2 d @ s) = Some (d, s)" "takeNum 2 (pad 2 h @ s) = Some (h, s)"
    "takeNum 2 (pad 2 mi @ s) = Some (mi, s)" "takeNum 2 (pad 2 sc @ s) = Some (sc, s)" for s
    using assms by (simp_all add: takeNum_pad)
  show ?thesis
    using assms by (simp add: parseRFC3339_def fields)
qed

lemma parse_formatSeconds:
  assumes "fourDigitYear t" and "takeFraction rest = Some (f, z)" and "takeZone z = Some (0, [])"
  shows "parseRFC3339 (formatSeconds (t div 1000000000) @ rest) =
           Some (t div 1000000000 * 1000000000 + f)"
proof -
  define sec where "sec = t div 1000000000"
  define tod where "tod = sec mod 86400"
  obtain y m d where ymd: "dateOfDays (sec div 86400 + unixEpochDay) = (y, m, d)"
    by (cases "dateOfDays (sec div 86400 + unixEpochDay)") auto
  have y: "0 \<le> y" "y < 10 ^ 4"
    using assms(1) ymd by (simp_all add: fourDigitYear_def sec_def Let_def)
  note date = dateOfDays_sound [OF ymd]
  have tod: "0 \<le> tod" "tod < 86400" by (simp_all add: tod_def)
  have h: "0 \<le> tod div 3600" "tod div 3600 \<le> 23" using tod by linarith+
  have mi: "0 \<le> tod div 60 mod 60" "tod div 60 mod 60 \<le> 59" "0 \<le> tod mod 60" "tod mod 60 \<le> 59"
    using pos_mod_bound [of 60 tod] pos_mod_bound [of 60 "tod div 60"] by (simp_all del: pos_mod_bound)
  have split: "tod div 3600 * 3600 + tod div 60 mod 60 * 60 + tod mod 60 = tod"
  proof -
    have "tod div 60 div 60 = tod div 3600" by (simp flip: zdiv_zmult2_eq)
    then show ?thesis
      using div_mult_mod_eq [of tod 60] div_mult_mod_eq [of "tod div 60" 60] by linarith
  qed
  have days: "(daysOfDate y m d - unixEpochDay) * 86400 + tod = sec"
    using date by (simp add: tod_def)
  have layout: "formatSeconds sec @ rest =
          pad 4 y @ ''-'' @ pad 2 m @ ''-'' @ pad 2 d @ ''T'' @ pad 2 (tod div 3600) @ '':'' @
          pad 2 (tod div 60 mod 60) @ '':'' @ pad 2 (tod mod 60) @ rest"
    by (simp add: formatSeconds_def ymd Let_def tod_def)
  have parsed: "parseRFC3339 (formatSeconds sec @ rest) =
        Some (((daysOfDate y m d - unixEpochDay) * 86400 + tod div 3600 * 3600 +
               tod div 60 mod 60 * 60 + tod mod 60) * 1000000000 + f)"
    unfolding layout using date assms(2,3) by (intro parse_fields y h mi) simp_all
  have "(daysOfDate y m d - unixEpochDay) * 86400 + tod div 3600 * 3600 +
          tod div 60 mod 60 * 60 + tod mod 60 = sec"
    using split days by linarith
  with parsed show ?thesis by (simp only: sec_def)
qed

lemma parse_formatRFC3339:
  "fourDigitYear t \<Longrightarrow> parseRFC3339 (formatRFC3339 t) = Some (t div 1000000000 * 1000000000)"
  using parse_formatSeconds [of t "''Z''" 0 "''Z''"]
  by (simp add: formatRFC3339_def takeFraction_none)

lemma parse_formatRFC3339Nano:
  assumes "fourDigitYear t"
  shows "parseRFC3339 (formatRFC3339Nano t) = Some t"
proof (cases "t mod 1000000000 = 0")
  case True
  then have "t div 1000000000 * 1000000000 = t"
    using div_mult_mod_eq [of t 1000000000] by linarith
  with True parse_formatSeconds [OF assms, of "''Z''" 0 "''Z''"] show ?thesis
    by (simp add: formatRFC3339Nano_def takeFraction_none)
next
  case False
  have "0 < t mod 1000000000" "t mod 1000000000 < 1000000000"
    using False pos_mod_sign [of 1000000000 t] by (simp_all del: pos_mod_sign)
  then have "takeFraction (CHR ''.'' # trimZeros (pad 9 (t mod 1000000000)) @ ''Z'') =
               Some (t mod 1000000000, ''Z'')"
    by (rule takeFraction_nanos)
  with parse_formatSeconds [OF assms] False show ?thesis
    by (simp add: formatRFC3339Nano_def)
qed

end
