(* ===== verification/Json.thy ===== *)
theory Json
  imports GoTime
begin

text \<open>
  \<open>encoding/json/v2\<close> as far as the operator uses it: compact output without HTML escaping,
  and a strict reader (no duplicate member names, no invalid UTF-8, nothing after the value).
  The two structs the operator keeps in annotations are encoded through this tree type in
  the theories that declare them; \<open>parseJson_printJson\<close> is the round trip they rest on.
\<close>

datatype json =
    JNull
  | JBool bool
  | JNum string                       \<comment> \<open>a number by its literal\<close>
  | JStr string
  | JArr "json list"
  | JObj "(string \<times> json) list"


section \<open>Output\<close>

definition hexDigit :: "nat \<Rightarrow> char" where
  "hexDigit d = (if d < 10 then char_of (48 + d) else char_of (87 + d))"

definition escapeChar :: "char \<Rightarrow> string" where
  "escapeChar c =
     (let n = of_char c :: nat in
      if n = 0x22 then [CHR 0x5C, CHR 0x22]
      else if n = 0x5C then [CHR 0x5C, CHR 0x5C]
      else if n = 0x08 then [CHR 0x5C, CHR ''b'']
      else if n = 0x0C then [CHR 0x5C, CHR ''f'']
      else if n = 0x0A then [CHR 0x5C, CHR ''n'']
      else if n = 0x0D then [CHR 0x5C, CHR ''r'']
      else if n = 0x09 then [CHR 0x5C, CHR ''t'']
      else if n < 0x20 then [CHR 0x5C, CHR ''u'', CHR ''0'', CHR ''0'', hexDigit (n div 16), hexDigit (n mod 16)]
      else [c])"

definition printStr :: "string \<Rightarrow> string" where
  "printStr s = [CHR 0x22] @ concat (map escapeChar s) @ [CHR 0x22]"

fun printJson :: "json \<Rightarrow> string" where
  "printJson JNull = ''null''"
| "printJson (JBool b) = (if b then ''true'' else ''false'')"
| "printJson (JNum l) = l"
| "printJson (JStr s) = printStr s"
| "printJson (JArr vs) = ''['' @ join '','' (map printJson vs) @ '']''"
| "printJson (JObj ms) =
     ''{'' @ join '','' (map (\<lambda>m. printStr (fst m) @ '':'' @ printJson (snd m)) ms) @ ''}''"


section \<open>UTF-8\<close>

definition cont :: "char \<Rightarrow> bool" where
  "cont c \<longleftrightarrow> (let n = of_char c :: nat in 0x80 \<le> n \<and> n < 0xC0)"

text \<open>\<open>utf8.Valid\<close>: shortest forms only, no surrogates, nothing above U+10FFFF.\<close>

fun utf8Valid :: "string \<Rightarrow> bool" where
  "utf8Valid [] = True"
| "utf8Valid (c # cs) =
     (let n = of_char c :: nat in
      if n < 0x80 then utf8Valid cs
      else case cs of
        [] \<Rightarrow> False
      | d # ds \<Rightarrow>
          (let m = of_char d :: nat in
           if 0xC2 \<le> n \<and> n < 0xE0 then cont d \<and> utf8Valid ds
           else case ds of
             [] \<Rightarrow> False
           | e # es \<Rightarrow>
               if 0xE0 \<le> n \<and> n < 0xF0 then
                 cont d \<and> cont e \<and> (n = 0xE0 \<longrightarrow> 0xA0 \<le> m) \<and> (n = 0xED \<longrightarrow> m < 0xA0) \<and> utf8Valid es
               else case es of
                 [] \<Rightarrow> False
               | f # fs \<Rightarrow>
                   0xF0 \<le> n \<and> n < 0xF5 \<and> cont d \<and> cont e \<and> cont f \<and>
                   (n = 0xF0 \<longrightarrow> 0x90 \<le> m) \<and> (n = 0xF4 \<longrightarrow> m < 0x90) \<and> utf8Valid fs))"

definition utf8Encode :: "nat \<Rightarrow> string" where
  "utf8Encode cp =
     (if cp < 0x80 then [char_of cp]
      else if cp < 0x800 then [char_of (0xC0 + cp div 64), char_of (0x80 + cp mod 64)]
      else if cp < 0x10000 then
        [char_of (0xE0 + cp div 4096), char_of (0x80 + cp div 64 mod 64), char_of (0x80 + cp mod 64)]
      else
        [char_of (0xF0 + cp div 262144), char_of (0x80 + cp div 4096 mod 64),
         char_of (0x80 + cp div 64 mod 64), char_of (0x80 + cp mod 64)])"


section \<open>Input\<close>

definition isWs :: "char \<Rightarrow> bool" where
  "isWs c \<longleftrightarrow> c = CHR '' '' \<or> c = CHR 0x09 \<or> c = CHR 0x0A \<or> c = CHR 0x0D"

definition skipWs :: "string \<Rightarrow> string" where
  "skipWs = dropWhile isWs"

definition hexVal :: "char \<Rightarrow> nat option" where
  "hexVal c =
     (let n = of_char c :: nat in
      if 48 \<le> n \<and> n \<le> 57 then Some (n - 48)
      else if 97 \<le> n \<and> n \<le> 102 then Some (n - 87)
      else if 65 \<le> n \<and> n \<le> 70 then Some (n - 55) else None)"

fun hex4 :: "string \<Rightarrow> (nat \<times> string) option" where
  "hex4 (a # b # c # d # rest) =
     (case (hexVal a, hexVal b, hexVal c, hexVal d) of
        (Some w, Some x, Some y, Some z) \<Rightarrow> Some (4096 * w + 256 * x + 16 * y + z, rest)
      | _ \<Rightarrow> None)"
| "hex4 _ = None"

text \<open>What a two-byte escape stands for.\<close>

definition simpleEscape :: "char \<Rightarrow> char option" where
  "simpleEscape c =
     (if c = CHR 0x22 \<or> c = CHR 0x5C \<or> c = CHR ''/'' then Some c
      else if c = CHR ''b'' then Some (CHR 0x08)
      else if c = CHR ''f'' then Some (CHR 0x0C)
      else if c = CHR ''n'' then Some (CHR 0x0A)
      else if c = CHR ''r'' then Some (CHR 0x0D)
      else if c = CHR ''t'' then Some (CHR 0x09)
      else None)"

text \<open>After \<open>\u\<close>: a code point, or a surrogate pair written as two escapes.\<close>

definition unicodeEscape :: "string \<Rightarrow> (string \<times> string) option" where
  "unicodeEscape s =
     (case hex4 s of
        None \<Rightarrow> None
      | Some (cp, rest) \<Rightarrow>
          if cp < 0xD800 \<or> 0xDFFF < cp then Some (utf8Encode cp, rest)
          else if 0xDBFF < cp then None
          else (case rest of
                  a # b # rest' \<Rightarrow>
                    if a = CHR 0x5C \<and> b = CHR ''u'' then
                      (case hex4 rest' of
                         Some (lo, rest'') \<Rightarrow>
                           if 0xDC00 \<le> lo \<and> lo \<le> 0xDFFF
                           then Some (utf8Encode (0x10000 + (cp - 0xD800) * 1024 + (lo - 0xDC00)), rest'')
                           else None
                       | None \<Rightarrow> None)
                    else None
                | _ \<Rightarrow> None))"

text \<open>The bytes of a string after its opening quote; the fuel is its length.\<close>

fun parseStr :: "nat \<Rightarrow> string \<Rightarrow> (string \<times> string) option" where
  "parseStr 0 s = None"
| "parseStr (Suc n) [] = None"
| "parseStr (Suc n) (c # cs) =
     (if c = CHR 0x22 then Some ([], cs)
      else if c = CHR 0x5C then
        (case cs of
           [] \<Rightarrow> None
         | e # ds \<Rightarrow>
             (case (if e = CHR ''u'' then unicodeEscape ds
                    else map_option (\<lambda>x. ([x], ds)) (simpleEscape e)) of
                None \<Rightarrow> None
              | Some (bs, rest) \<Rightarrow> map_option (\<lambda>(t, rest'). (bs @ t, rest')) (parseStr n rest)))
      else if (of_char c :: nat) < 0x20 then None
      else map_option (\<lambda>(t, rest). (c # t, rest)) (parseStr n cs))"

definition isNumChar :: "char \<Rightarrow> bool" where
  "isNumChar c \<longleftrightarrow> isDigit c \<or> c \<in> {CHR ''-'', CHR ''+'', CHR ''.'', CHR ''e'', CHR ''E''}"

text \<open>The number grammar of RFC 8259.\<close>

definition validNum :: "string \<Rightarrow> bool" where
  "validNum l =
     (let u = (case l of c # cs \<Rightarrow> if c = CHR ''-'' then cs else l | [] \<Rightarrow> l);
          ip = takeWhile isDigit u; r1 = dropWhile isDigit u;
          (fok, r2) = (case r1 of
              c # cs \<Rightarrow> if c = CHR ''.'' then (takeWhile isDigit cs \<noteq> [], dropWhile isDigit cs) else (True, r1)
            | [] \<Rightarrow> (True, r1));
          (eok, r3) = (case r2 of
              c # cs \<Rightarrow>
                if c = CHR ''e'' \<or> c = CHR ''E'' then
                  (let es = (case cs of d # ds \<Rightarrow> if d = CHR ''+'' \<or> d = CHR ''-'' then ds else cs | [] \<Rightarrow> cs)
                   in (takeWhile isDigit es \<noteq> [], dropWhile isDigit es))
                else (True, r2)
            | [] \<Rightarrow> (True, r2))
      in ip \<noteq> [] \<and> (hd ip = CHR ''0'' \<longrightarrow> length ip = 1) \<and> fok \<and> eok \<and> r3 = [])"

fun expect :: "string \<Rightarrow> 'a \<Rightarrow> string \<Rightarrow> ('a \<times> string) option" where
  "expect w v s = (if prefix w s then Some (v, drop (length w) s) else None)"

text \<open>
  Values, array elements after the first bracket and object members after the first brace. Each
  call spends one unit of fuel; a value shorter than the fuel never runs out.
\<close>

fun parseValue :: "nat \<Rightarrow> string \<Rightarrow> (json \<times> string) option"
and parseElems :: "nat \<Rightarrow> string \<Rightarrow> (json list \<times> string) option"
and parseMembers :: "nat \<Rightarrow> string \<Rightarrow> ((string \<times> json) list \<times> string) option" where
  "parseValue 0 s = None"
| "parseValue (Suc n) s =
     (case skipWs s of
        [] \<Rightarrow> None
      | c # cs \<Rightarrow>
          if c = CHR 0x22 then map_option (\<lambda>(t, rest). (JStr t, rest)) (parseStr (Suc (length cs)) cs)
          else if c = CHR ''['' then
            (case skipWs cs of
               [] \<Rightarrow> None
             | d # ds \<Rightarrow> if d = CHR '']'' then Some (JArr [], ds)
                         else map_option (\<lambda>(vs, rest). (JArr vs, rest)) (parseElems n (d # ds)))
          else if c = CHR ''{'' then
            (case skipWs cs of
               [] \<Rightarrow> None
             | d # ds \<Rightarrow> if d = CHR ''}'' then Some (JObj [], ds)
                         else (case parseMembers n (d # ds) of
                                 None \<Rightarrow> None
                               | Some (ms, rest) \<Rightarrow>
                                   if distinct (map fst ms) then Some (JObj ms, rest) else None))
          else if c = CHR ''n'' then expect ''null'' JNull (c # cs)
          else if c = CHR ''t'' then expect ''true'' (JBool True) (c # cs)
          else if c = CHR ''f'' then expect ''false'' (JBool False) (c # cs)
          else (let l = takeWhile isNumChar (c # cs)
                in if validNum l then Some (JNum l, dropWhile isNumChar (c # cs)) else None))"
| "parseElems 0 s = None"
| "parseElems (Suc n) s =
     (case parseValue n s of
        None \<Rightarrow> None
      | Some (v, rest) \<Rightarrow>
          (case skipWs rest of
             [] \<Rightarrow> None
           | c # cs \<Rightarrow>
               if c = CHR '','' then map_option (\<lambda>(vs, rest'). (v # vs, rest')) (parseElems n cs)
               else if c = CHR '']'' then Some ([v], cs)
               else None))"
| "parseMembers 0 s = None"
| "parseMembers (Suc n) s =
     (case skipWs s of
        [] \<Rightarrow> None
      | q # qs \<Rightarrow>
          if q \<noteq> CHR 0x22 then None
          else (case parseStr (Suc (length qs)) qs of
                  None \<Rightarrow> None
                | Some (k, rest) \<Rightarrow>
                    (case skipWs rest of
                       [] \<Rightarrow> None
                     | c # cs \<Rightarrow>
                         if c \<noteq> CHR '':'' then None
                         else (case parseValue n cs of
                                 None \<Rightarrow> None
                               | Some (v, rest') \<Rightarrow>
                                   (case skipWs rest' of
                                      [] \<Rightarrow> None
                                    | e # es \<Rightarrow>
                                        if e = CHR '','' then
                                          map_option (\<lambda>(ms, rest''). ((k, v) # ms, rest'')) (parseMembers n es)
                                        else if e = CHR ''}'' then Some ([(k, v)], es)
                                        else None)))))"

text \<open>\<open>json.Unmarshal\<close> up to the tree: \<open>None\<close> is an error.\<close>

definition parseJson :: "string \<Rightarrow> json option" where
  "parseJson s =
     (if \<not> utf8Valid s then None
      else case parseValue (Suc (length s)) s of
             None \<Rightarrow> None
           | Some (v, rest) \<Rightarrow> if skipWs rest = [] then Some v else None)"

text \<open>\<open>json.Marshal\<close> refuses text that is not UTF-8: \<open>None\<close> is an error.\<close>

definition marshalJson :: "json \<Rightarrow> string option" where
  "marshalJson v = (let t = printJson v in if utf8Valid t then Some t else None)"


section \<open>Round trip\<close>

fun wfJson :: "json \<Rightarrow> bool" where
  "wfJson (JNum l) = (validNum l \<and> list_all isNumChar l)"
| "wfJson (JArr vs) = list_all wfJson vs"
| "wfJson (JObj ms) = (distinct (map fst ms) \<and> list_all (\<lambda>m. wfJson (snd m)) ms)"
| "wfJson _ = True"

lemma hexVal_hexDigit: "d < 16 \<Longrightarrow> hexVal (hexDigit d) = Some d"
  by (cases "d < 10") (auto simp: hexVal_def hexDigit_def)

lemma hexVal_0: "hexVal (CHR ''0'') = Some 0"
  by (simp add: hexVal_def)

lemma parseStr_escape:
  "parseStr (Suc n) (escapeChar c @ t) = map_option (\<lambda>(u, rest). (c # u, rest)) (parseStr n t)"
proof -
  define m where "m = (of_char c :: nat)"
  have c: "c = char_of m" by (simp add: m_def)
  consider "m \<in> {0x22, 0x5C, 0x08, 0x0C, 0x0A, 0x0D, 0x09}"
    | "m \<notin> {0x22, 0x5C, 0x08, 0x0C, 0x0A, 0x0D, 0x09}" "m < 0x20"
    | "m \<notin> {0x22, 0x5C, 0x08, 0x0C, 0x0A, 0x0D, 0x09}" "\<not> m < 0x20" by blast
  then show ?thesis
  proof cases
    case 1
    then have "c \<in> {CHR 0x22, CHR 0x5C, CHR 0x08, CHR 0x0C, CHR 0x0A, CHR 0x0D, CHR 0x09}"
      by (auto simp: c char_of_eq_iff take_bit_eq_mod)
    then show ?thesis
      by (elim insertE emptyE) (simp_all add: escapeChar_def simpleEscape_def)
  next
    case 2
    then have "m div 16 < 16" by simp
    then have hex: "hex4 (CHR ''0'' # CHR ''0'' # hexDigit (m div 16) # hexDigit (m mod 16) # t) = Some (m, t)"
      by (simp add: hexVal_hexDigit hexVal_0)
    have "escapeChar c = [CHR 0x5C, CHR ''u'', CHR ''0'', CHR ''0'', hexDigit (m div 16), hexDigit (m mod 16)]"
      using 2 by (simp add: escapeChar_def m_def [symmetric])
    moreover have "unicodeEscape (CHR ''0'' # CHR ''0'' # hexDigit (m div 16) # hexDigit (m mod 16) # t) =
        Some ([c], t)"
      unfolding unicodeEscape_def hex using 2 by (simp add: utf8Encode_def c)
    ultimately show ?thesis by (simp split: option.split)
  next
    case 3
    have "c \<noteq> CHR 0x22" "c \<noteq> CHR 0x5C" using 3 by (auto simp: m_def)
    with 3 show ?thesis by (simp add: escapeChar_def m_def [symmetric])
  qed
qed

lemma escapeChar_nonempty: "escapeChar c \<noteq> []"
  by (simp add: escapeChar_def Let_def)

lemma parseStr_print:
  "length (concat (map escapeChar s)) < n \<Longrightarrow>
     parseStr n (concat (map escapeChar s) @ CHR 0x22 # rest) = Some (s, rest)"
proof (induction s arbitrary: n)
  case Nil
  then show ?case by (cases n) auto
next
  case (Cons c s)
  from Cons.prems obtain k where n: "n = Suc k" by (cases n) auto
  have "Suc 0 \<le> length (escapeChar c)" using escapeChar_nonempty [of c] by (simp add: Suc_le_eq)
  with Cons.prems n have "length (concat (map escapeChar s)) < k"
    by (simp del: length_greater_0_conv)
  with Cons.IH n show ?case by (simp add: parseStr_escape)
qed

lemma parseStr_printStr:
  "printStr s = CHR 0x22 # concat (map escapeChar s) @ [CHR 0x22]"
  "parseStr (Suc (length (concat (map escapeChar s) @ CHR 0x22 # rest)))
     (concat (map escapeChar s) @ CHR 0x22 # rest) = Some (s, rest)"
  by (simp_all add: printStr_def parseStr_print)

definition plainStart :: "string \<Rightarrow> bool" where
  "plainStart s \<longleftrightarrow> (\<exists>c cs. s = c # cs \<and> \<not> isWs c \<and> c \<noteq> CHR '']'' \<and> c \<noteq> CHR ''}'')"

lemma isNumChar_cases:
  "isNumChar c \<Longrightarrow> \<not> isWs c \<and> c \<noteq> CHR '']'' \<and> c \<noteq> CHR ''}'' \<and> c \<noteq> CHR 0x22 \<and> c \<noteq> CHR ''['' \<and>
     c \<noteq> CHR ''{'' \<and> c \<noteq> CHR ''n'' \<and> c \<noteq> CHR ''t'' \<and> c \<noteq> CHR ''f''"
  by (auto simp: isNumChar_def isDigit_def digitVal_def isWs_def Let_def split: if_splits)

lemma validNum_start: "validNum l \<Longrightarrow> l \<noteq> []"
  by (auto simp: validNum_def)

lemma plainStart_print: "wfJson j \<Longrightarrow> plainStart (printJson j)"
proof (cases j)
  case (JNum l)
  assume "wfJson j"
  with JNum obtain c cs where "l = c # cs" "isNumChar c"
    using validNum_start by (cases l) auto
  with JNum show ?thesis using isNumChar_cases by (auto simp: plainStart_def)
qed (auto simp: plainStart_def printStr_def isWs_def)

lemma skipWs_plain: "plainStart s \<Longrightarrow> skipWs (s @ t) = s @ t"
  by (auto simp: plainStart_def skipWs_def)

lemma skipWs_Cons: "\<not> isWs c \<Longrightarrow> skipWs (c # s) = c # s"
  by (simp add: skipWs_def)

lemma isWs_simps [simp]:
  "\<not> isWs (CHR '','')" "\<not> isWs (CHR '']'')" "\<not> isWs (CHR ''}'')" "\<not> isWs (CHR '':'')"
  "\<not> isWs (CHR 0x22)" "\<not> isWs (CHR ''['')" "\<not> isWs (CHR ''{'')" "\<not> isWs (CHR ''n'')"
  "\<not> isWs (CHR ''t'')" "\<not> isWs (CHR ''f'')"
  by (simp_all add: isWs_def)

definition numStop :: "string \<Rightarrow> bool" where
  "numStop s \<longleftrightarrow> (case s of [] \<Rightarrow> True | c # _ \<Rightarrow> \<not> isNumChar c)"

lemma numStop_simps [simp]:
  "numStop []" "numStop (CHR '','' # s)" "numStop (CHR '']'' # s)" "numStop (CHR ''}'' # s)"
  by (simp_all add: numStop_def isNumChar_def isDigit_def digitVal_def)

lemma takeWhile_num:
  assumes "list_all isNumChar l" and "numStop rest"
  shows "takeWhile isNumChar (l @ rest) = l" and "dropWhile isNumChar (l @ rest) = rest"
proof -
  have "takeWhile isNumChar rest = []" "dropWhile isNumChar rest = rest"
    using assms(2) by (auto simp: numStop_def split: list.splits)
  with assms(1) show "takeWhile isNumChar (l @ rest) = l" "dropWhile isNumChar (l @ rest) = rest"
    by (simp_all add: list_all_iff)
qed

text \<open>What the induction proves of one tree: enough fuel reads back what was printed.\<close>

definition readsBack :: "json \<Rightarrow> bool" where
  "readsBack j \<longleftrightarrow>
     (\<forall>n rest. length (printJson j) < n \<longrightarrow> numStop rest \<longrightarrow>
        parseValue n (printJson j @ rest) = Some (j, rest))"

lemma readsBackD:
  "readsBack j \<Longrightarrow> length (printJson j) < n \<Longrightarrow> numStop rest \<Longrightarrow>
     parseValue n (printJson j @ rest) = Some (j, rest)"
  by (simp add: readsBack_def)

lemma parseElems_print:
  assumes "vs \<noteq> []" and "\<forall>v\<in>set vs. readsBack v"
    and "length (join '','' (map printJson vs)) + 1 < n"
  shows "parseElems n (join '','' (map printJson vs) @ CHR '']'' # rest) = Some (vs, rest)"
  using assms
proof (induction vs arbitrary: n)
  case Nil
  then show ?case by simp
next
  case (Cons v vs)
  from Cons.prems(3) obtain k where n: "n = Suc k" by (cases n) auto
  show ?case
  proof (cases vs)
    case Nil
    with Cons.prems n show ?thesis by (simp add: readsBackD skipWs_Cons)
  next
    case (Cons w ws)
    with Cons.prems n have "parseElems k (join '','' (map printJson vs) @ CHR '']'' # rest) = Some (vs, rest)"
      using Cons.IH [of k] by simp
    moreover have "parseValue k (printJson v @ CHR '','' # join '','' (map printJson vs) @ CHR '']'' # rest) =
        Some (v, CHR '','' # join '','' (map printJson vs) @ CHR '']'' # rest)"
      using Cons.prems n Cons by (intro readsBackD) simp_all
    ultimately show ?thesis using Cons n by (simp add: skipWs_Cons)
  qed
qed


abbreviation printMember :: "string \<times> json \<Rightarrow> string" where
  "printMember m \<equiv> printStr (fst m) @ '':'' @ printJson (snd m)"

lemma parseMembers_step:
  assumes "readsBack v" and "length (printMember (k, v)) < n" and "numStop (e # es)" and "\<not> isWs e"
  shows "parseMembers (Suc n) (printMember (k, v) @ e # es) =
     (if e = CHR '','' then map_option (\<lambda>(ms, rest). ((k, v) # ms, rest)) (parseMembers n es)
      else if e = CHR ''}'' then Some ([(k, v)], es) else None)"
proof -
  have "parseValue n (printJson v @ e # es) = Some (v, e # es)"
    using assms by (intro readsBackD) simp_all
  then show ?thesis
    using parseStr_printStr(2) [of k "CHR '':'' # printJson v @ e # es"] assms(4)
    by (simp add: parseStr_printStr(1) skipWs_Cons)
qed

lemma parseMembers_print:
  assumes "ms \<noteq> []" and "\<forall>m\<in>set ms. readsBack (snd m)"
    and "length (join '','' (map printMember ms)) + 1 < n"
  shows "parseMembers n (join '','' (map printMember ms) @ CHR ''}'' # rest) = Some (ms, rest)"
  using assms
proof (induction ms arbitrary: n)
  case Nil
  then show ?case by simp
next
  case (Cons m ms)
  obtain k v where m: "m = (k, v)" by (cases m)
  from Cons.prems(3) obtain p where n: "n = Suc p" by (cases n) auto
  show ?case
  proof (cases ms)
    case Nil
    with Cons.prems n m parseMembers_step [of v k p "CHR ''}''" rest] show ?thesis by simp
  next
    case (Cons w ws)
    with Cons.prems n have IH: "parseMembers p (join '','' (map printMember ms) @ CHR ''}'' # rest) = Some (ms, rest)"
      using Cons.IH [of p] by simp
    have split: "join '','' (map printMember (m # ms)) @ CHR ''}'' # rest =
        printMember (k, v) @ CHR '','' # join '','' (map printMember ms) @ CHR ''}'' # rest"
      using Cons m by simp
    have "length (printMember (k, v)) < p" and "readsBack v"
      using Cons.prems n m Cons by simp_all
    with parseMembers_step [of v k p "CHR '',''" "join '','' (map printMember ms) @ CHR ''}'' # rest"]
    show ?thesis unfolding split n using IH m by simp
  qed
qed

lemma join_start: "xs \<noteq> [] \<Longrightarrow> plainStart (hd xs) \<Longrightarrow> plainStart (join sep xs)"
  by (cases "(sep, xs)" rule: join.cases) (auto simp: plainStart_def)

lemma wfJson_readsBack: "wfJson j \<Longrightarrow> readsBack j"
proof (induction j)
  case (JNum l)
  then have l: "validNum l" "list_all isNumChar l" "l \<noteq> []" using validNum_start by auto
  then obtain c cs where c: "l = c # cs" "isNumChar c" by (cases l) auto
  show ?case unfolding readsBack_def
  proof (intro allI impI)
    fix n rest
    assume n: "length (printJson (JNum l)) < n" and rest: "numStop rest"
    then obtain k where "n = Suc k" by (cases n) auto
    with l c isNumChar_cases [OF c(2)] takeWhile_num [OF l(2) rest]
    show "parseValue n (printJson (JNum l) @ rest) = Some (JNum l, rest)"
      by (simp add: skipWs_Cons del: takeWhile.simps dropWhile.simps)
  qed
next
  case (JStr s)
  show ?case unfolding readsBack_def
  proof (intro allI impI)
    fix n rest
    assume "length (printJson (JStr s)) < n"
    then obtain k where "n = Suc k" by (cases n) auto
    with parseStr_printStr(2) [of s rest] show "parseValue n (printJson (JStr s) @ rest) = Some (JStr s, rest)"
      by (simp add: parseStr_printStr(1) skipWs_Cons)
  qed
next
  case (JArr vs)
  then have reads: "\<forall>v\<in>set vs. readsBack v" by (auto simp: list_all_iff)
  show ?case unfolding readsBack_def
  proof (intro allI impI)
    fix n rest
    assume n: "length (printJson (JArr vs)) < n"
    then obtain k where k: "n = Suc k" by (cases n) auto
    show "parseValue n (printJson (JArr vs) @ rest) = Some (JArr vs, rest)"
    proof (cases "vs = []")
      case True
      with k show ?thesis by (simp add: skipWs_Cons)
    next
      case False
      with JArr.prems have start: "plainStart (join '','' (map printJson vs))"
        by (intro join_start) (auto simp: hd_map list_all_iff plainStart_print)
      then obtain c cs where c: "join '','' (map printJson vs) = c # cs" "c \<noteq> CHR '']''"
        by (auto simp: plainStart_def)
      have "parseElems k (c # cs @ CHR '']'' # rest) = Some (vs, rest)"
        using parseElems_print [OF False reads, of k rest] n k c by simp
      with k c skipWs_plain [OF start, of "CHR '']'' # rest"] show ?thesis by (simp add: skipWs_Cons)
    qed
  qed
next
  case (JObj ms)
  then have reads: "\<forall>m\<in>set ms. readsBack (snd m)" by (fastforce simp: list_all_iff)
  show ?case unfolding readsBack_def
  proof (intro allI impI)
    fix n rest
    assume n: "length (printJson (JObj ms)) < n"
    then obtain k where k: "n = Suc k" by (cases n) auto
    show "parseValue n (printJson (JObj ms) @ rest) = Some (JObj ms, rest)"
    proof (cases "ms = []")
      case True
      with k show ?thesis by (simp add: skipWs_Cons)
    next
      case False
      then have start: "plainStart (join '','' (map printMember ms))"
        by (intro join_start) (auto simp: hd_map plainStart_def printStr_def)
      then obtain c cs where c: "join '','' (map printMember ms) = c # cs" "c \<noteq> CHR ''}''"
        by (auto simp: plainStart_def)
      have "parseMembers k (c # cs @ CHR ''}'' # rest) = Some (ms, rest)"
        using parseMembers_print [OF False reads, of k rest] n k c by simp
      with k c JObj.prems skipWs_plain [OF start, of "CHR ''}'' # rest"] show ?thesis
        by (simp add: skipWs_Cons)
    qed
  qed
next
  case JNull
  show ?case unfolding readsBack_def
    by (intro allI impI, case_tac n) (simp_all add: skipWs_Cons)
next
  case (JBool b)
  show ?case unfolding readsBack_def
    by (intro allI impI, case_tac n) (simp_all add: skipWs_Cons)
qed

lemma parseJson_printJson: "wfJson v \<Longrightarrow> marshalJson v = Some t \<Longrightarrow> parseJson t = Some v"
  using readsBackD [OF wfJson_readsBack, of v "Suc (length (printJson v))" "[]"]
  by (auto simp: marshalJson_def parseJson_def skipWs_def Let_def split: if_splits)

lemma formatNat_isDigit: "c \<in> set (formatNat n) \<Longrightarrow> isDigit c"
  by (auto dest!: formatNat_digits simp: isDigit_def)

lemma formatNat_hd: "hd (formatNat n) = CHR ''0'' \<Longrightarrow> n = 0"
proof (induction n rule: formatNat.induct)
  case (1 n)
  show ?case
  proof (cases "n < 10")
    case True
    with "1.prems" digitVal_digitChar [of n] show ?thesis
      by (simp add: formatNat.simps [of n] digitVal_def)
  next
    case False
    with "1.prems" have "hd (formatNat (n div 10)) = CHR ''0''"
      by (simp add: formatNat.simps [of n] hd_append)
    with "1.IH" False show ?thesis by simp
  qed
qed

lemma validNum_formatInt: "validNum (formatInt n) \<and> list_all isNumChar (formatInt n)"
proof -
  have digits: "takeWhile isDigit (formatNat k) = formatNat k" "dropWhile isDigit (formatNat k) = []" for k
    using formatNat_isDigit by (auto simp: takeWhile_eq_all_conv dropWhile_eq_Nil_conv)
  have zero: "hd (formatNat k) = CHR ''0'' \<Longrightarrow> length (formatNat k) = 1" for k
    using formatNat_hd [of k] by (simp add: formatNat.simps)
  have sign: "\<exists>c cs. formatNat k = c # cs \<and> c \<noteq> CHR ''-''" for k
    using formatNat_not_sign [of k] by (cases "formatNat k") auto
  have "list_all isNumChar (formatInt n)"
    using formatNat_isDigit by (auto simp: formatInt_def list_all_iff isNumChar_def)
  moreover have "validNum (formatInt n)"
  proof (cases "n < 0")
    case True
    then show ?thesis using zero by (simp add: formatInt_def validNum_def Let_def digits)
  next
    case False
    with sign [of "nat n"] obtain c cs where c: "formatNat (nat n) = c # cs" "c \<noteq> CHR ''-''" by blast
    show ?thesis using False zero [of "nat n"] c
      by (simp add: formatInt_def validNum_def Let_def digits [of "nat n", unfolded c(1)]
          del: takeWhile.simps dropWhile.simps) (simp add: isDigit_def digitVal_def)
  qed
  ultimately show ?thesis by simp
qed


section \<open>Reading struct fields\<close>

text \<open>
  A field takes its zero value when the member is absent or \<open>null\<close>; a member of the wrong
  kind is an error; members no field names are ignored.
\<close>

definition fieldOf :: "(string \<times> json) list \<Rightarrow> string \<Rightarrow> 'a \<Rightarrow> (json \<Rightarrow> 'a option) \<Rightarrow> 'a option" where
  "fieldOf ms k zero dec =
     (case map_of ms k of
        None \<Rightarrow> Some zero
      | Some j \<Rightarrow> if j = JNull then Some zero else dec j)"

fun decInt64 :: "json \<Rightarrow> int option" where
  "decInt64 (JNum l) = parseInt 64 l"
| "decInt64 _ = None"

fun decBool :: "json \<Rightarrow> bool option" where
  "decBool (JBool b) = Some b"
| "decBool _ = None"

fun decString :: "json \<Rightarrow> string option" where
  "decString (JStr s) = Some s"
| "decString JNull = Some []"
| "decString _ = None"

fun decStrings :: "json \<Rightarrow> string list option" where
  "decStrings (JArr vs) = those (map decString vs)"
| "decStrings _ = None"

definition int64 :: "int \<Rightarrow> bool" where
  "int64 n \<longleftrightarrow> - (2 ^ 63) \<le> n \<and> n < 2 ^ 63"

lemma fieldOf_hit: "map_of ms k = Some j \<Longrightarrow> j \<noteq> JNull \<Longrightarrow> fieldOf ms k zero dec = dec j"
  by (simp add: fieldOf_def)

lemma fieldOf_miss: "map_of ms k = None \<Longrightarrow> fieldOf ms k zero dec = Some zero"
  by (simp add: fieldOf_def)

lemma parseInt64_formatInt [simp]: "int64 n \<Longrightarrow> parseInt 64 (formatInt n) = Some n"
  by (simp add: int64_def parseInt_formatInt)

lemma decStrings_map [simp]: "decStrings (JArr (map JStr vs)) = Some vs"
  by (induction vs) auto

end
