(* ===== verification/Rebuild.thy ===== *)
theory Rebuild
  imports Status Json
begin

text \<open>
  \<open>cocoonset/rebuild.go\<close>: deleting a terminal or drifted pod so that a later pass recreates
  it, within a budget kept in an annotation of the CocoonSet. The annotation is JSON text: the
  codec is part of the model. The lemmas: what is read back is what was written; the history
  is persisted before the delete; a pod is deleted at most \<open>maxRebuildAttempts\<close> times per
  generation, and is then parked until the generation changes.
\<close>

definition annotationRebuildHistory :: string where
  "annotationRebuildHistory = ''cocoonset.cocoonstack.io/rebuild-history''"

definition maxRebuildAttempts :: int where
  "maxRebuildAttempts = 4"

record rebuildEntry =
  reCount :: int
  reLastDeleted :: int
  reGeneration :: int
  reParked :: bool

definition zeroEntry :: rebuildEntry where
  "zeroEntry = \<lparr>reCount = 0, reLastDeleted = zeroTime, reGeneration = 0, reParked = False\<rparr>"

definition entryAt :: "(string, rebuildEntry) gomap \<Rightarrow> string \<Rightarrow> rebuildEntry" where
  "entryAt m name = (case map_of m name of None \<Rightarrow> zeroEntry | Some e \<Rightarrow> e)"


section \<open>The annotation\<close>

text \<open>A \<open>time.Time\<close> whose year has more than four digits has no JSON form.\<close>

definition encodeEntry :: "rebuildEntry \<Rightarrow> json option" where
  "encodeEntry e =
     (if fourDigitYear (reLastDeleted e)
      then Some (JObj
        ([(''count'', JNum (formatInt (reCount e))),
          (''lastDeleted'', JStr (formatRFC3339Nano (reLastDeleted e))),
          (''generation'', JNum (formatInt (reGeneration e)))] @
         (if reParked e then [(''parked'', JBool True)] else [])))
      else None)"

fun decTime :: "json \<Rightarrow> int option" where
  "decTime (JStr s) = parseRFC3339 s"
| "decTime _ = None"

fun decodeEntry :: "json \<Rightarrow> rebuildEntry option" where
  "decodeEntry JNull = Some zeroEntry"
| "decodeEntry (JObj ms) = do {
     n \<leftarrow> fieldOf ms ''count'' 0 decInt64;
     t \<leftarrow> fieldOf ms ''lastDeleted'' zeroTime decTime;
     g \<leftarrow> fieldOf ms ''generation'' 0 decInt64;
     b \<leftarrow> fieldOf ms ''parked'' False decBool;
     Some \<lparr>reCount = n, reLastDeleted = t, reGeneration = g, reParked = b\<rparr>
   }"
| "decodeEntry _ = None"

fun decodeHistory :: "json \<Rightarrow> (string, rebuildEntry) gomap option" where
  "decodeHistory JNull = Some []"
| "decodeHistory (JObj ms) = those (map (\<lambda>(k, j). map_option (Pair k) (decodeEntry j)) ms)"
| "decodeHistory _ = None"

definition readRebuildHistory :: "cocoonSet \<Rightarrow> (string, rebuildEntry) gomap" where
  "readRebuildHistory cs =
     (let raw = strAt (csAnnotations cs) annotationRebuildHistory
      in if raw = [] then []
         else case Option.bind (parseJson raw) decodeHistory of
                None \<Rightarrow> []
              | Some m \<Rightarrow> m)"

definition desiredPodNames :: "metaPkg \<Rightarrow> cocoonSet \<Rightarrow> string list" where
  "desiredPodNames M cs =
     map (agentPodName (csName cs)) (slotsFrom 0 (nat (wrap32 (agReplicas (specAgent (csSpec cs)) + 1)))) @
     map (\<lambda>tb. ToolboxPodName M (csName cs) (tbName tb)) (specToolboxes (csSpec cs))"

text \<open>The members of a marshalled map are in the order of its keys.\<close>

definition encodeRebuildHistory ::
    "metaPkg \<Rightarrow> cocoonSet \<Rightarrow> (string, rebuildEntry) gomap \<Rightarrow> string option" where
  "encodeRebuildHistory M cs m =
     (let keep = desiredPodNames M cs;
          kept = filter (\<lambda>(name, _). name \<in> set keep) m
      in do {
           ms \<leftarrow> those (map (\<lambda>k. map_option (Pair k) (encodeEntry (entryAt kept k))) (sortedKeys kept));
           marshalJson (JObj ms)
         })"

definition budgetExhausted :: "cocoonSet \<Rightarrow> string \<Rightarrow> bool" where
  "budgetExhausted cs name =
     (let entry = entryAt (readRebuildHistory cs) name
      in reGeneration entry = csGeneration cs \<and> reParked entry)"

definition backoffDelay :: "int \<Rightarrow> duration" where
  "backoffDelay priorCount =
     (if priorCount = 0 then 0
      else if priorCount = 1 then 1 * second
      else if priorCount = 2 then 5 * second
      else 30 * second)"


section \<open>Writes\<close>

definition patchRebuildHistory :: "env \<Rightarrow> (string, rebuildEntry) gomap \<Rightarrow> gerr option setIO" where
  "patchRebuildHistory r history = do {
     cs \<leftarrow> theCS;
     case encodeRebuildHistory (meta r) cs history of
       None \<Rightarrow> State_Monad.return (Some (ErrWrap ''encode rebuild history'' (ErrMsg ''json'')))
     | Some enc \<Rightarrow> do {
         (err, cs') \<leftarrow> patchSet r cs (\<lambda>c. c\<lparr>csAnnotations :=
           AList.update annotationRebuildHistory enc (csAnnotations c)\<rparr>);
         putCS cs';
         State_Monad.return (map_option (ErrWrap ''patch rebuild history'') err)
       }
   }"

text \<open>\<open>patchAnnotation\<close> on the CocoonSet and on an owned pod; an empty value deletes the key.\<close>

definition patchAnnotationSet :: "env \<Rightarrow> string \<Rightarrow> string \<Rightarrow> gerr option setIO" where
  "patchAnnotationSet r key value = do {
     cs \<leftarrow> theCS;
     let v = (if value = [] then None else Some value);
     case AnnotationsMergePatch (kube r) key v of
       Some err \<Rightarrow> State_Monad.return (Some (ErrWrap (''build patch for *v1.CocoonSet '' @
         csNamespace cs @ ''/'' @ csName cs @ '' annotation '' @ key) err))
     | None \<Rightarrow> do {
         (err, cs') \<leftarrow> annotateSet r cs key v;
         putCS cs';
         State_Monad.return (map_option (ErrWrap (''patch *v1.CocoonSet '' @
           csNamespace cs' @ ''/'' @ csName cs' @ '' annotation '' @ key)) err)
       }
   }"

definition patchAnnotationPod :: "env \<Rightarrow> nat \<Rightarrow> string \<Rightarrow> string \<Rightarrow> gerr option setIO" where
  "patchAnnotationPod r i key value = do {
     p \<leftarrow> podAt i;
     let v = (if value = [] then None else Some value);
     case AnnotationsMergePatch (kube r) key v of
       Some err \<Rightarrow> State_Monad.return (Some (ErrWrap (''build patch for *v1.Pod '' @
         podNamespace p @ ''/'' @ podName p @ '' annotation '' @ key) err))
     | None \<Rightarrow> do {
         err \<leftarrow> patchAt i (\<lambda>p. annotatePod r p key v);
         p' \<leftarrow> podAt i;
         State_Monad.return (map_option (ErrWrap (''patch *v1.Pod '' @
           podNamespace p' @ ''/'' @ podName p' @ '' annotation '' @ key)) err)
       }
   }"

text \<open>\<open>r.Delete\<close> with \<open>IsNotFound\<close> ignored.\<close>

definition deleteIgnoringNotFound :: "env \<Rightarrow> pod \<Rightarrow> gerr option setIO" where
  "deleteIgnoringNotFound r p = do {
     err \<leftarrow> deletePod r p;
     case err of
       None \<Rightarrow> State_Monad.return None
     | Some e \<Rightarrow> State_Monad.return (if isNotFound e then None else Some e)
   }"


section \<open>Rebuild and triage\<close>

text \<open>
  The entry a pass works with: the stored one, or a fresh one when it belongs to another
  generation.
\<close>

definition currentEntry :: "cocoonSet \<Rightarrow> string \<Rightarrow> rebuildEntry" where
  "currentEntry cs name =
     (let e = entryAt (readRebuildHistory cs) name
      in if reGeneration e \<noteq> csGeneration cs then zeroEntry\<lparr>reGeneration := csGeneration cs\<rparr> else e)"

type_synonym triage = "bool \<times> duration \<times> gerr option"

text \<open>
  \<open>rebuildPod\<close> in its three parts: past the budget the pod is parked, inside the backoff the
  remaining wait is returned, otherwise the attempt is persisted and the pod deleted.
\<close>

definition markDeadLetter :: "env \<Rightarrow> nat \<Rightarrow> string \<Rightarrow> triage setIO" where
  "markDeadLetter r i reason = do {
     cs \<leftarrow> theCS;
     err \<leftarrow> patchAnnotationPod r i annotationDeadLetter (formatInt (csGeneration cs));
     case err of
       Some e \<Rightarrow> State_Monad.return (False, 0, Some e)
     | None \<Rightarrow> do {
         p \<leftarrow> podAt i;
         emit (EvMetric SubAgentDeadLetterTotal [csNamespace cs, csName cs] 1);
         emit (EvRecord ''Warning'' ''SubAgentDeadLetter''
           (''pod '' @ podName p @ '' exhausted '' @ formatInt maxRebuildAttempts @
            '' rebuilds ('' @ reason @ ''); left in dead-letter''));
         State_Monad.return (False, 0, None)
       }
   }"

definition parkPod :: "env \<Rightarrow> nat \<Rightarrow> string \<Rightarrow> triage setIO" where
  "parkPod r i reason = do {
     cs \<leftarrow> theCS;
     p \<leftarrow> podAt i;
     let entry = currentEntry cs (podName p);
     if reParked entry then markDeadLetter r i reason
     else do {
       err \<leftarrow> patchRebuildHistory r
         (AList.update (podName p) (entry\<lparr>reParked := True\<rparr>) (readRebuildHistory cs));
       case err of
         Some e \<Rightarrow> State_Monad.return (False, 0, Some (ErrWrap ''persist rebuild history'' e))
       | None \<Rightarrow> markDeadLetter r i reason
     }
   }"

definition deleteForRebuild :: "env \<Rightarrow> pod \<Rightarrow> int \<Rightarrow> string \<Rightarrow> triage setIO" where
  "deleteForRebuild r p count reason = do {
     err \<leftarrow> deleteIgnoringNotFound r p;
     case err of
       Some e \<Rightarrow> State_Monad.return (False, 0, Some (ErrWrap (''delete '' @ podName p @ '' for rebuild'') e))
     | None \<Rightarrow> do {
         cs \<leftarrow> theCS;
         emit (EvMetric SubAgentRebuildTotal [csNamespace cs, csName cs] 1);
         emit (EvRecord ''Normal'' ''SubAgentRebuilding''
           (''pod '' @ podName p @ '' attempt '' @ formatInt count @ ''/'' @
            formatInt maxRebuildAttempts @ '' ('' @ reason @ '')''));
         State_Monad.return (True, 0, None)
       }
   }"

definition attemptRebuild :: "env \<Rightarrow> nat \<Rightarrow> string \<Rightarrow> triage setIO" where
  "attemptRebuild r i reason = do {
     cs \<leftarrow> theCS;
     p \<leftarrow> podAt i;
     t \<leftarrow> now r;
     let entry = currentEntry cs (podName p);
     let entry = entry\<lparr>reCount := reCount entry + 1, reLastDeleted := t\<rparr>;
     err \<leftarrow> patchRebuildHistory r (AList.update (podName p) entry (readRebuildHistory cs));
     case err of
       Some e \<Rightarrow> State_Monad.return (False, 0, Some (ErrWrap ''persist rebuild history'' e))
     | None \<Rightarrow> deleteForRebuild r p (reCount entry) reason
   }"

definition rebuildPod :: "env \<Rightarrow> nat \<Rightarrow> string \<Rightarrow> triage setIO" where
  "rebuildPod r i reason = do {
     cs \<leftarrow> theCS;
     p \<leftarrow> podAt i;
     let entry = currentEntry cs (podName p);
     if maxRebuildAttempts \<le> reCount entry then parkPod r i reason
     else if backoffDelay (reCount entry) \<le> 0 then attemptRebuild r i reason
     else do {
       t \<leftarrow> now r;
       let remaining = wrap64 (backoffDelay (reCount entry) - timeSub t (reLastDeleted entry));
       if 0 < remaining then State_Monad.return (False, remaining, None)
       else attemptRebuild r i reason
     }
   }"

definition triagePod :: "env \<Rightarrow> nat \<Rightarrow> bool \<Rightarrow> triage setIO" where
  "triagePod r i matches = do {
     p \<leftarrow> podAt i;
     if \<not> podIsTerminal (meta r) p \<and> matches then State_Monad.return (False, 0, None)
     else do {
       let reason = (if podIsTerminal (meta r) p
         then ''terminal (phase='' @ podPhase p @ '' lifecycle='' @ ReadLifecycleState (meta r) p @ '')''
         else ''spec drifted'');
       cs \<leftarrow> theCS;
       case map_of (podAnnotations p) annotationDeadLetter of
         None \<Rightarrow> rebuildPod r i reason
       | Some parkedAt \<Rightarrow>
           if parkedAt = formatInt (csGeneration cs) then State_Monad.return (False, 0, None)
           else do {
             let history = readRebuildHistory cs;
             err \<leftarrow> (if map_of history (podName p) \<noteq> None
                    then patchRebuildHistory r (AList.delete (podName p) history)
                    else State_Monad.return None);
             case err of
               Some e \<Rightarrow>
                 State_Monad.return (False, 0, Some (ErrWrap (''reset rebuild history for '' @ podName p) e))
             | None \<Rightarrow> do {
                 err \<leftarrow> deleteIgnoringNotFound r p;
                 case err of
                   Some e \<Rightarrow>
                     State_Monad.return (False, 0, Some (ErrWrap (''delete dead-lettered '' @ podName p) e))
                 | None \<Rightarrow> State_Monad.return (True, 0, None)
               }
           }
     }
   }"


section \<open>Codec\<close>

definition validEntry :: "rebuildEntry \<Rightarrow> bool" where
  "validEntry e \<longleftrightarrow> int64 (reCount e) \<and> int64 (reGeneration e)"

lemma encodeEntry_wf: "encodeEntry e = Some j \<Longrightarrow> wfJson j \<and> j \<noteq> JNull"
  using validNum_formatInt by (auto simp: encodeEntry_def split: if_splits)

lemma decode_encodeEntry:
  "validEntry e \<Longrightarrow> encodeEntry e = Some j \<Longrightarrow> decodeEntry j = Some e"
  by (cases "reParked e")
    (auto simp: encodeEntry_def validEntry_def fieldOf_def parse_formatRFC3339Nano split: if_splits)

lemma those_map_Pair:
  "those (map (\<lambda>k. map_option (Pair k) (f k)) ks) = Some ms \<longleftrightarrow>
     map fst ms = ks \<and> list_all (\<lambda>(k, v). f k = Some v) ms"
proof (induction ks arbitrary: ms)
  case (Cons k ks)
  show ?case
  proof (cases ms)
    case Nil
    then show ?thesis by (auto split: option.splits)
  next
    case (Cons m ms')
    then show ?thesis using Cons.IH by (cases m) (auto split: option.splits)
  qed
qed auto

lemma decodeHistory_members:
  "list_all (\<lambda>(k, j). decodeEntry j = Some (f k)) ms \<Longrightarrow>
     decodeHistory (JObj ms) = Some (map (\<lambda>(k, j). (k, f k)) ms)"
  by (induction ms) auto

lemma entryAt_Some: "map_of m k = Some e \<Longrightarrow> entryAt m k = e"
  by (simp add: entryAt_def)

lemma map_of_filter_keys:
  "map_of (filter (\<lambda>(k, _). k \<in> A) m) = map_of m |` A"
  by (induction m) (auto simp: restrict_map_def fun_eq_iff)

lemma map_of_graph:
  "map_of (map (\<lambda>k. (k, f k)) ks) = (\<lambda>k. if k \<in> set ks then Some (f k) else None)"
  by (induction ks) auto

lemma map_of_entries:
  assumes "set ks = dom (map_of m)"
  shows "map_of (map (\<lambda>k. (k, entryAt m k)) ks) = map_of m"
proof
  fix k
  show "map_of (map (\<lambda>k. (k, entryAt m k)) ks) k = map_of m k"
    using assms by (cases "map_of m k") (auto simp: map_of_graph entryAt_def)
qed

lemma decode_encodeRebuildHistory:
  assumes enc: "encodeRebuildHistory M cs m = Some raw"
    and valid: "\<And>name e. map_of m name = Some e \<Longrightarrow> validEntry e"
  shows "\<exists>h. Option.bind (parseJson raw) decodeHistory = Some h \<and>
             map_of h = map_of m |` set (desiredPodNames M cs)"
proof -
  let ?kept = "filter (\<lambda>(name, _). name \<in> set (desiredPodNames M cs)) m"
  from enc obtain ms where
    those: "those (map (\<lambda>k. map_option (Pair k) (encodeEntry (entryAt ?kept k))) (sortedKeys ?kept)) = Some ms"
    and raw: "marshalJson (JObj ms) = Some raw"
    by (auto simp: encodeRebuildHistory_def Let_def bind_eq_Some_conv)
  from those have keys: "map fst ms = sortedKeys ?kept"
    and vals: "\<And>k j. (k, j) \<in> set ms \<Longrightarrow> encodeEntry (entryAt ?kept k) = Some j"
    by (auto simp: those_map_Pair list_all_iff)
  have dom: "k \<in> fst ` set ms \<Longrightarrow> \<exists>e. map_of ?kept k = Some e" for k
    using keys sortedKeys_dom [of ?kept] by (metis domD list.set_map)
  have "wfJson (JObj ms)"
    using keys vals encodeEntry_wf by (fastforce simp: list_all_iff)
  from parseJson_printJson [OF this raw] have parse: "parseJson raw = Some (JObj ms)" .
  have "list_all (\<lambda>(k, j). decodeEntry j = Some (entryAt ?kept k)) ms"
    unfolding list_all_iff
  proof clarify
    fix k j assume "(k, j) \<in> set ms"
    with dom [of k] obtain e where e: "map_of ?kept k = Some e" by force
    then have "map_of m k = Some e" by (auto simp: map_of_filter_keys restrict_map_def split: if_splits)
    with valid e vals [OF \<open>(k, j) \<in> set ms\<close>] show "decodeEntry j = Some (entryAt ?kept k)"
      by (simp add: entryAt_Some decode_encodeEntry)
  qed
  from decodeHistory_members [OF this] parse
  have "Option.bind (parseJson raw) decodeHistory = Some (map (\<lambda>k. (k, entryAt ?kept k)) (map fst ms))"
    by (simp add: split_def comp_def)
  moreover have "map_of (map (\<lambda>k. (k, entryAt ?kept k)) (map fst ms)) = map_of ?kept"
    by (rule map_of_entries) (simp only: keys sortedKeys_dom)
  ultimately show ?thesis by (auto simp: map_of_filter_keys)
qed

lemma marshalJson_nonempty: "marshalJson (JObj ms) \<noteq> Some []"
  by (simp add: marshalJson_def Let_def)

lemma encodeRebuildHistory_nonempty: "encodeRebuildHistory M cs m \<noteq> Some []"
  by (auto simp: encodeRebuildHistory_def Let_def bind_eq_Some_conv marshalJson_nonempty)


section \<open>Footprints\<close>

lemma wp_patchRebuildHistory [wp_simps]:
  "wp (patchRebuildHistory r history) Q s =
     (case encodeRebuildHistory (meta r) (theSet s) history of
        None \<Rightarrow> Q (Some (ErrWrap ''encode rebuild history'' (ErrMsg ''json''))) s
      | Some enc \<Rightarrow>
          let cs = theSet s;
              cs1 = cs\<lparr>csAnnotations := AList.update annotationRebuildHistory enc (csAnnotations cs)\<rparr>;
              a = cliPatchSet (cli r) (hist s) cs cs1
          in Q (map_option (ErrWrap ''patch rebuild history'') (fst a))
               (s\<lparr>hist := EvPatchSet cs cs1 (fst a) # hist s, theSet := snd a\<rparr>))"
  by (simp add: patchRebuildHistory_def wp_simps Let_def split_def split: option.split)

lemma wp_patchAnnotationSet [wp_simps]:
  "wp (patchAnnotationSet r key value) Q s =
     (let cs = theSet s; v = (if value = [] then None else Some value)
      in case AnnotationsMergePatch (kube r) key v of
           Some err \<Rightarrow> Q (Some (ErrWrap (''build patch for *v1.CocoonSet '' @
             csNamespace cs @ ''/'' @ csName cs @ '' annotation '' @ key) err)) s
         | None \<Rightarrow>
             let a = cliAnnotateSet (cli r) (hist s) cs key v
             in Q (map_option (ErrWrap (''patch *v1.CocoonSet '' @
                    csNamespace (snd a) @ ''/'' @ csName (snd a) @ '' annotation '' @ key)) (fst a))
                  (s\<lparr>hist := EvAnnotateSet cs key v (fst a) # hist s, theSet := snd a\<rparr>))"
  by (simp add: patchAnnotationSet_def wp_simps Let_def split_def split: option.split)

lemma wp_patchAnnotationPod [wp_simps]:
  "wp (patchAnnotationPod r i key value) Q s =
     (let p = podHeap s i; v = (if value = [] then None else Some value)
      in case AnnotationsMergePatch (kube r) key v of
           Some err \<Rightarrow> Q (Some (ErrWrap (''build patch for *v1.Pod '' @
             podNamespace p @ ''/'' @ podName p @ '' annotation '' @ key) err)) s
         | None \<Rightarrow>
             let a = cliAnnotatePod (cli r) (hist s) p key v
             in Q (map_option (ErrWrap (''patch *v1.Pod '' @
                    podNamespace (snd a) @ ''/'' @ podName (snd a) @ '' annotation '' @ key)) (fst a))
                  (s\<lparr>hist := EvAnnotatePod p key v (fst a) # hist s,
                     podHeap := (podHeap s)(i := snd a)\<rparr>))"
  by (simp add: patchAnnotationPod_def wp_simps Let_def split_def split: option.split)

lemma wp_deleteIgnoringNotFound [wp_simps]:
  "wp (deleteIgnoringNotFound r p) Q s =
     (let a = cliDeletePod (cli r) (hist s) p
      in Q (case a of None \<Rightarrow> None | Some e \<Rightarrow> if isNotFound e then None else Some e)
           (s\<lparr>hist := EvDeletePod p a # hist s\<rparr>))"
  by (simp add: deleteIgnoringNotFound_def wp_simps Let_def split: option.split)

lemma patchRebuildHistory_emits [emits_intros]:
  "(\<And>a b e. K (EvPatchSet a b e)) \<Longrightarrow> emits K (patchRebuildHistory r history)"
  unfolding patchRebuildHistory_def patchSet_def by (intro emits_intros)

lemma patchAnnotationSet_emits [emits_intros]:
  "(\<And>cs e. K (EvAnnotateSet cs key (if value = [] then None else Some value) e)) \<Longrightarrow>
     emits K (patchAnnotationSet r key value)"
  unfolding patchAnnotationSet_def annotateSet_def Let_def by (intro emits_intros)

lemma patchAnnotationPod_emits [emits_intros]:
  "(\<And>p e. K (EvAnnotatePod p key (if value = [] then None else Some value) e)) \<Longrightarrow>
     emits K (patchAnnotationPod r i key value)"
  unfolding patchAnnotationPod_def annotatePod_def Let_def by (intro emits_intros)

lemma deleteIgnoringNotFound_emits [emits_intros]:
  "(\<And>e. K (EvDeletePod p e)) \<Longrightarrow> emits K (deleteIgnoringNotFound r p)"
  unfolding deleteIgnoringNotFound_def deletePod_def by (intro emits_intros)

lemma rebuildPod_emits [emits_intros]:
  assumes "\<And>a b e. K (EvPatchSet a b e)" and "\<And>p k v e. K (EvAnnotatePod p k v e)"
    and "\<And>p e. K (EvDeletePod p e)" and "\<And>t. K (EvNow t)" and "\<And>n ls d. labelled n ls \<Longrightarrow> K (EvMetric n ls d)"
    and "\<And>a b c. K (EvRecord a b c)"
  shows "emits K (rebuildPod r i reason)"
  unfolding rebuildPod_def parkPod_def attemptRebuild_def markDeadLetter_def deleteForRebuild_def now_def
  by (intro emits_intros assms)

lemma triagePod_emits [emits_intros]:
  assumes "\<And>a b e. K (EvPatchSet a b e)" and "\<And>p k v e. K (EvAnnotatePod p k v e)"
    and "\<And>p e. K (EvDeletePod p e)" and "\<And>t. K (EvNow t)" and "\<And>n ls d. labelled n ls \<Longrightarrow> K (EvMetric n ls d)"
    and "\<And>a b c. K (EvRecord a b c)"
  shows "emits K (triagePod r i matches)"
  unfolding triagePod_def by (intro emits_intros assms)


section \<open>The budget\<close>

lemma parseInt64_int64: "parseInt 64 l = Some n \<Longrightarrow> int64 n"
  using parseInt_range [of 64 l n] by (simp add: int64_def)

lemma decInt64_int64: "decInt64 j = Some n \<Longrightarrow> int64 n"
  by (cases j) (auto dest: parseInt64_int64)

lemma fieldOf_int64: "fieldOf ms k 0 decInt64 = Some n \<Longrightarrow> int64 n"
  by (auto simp: fieldOf_def int64_def dest: decInt64_int64 [unfolded int64_def]
      split: option.splits if_splits)

lemma decodeEntry_valid: "decodeEntry j = Some e \<Longrightarrow> validEntry e"
  by (cases j) (auto simp: validEntry_def zeroEntry_def int64_def bind_eq_Some_conv
      dest!: fieldOf_int64 [unfolded int64_def])

lemma decodeHistory_valid:
  assumes "decodeHistory j = Some m" and "map_of m name = Some e"
  shows "validEntry e"
proof -
  have mem: "those (map (\<lambda>(k, j). map_option (Pair k) (decodeEntry j)) ms) = Some m \<Longrightarrow>
      (k, e) \<in> set m \<Longrightarrow> \<exists>j. decodeEntry j = Some e" for ms m k
    by (induction ms arbitrary: m) (auto split: option.splits)
  from assms show ?thesis
    by (cases j) (auto dest!: map_of_SomeD mem decodeEntry_valid)
qed

lemma readRebuildHistory_valid: "map_of (readRebuildHistory cs) name = Some e \<Longrightarrow> validEntry e"
  by (auto simp: readRebuildHistory_def Let_def bind_eq_Some_conv split: if_splits option.splits
      dest: decodeHistory_valid)

lemma currentEntry_valid:
  assumes "int64 (csGeneration cs)"
  shows "validEntry (currentEntry cs name)"
proof -
  have zero: "validEntry zeroEntry" "validEntry (zeroEntry\<lparr>reGeneration := csGeneration cs\<rparr>)"
    using assms by (simp_all add: validEntry_def zeroEntry_def int64_def)
  then have "validEntry (entryAt (readRebuildHistory cs) name)"
    by (auto simp: entryAt_def split: option.split dest: readRebuildHistory_valid)
  with zero show ?thesis by (simp add: currentEntry_def Let_def)
qed

text \<open>Reading the object a history patch asks for gives the updated history back.\<close>

lemma read_patched:
  assumes enc: "encodeRebuildHistory M cs (AList.update name e (readRebuildHistory cs)) = Some raw"
    and stored: "strAt (csAnnotations cs') annotationRebuildHistory = raw"
    and "csGeneration cs' = csGeneration cs" and "name \<in> set (desiredPodNames M cs)"
    and "validEntry e" and "reGeneration e = csGeneration cs"
  shows "currentEntry cs' name = e"
proof -
  have valid: "validEntry x" if "map_of (AList.update name e (readRebuildHistory cs)) n = Some x" for n x
    using that assms(5) by (auto simp: update_conv split: if_splits dest: readRebuildHistory_valid)
  obtain h where h: "Option.bind (parseJson raw) decodeHistory = Some h"
    "map_of h = map_of (AList.update name e (readRebuildHistory cs)) |` set (desiredPodNames M cs)"
    using decode_encodeRebuildHistory [OF enc] valid by metis
  have "raw \<noteq> []" using enc encodeRebuildHistory_nonempty by fastforce
  with h stored have "readRebuildHistory cs' = h" by (simp add: readRebuildHistory_def)
  with h(2) assms show ?thesis
    by (simp add: currentEntry_def entryAt_def restrict_map_def update_conv)
qed

text \<open>
  A server that stores what it accepts while the spec is not edited: a successful patch answers
  with the requested history, a failed one leaves it, and neither changes the name, the spec or
  the generation of the set, nor the name of a pod.
\<close>

definition quietServer :: "env \<Rightarrow> bool" where
  "quietServer r \<longleftrightarrow>
     (\<forall>h cs cs' err got. cliPatchSet (cli r) h cs cs' = (err, got) \<longrightarrow>
        (let stored = if err = None then cs' else cs in
         csName got = csName stored \<and> csSpec got = csSpec stored \<and>
         csGeneration got = csGeneration stored \<and>
         strAt (csAnnotations got) annotationRebuildHistory =
           strAt (csAnnotations stored) annotationRebuildHistory)) \<and>
     (\<forall>h p k v. podName (snd (cliAnnotatePod (cli r) h p k v)) = podName p)"

fun podDeletes :: "history \<Rightarrow> nat" where
  "podDeletes [] = 0"
| "podDeletes (EvDeletePod p e # h) = Suc (podDeletes h)"
| "podDeletes (_ # h) = podDeletes h"

text \<open>What is left of the budget of one pod, and the identity the passes keep.\<close>

definition budgetLeft :: "cocoonSet \<Rightarrow> string \<Rightarrow> nat" where
  "budgetLeft cs name = nat (maxRebuildAttempts - reCount (currentEntry cs name))"

definition sameSet :: "cocoonSet \<Rightarrow> cocoonSet \<Rightarrow> bool" where
  "sameSet a b \<longleftrightarrow> csName a = csName b \<and> csSpec a = csSpec b \<and> csGeneration a = csGeneration b"

lemma desiredPodNames_same: "sameSet a b \<Longrightarrow> desiredPodNames M a = desiredPodNames M b"
  by (simp add: sameSet_def desiredPodNames_def)

lemma currentEntry_same:
  "strAt (csAnnotations a) annotationRebuildHistory = strAt (csAnnotations b) annotationRebuildHistory \<Longrightarrow>
     sameSet a b \<Longrightarrow> currentEntry a name = currentEntry b name"
  by (simp add: currentEntry_def readRebuildHistory_def sameSet_def Let_def)

text \<open>A history patch either fails and changes nothing, or stores the entry.\<close>

lemma wp_patchEntry:
  assumes quiet: "quietServer r" and name: "name \<in> set (desiredPodNames (meta r) (theSet s))"
    and valid: "validEntry e" and gen: "reGeneration e = csGeneration (theSet s)"
    and fails: "\<And>err t. podDeletes (hist t) = podDeletes (hist s) \<Longrightarrow> podHeap t = podHeap s \<Longrightarrow>
      sameSet (theSet t) (theSet s) \<Longrightarrow>
      currentEntry (theSet t) name = currentEntry (theSet s) name \<Longrightarrow> Q (Some err) t"
    and works: "\<And>t. podDeletes (hist t) = podDeletes (hist s) \<Longrightarrow> podHeap t = podHeap s \<Longrightarrow>
      sameSet (theSet t) (theSet s) \<Longrightarrow> currentEntry (theSet t) name = e \<Longrightarrow> Q None t"
  shows "wp (patchRebuildHistory r (AList.update name e (readRebuildHistory (theSet s)))) Q s"
proof (cases "encodeRebuildHistory (meta r) (theSet s) (AList.update name e (readRebuildHistory (theSet s)))")
  case None
  then show ?thesis by (simp add: wp_simps sameSet_def fails)
next
  case (Some enc)
  let ?cs = "theSet s"
  let ?cs1 = "?cs\<lparr>csAnnotations := AList.update annotationRebuildHistory enc (csAnnotations ?cs)\<rparr>"
  obtain err got where a: "cliPatchSet (cli r) (hist s) ?cs ?cs1 = (err, got)" by fastforce
  have asked: "let stored = if err = None then ?cs1 else ?cs in
      csName got = csName stored \<and> csSpec got = csSpec stored \<and>
      csGeneration got = csGeneration stored \<and> strAt (csAnnotations got) annotationRebuildHistory =
        strAt (csAnnotations stored) annotationRebuildHistory"
    using quiet a unfolding quietServer_def by blast
  then have same: "sameSet got ?cs" by (simp add: sameSet_def Let_def split: if_splits)
  from asked have stored: "strAt (csAnnotations got) annotationRebuildHistory =
      strAt (csAnnotations (if err = None then ?cs1 else ?cs)) annotationRebuildHistory"
    by (simp add: Let_def)
  show ?thesis
  proof (cases err)
    case None
    with stored have "strAt (csAnnotations got) annotationRebuildHistory = enc" by simp
    from read_patched [OF Some this _ name valid gen] same
    have "currentEntry got name = e" by (simp add: sameSet_def)
    with Some a None same show ?thesis by (simp add: wp_simps works)
  next
    case (Some e')
    with stored same have "currentEntry got name = currentEntry ?cs name"
      by (intro currentEntry_same) simp_all
    with \<open>encodeRebuildHistory _ _ _ = Some enc\<close> a Some same show ?thesis by (simp add: wp_simps fails)
  qed
qed

text \<open>Successive passes over one pod name, at any heap cells and with any reasons.\<close>

fun rebuildPasses :: "env \<Rightarrow> (nat \<times> string) list \<Rightarrow> unit setIO" where
  "rebuildPasses r [] = State_Monad.return ()"
| "rebuildPasses r ((i, reason) # ps) = do { _ \<leftarrow> rebuildPod r i reason; rebuildPasses r ps }"

definition passInv :: "env \<Rightarrow> string \<Rightarrow> nat list \<Rightarrow> setWorld \<Rightarrow> bool" where
  "passInv r name is s \<longleftrightarrow>
     int64 (csGeneration (theSet s)) \<and> name \<in> set (desiredPodNames (meta r) (theSet s)) \<and>
     (\<forall>i\<in>set is. podName (podHeap s i) = name)"

lemma currentEntry_generation: "reGeneration (currentEntry cs name) = csGeneration cs"
  by (simp add: currentEntry_def Let_def)

lemma validEntry_step:
  assumes "validEntry e" and "\<not> maxRebuildAttempts \<le> reCount e"
  shows "validEntry (e\<lparr>reCount := reCount e + 1, reLastDeleted := t\<rparr>)"
  using assms by (auto simp: validEntry_def int64_def maxRebuildAttempts_def)

text \<open>One pass: the identity is kept and a delete costs a unit of the budget.\<close>

definition passStep :: "env \<Rightarrow> string \<Rightarrow> nat list \<Rightarrow> setWorld \<Rightarrow> setWorld \<Rightarrow> bool" where
  "passStep r name is s t \<longleftrightarrow> passInv r name is t \<and>
     podDeletes (hist t) + budgetLeft (theSet t) name \<le> podDeletes (hist s) + budgetLeft (theSet s) name"

lemma passStep_stored:
  assumes "passInv r name is s" and "podHeap t = podHeap s" and "sameSet (theSet t) (theSet s)"
    and "podDeletes (hist t) + budgetLeft (theSet t) name \<le> podDeletes (hist s) + budgetLeft (theSet s) name"
  shows "passStep r name is s t"
  using assms desiredPodNames_same [OF assms(3)] by (simp add: passStep_def passInv_def sameSet_def)

lemma wp_storeEntry:
  assumes quiet: "quietServer r" and inv: "passInv r name is s"
    and u: "theSet u = theSet s" "podHeap u = podHeap s" "podDeletes (hist u) = podDeletes (hist s)"
    and e: "validEntry e" "reGeneration e = csGeneration (theSet s)"
    and fails: "\<And>err t. passStep r name is s t \<Longrightarrow> wp (f (Some err)) Q t"
    and works: "\<And>t. podDeletes (hist t) = podDeletes (hist s) \<Longrightarrow> podHeap t = podHeap s \<Longrightarrow>
      sameSet (theSet t) (theSet s) \<Longrightarrow> currentEntry (theSet t) name = e \<Longrightarrow> wp (f None) Q t"
  shows "wp (patchRebuildHistory r (AList.update name e (readRebuildHistory (theSet s)))) (\<lambda>a. wp (f a) Q) u"
proof -
  have "wp (f (Some err)) Q t" if "podDeletes (hist t) = podDeletes (hist u)" "podHeap t = podHeap u"
    "sameSet (theSet t) (theSet u)" "currentEntry (theSet t) name = currentEntry (theSet u) name" for err t
    using that u by (intro fails passStep_stored [OF inv]) (simp_all add: budgetLeft_def)
  moreover have "name \<in> set (desiredPodNames (meta r) (theSet u))"
    using inv u(1) by (simp add: passInv_def)
  ultimately show ?thesis
    using wp_patchEntry [OF quiet, of name u e "\<lambda>a. wp (f a) Q"] u e works by simp
qed

lemma wp_markDeadLetter:
  assumes "quietServer r" and "i \<in> set is" and "passStep r name is s u"
  shows "wp (markDeadLetter r i reason) (\<lambda>_. passStep r name is s) u"
  using assms
  by (auto simp: markDeadLetter_def wp_simps Let_def passStep_def passInv_def quietServer_def
      split: option.split)

lemma wp_parkPod:
  assumes quiet: "quietServer r" and inv: "passInv r name is s" and i: "i \<in> set is"
  shows "wp (parkPod r i reason) (\<lambda>_. passStep r name is s) s"
proof -
  have name: "podName (podHeap s i) = name" and "int64 (csGeneration (theSet s))"
    using inv i by (auto simp: passInv_def)
  then have valid: "validEntry (currentEntry (theSet s) name)" by (simp add: currentEntry_valid)
  have dead: "wp (markDeadLetter r i reason) (\<lambda>_. passStep r name is s) t"
    if "podDeletes (hist t) = podDeletes (hist s)" "podHeap t = podHeap s" "sameSet (theSet t) (theSet s)"
      "reCount (currentEntry (theSet t) name) = reCount (currentEntry (theSet s) name)" for t
    using that by (intro wp_markDeadLetter [OF quiet i] passStep_stored [OF inv])
      (simp_all add: budgetLeft_def)
  then have "wp (patchRebuildHistory r (AList.update name
      (currentEntry (theSet s) name\<lparr>reParked := True\<rparr>) (readRebuildHistory (theSet s))))
    (\<lambda>err. wp (case err of
        Some e \<Rightarrow> State_Monad.return (False, 0, Some (ErrWrap ''persist rebuild history'' e))
      | None \<Rightarrow> markDeadLetter r i reason) (\<lambda>_. passStep r name is s)) s"
    using valid by (intro wp_storeEntry [OF quiet inv])
      (simp_all add: wp_return validEntry_def currentEntry_generation)
  with dead [of s] show ?thesis
    by (simp add: parkPod_def wp_bind wp_theCS wp_podAt Let_def wp_if name sameSet_def)
qed

lemma wp_deleteForRebuild:
  assumes "passInv r name is s" and "podHeap t = podHeap s" and "sameSet (theSet t) (theSet s)"
    and "Suc (podDeletes (hist t) + budgetLeft (theSet t) name) \<le>
      podDeletes (hist s) + budgetLeft (theSet s) name"
  shows "wp (deleteForRebuild r p n reason) (\<lambda>_. passStep r name is s) t"
  using assms by (auto simp: deleteForRebuild_def wp_simps Let_def intro!: passStep_stored [OF assms(1)]
      split: option.split)

lemma wp_attemptRebuild:
  assumes quiet: "quietServer r" and inv: "passInv r name is s" and i: "i \<in> set is"
    and u: "theSet u = theSet s" "podHeap u = podHeap s" "podDeletes (hist u) = podDeletes (hist s)"
    and left: "\<not> maxRebuildAttempts \<le> reCount (currentEntry (theSet s) name)"
  shows "wp (attemptRebuild r i reason) (\<lambda>_. passStep r name is s) u"
proof -
  let ?e = "currentEntry (theSet s) name"
  have name: "podName (podHeap s i) = name" and "int64 (csGeneration (theSet s))"
    using inv i by (auto simp: passInv_def)
  then have valid: "validEntry (?e\<lparr>reCount := reCount ?e + 1, reLastDeleted := x\<rparr>)" for x
    using left by (simp add: validEntry_step currentEntry_valid)
  have del: "wp (deleteForRebuild r p n reason) (\<lambda>_. passStep r name is s) t"
    if "podDeletes (hist t) = podDeletes (hist s)" "podHeap t = podHeap s" "sameSet (theSet t) (theSet s)"
      "reCount (currentEntry (theSet t) name) = reCount ?e + 1" for t p n
    using that left by (intro wp_deleteForRebuild [OF inv]) (simp_all add: budgetLeft_def)
  have "wp (patchRebuildHistory r (AList.update name
      (?e\<lparr>reCount := reCount ?e + 1, reLastDeleted := x\<rparr>) (readRebuildHistory (theSet s))))
    (\<lambda>err. wp (case err of
        Some e \<Rightarrow> State_Monad.return (False, 0, Some (ErrWrap ''persist rebuild history'' e))
      | None \<Rightarrow> deleteForRebuild r p n reason) (\<lambda>_. passStep r name is s)) (u\<lparr>hist := EvNow x # hist u\<rparr>)" for x p n
    using valid u del by (intro wp_storeEntry [OF quiet inv])
      (simp_all add: wp_return currentEntry_generation)
  then show ?thesis
    using u by (simp add: attemptRebuild_def wp_bind wp_theCS wp_podAt now_def wp_ask Let_def name)
qed

lemma rebuild_pass:
  assumes quiet: "quietServer r" and inv: "passInv r name is s" and i: "i \<in> set is"
  shows "wp (rebuildPod r i reason) (\<lambda>_. passStep r name is s) s"
proof -
  have name: "podName (podHeap s i) = name" using inv i by (auto simp: passInv_def)
  have "passStep r name is s (s\<lparr>hist := EvNow x # hist s\<rparr>)" for x
    by (rule passStep_stored [OF inv]) (simp_all add: sameSet_def)
  then show ?thesis
    using name wp_parkPod [OF assms] wp_attemptRebuild [OF assms]
    by (auto simp: rebuildPod_def wp_bind wp_theCS wp_podAt now_def wp_ask Let_def wp_return wp_if)
qed

lemma rebuildPasses_budget:
  assumes "quietServer r" and "passInv r name (map fst ps) s"
  shows "podDeletes (hist (final (rebuildPasses r ps) s)) \<le> podDeletes (hist s) + budgetLeft (theSet s) name"
  using assms(2)
proof (induction ps arbitrary: s)
  case Nil
  then show ?case by simp
next
  case (Cons x ps)
  obtain i reason where x: "x = (i, reason)" by fastforce
  let ?t = "final (rebuildPod r i reason) s"
  have "passStep r name (map fst (x # ps)) s ?t"
    using rebuild_pass [OF assms(1) Cons.prems, of i reason] x by (simp add: wp_result_final)
  then have step: "passInv r name (map fst ps) ?t"
      "podDeletes (hist ?t) + budgetLeft (theSet ?t) name \<le> podDeletes (hist s) + budgetLeft (theSet s) name"
    by (auto simp: passStep_def passInv_def)
  from Cons.IH [OF step(1)] step(2) show ?case by (simp add: x final_bind)
qed


section \<open>Properties\<close>


text \<open>
  A delete of a rebuild pass: of the pod asked for, inside the budget, directly after the patch
  that stored the incremented attempt.
\<close>

definition persistedDelete :: "env \<Rightarrow> cocoonSet \<Rightarrow> pod \<Rightarrow> history \<Rightarrow> pod \<Rightarrow> gerr option \<Rightarrow> bool" where
  "persistedDelete r cs p es q x \<longleftrightarrow>
     q = p \<and> reCount (currentEntry cs (podName p)) < maxRebuildAttempts \<and>
     (\<exists>post pre t raw. es = post @ [EvDeletePod q x,
          EvPatchSet cs (cs\<lparr>csAnnotations := AList.update annotationRebuildHistory raw (csAnnotations cs)\<rparr>) None] @ pre \<and>
        encodeRebuildHistory (meta r) cs (AList.update (podName p)
          ((currentEntry cs (podName p))\<lparr>reCount := reCount (currentEntry cs (podName p)) + 1, reLastDeleted := t\<rparr>)
          (readRebuildHistory cs)) = Some raw)"

definition onlyPersistedDeletes :: "env \<Rightarrow> setWorld \<Rightarrow> nat \<Rightarrow> setWorld \<Rightarrow> bool" where
  "onlyPersistedDeletes r s i t \<longleftrightarrow> (\<exists>es. hist t = es @ hist s \<and>
     (\<forall>q x. EvDeletePod q x \<in> set es \<longrightarrow> persistedDelete r (theSet s) (podHeap s i) es q x))"

lemma onlyPersistedDeletes_none:
  "hist t = es @ hist s \<Longrightarrow> (\<And>q x. EvDeletePod q x \<notin> set es) \<Longrightarrow> onlyPersistedDeletes r s i t"
  unfolding onlyPersistedDeletes_def by blast

lemma wp_attempt_persisted:
  assumes "theSet u = theSet s" "podHeap u = podHeap s"
    and "hist u = ns @ hist s" "\<And>q x. EvDeletePod q x \<notin> set ns"
    and left: "reCount (currentEntry (theSet s) (podName (podHeap s i))) < maxRebuildAttempts"
  shows "wp (attemptRebuild r i reason) (\<lambda>_ t. onlyPersistedDeletes r s i t) u"
proof -
  let ?cs = "theSet s" and ?p = "podHeap s i" and ?t = "clock r (hist u)"
  let ?e = "currentEntry ?cs (podName ?p)"
  let ?h = "AList.update (podName ?p) (?e\<lparr>reCount := reCount ?e + 1, reLastDeleted := ?t\<rparr>) (readRebuildHistory ?cs)"
  show ?thesis
  proof (cases "encodeRebuildHistory (meta r) ?cs ?h")
    case None
    then show ?thesis
      using assms by (auto simp: attemptRebuild_def wp_simps Let_def intro!: onlyPersistedDeletes_none)
  next
    case (Some raw)
    let ?cs1 = "?cs\<lparr>csAnnotations := AList.update annotationRebuildHistory raw (csAnnotations ?cs)\<rparr>"
    have del: "onlyPersistedDeletes r s i t" if "hist t = es @ EvDeletePod ?p x #
        EvPatchSet ?cs ?cs1 None # EvNow ?t # ns @ hist s" "\<And>q x. EvDeletePod q x \<notin> set es" for t es x
      unfolding onlyPersistedDeletes_def
    proof (intro exI conjI allI impI)
      show "hist t = (es @ [EvDeletePod ?p x, EvPatchSet ?cs ?cs1 None] @ (EvNow ?t # ns)) @ hist s"
        using that by simp
      fix q y assume "EvDeletePod q y \<in> set (es @ [EvDeletePod ?p x, EvPatchSet ?cs ?cs1 None] @ (EvNow ?t # ns))"
      with that(2) assms(4) have "q = ?p" "y = x" by auto
      with Some left show "persistedDelete r ?cs ?p
          (es @ [EvDeletePod ?p x, EvPatchSet ?cs ?cs1 None] @ (EvNow ?t # ns)) q y"
        unfolding persistedDelete_def by blast
    qed
    have step: "wp (deleteForRebuild r ?p n reason) (\<lambda>_ t. onlyPersistedDeletes r s i t) v"
      if v: "hist v = EvPatchSet ?cs ?cs1 None # EvNow ?t # ns @ hist s" for v n
    proof -
      have "wp (deleteForRebuild r ?p n reason) (\<lambda>_ t. \<exists>es x. hist t = es @ EvDeletePod ?p x # hist v \<and>
          (\<forall>q y. EvDeletePod q y \<notin> set es)) v"
        by (auto simp: deleteForRebuild_def wp_simps Let_def split: option.split)
      then show ?thesis by (rule wp_mono) (auto simp: v intro: del)
    qed
    obtain err got where a: "cliPatchSet (cli r) (EvNow ?t # ns @ hist s) ?cs ?cs1 = (err, got)" by fastforce
    show ?thesis
    proof (cases err)
      case None
      with a Some assms(1-3) show ?thesis
        by (simp add: attemptRebuild_def wp_bind wp_theCS wp_podAt now_def wp_ask Let_def
            wp_patchRebuildHistory step)
    next
      case (Some e)
      with a \<open>encodeRebuildHistory _ _ _ = Some raw\<close> assms(1-4) show ?thesis
        by (auto simp: attemptRebuild_def wp_simps Let_def
            intro!: onlyPersistedDeletes_none [where es = "EvPatchSet _ _ _ # EvNow _ # ns"])
    qed
  qed
qed

text \<open>
  C12: the history is persisted before the delete. Whatever the outside world answers, a rebuild
  pass deletes no pod but the one it was called for, only while its count is below the limit, and
  only directly after a successful patch of the set whose history holds the incremented count; a
  failed patch is followed by no delete.
\<close>

theorem rebuild_persists_before_delete:
  "\<exists>es. hist (final (rebuildPod r i reason) s) = es @ hist s \<and>
     (\<forall>q x. EvDeletePod q x \<in> set es \<longrightarrow> persistedDelete r (theSet s) (podHeap s i) es q x)"
proof -
  have park: "wp (parkPod r i reason) (\<lambda>_ t. onlyPersistedDeletes r s i t) s"
  proof -
    have "emits (\<lambda>e. \<forall>q x. e \<noteq> EvDeletePod q x) (parkPod r i reason)"
      unfolding parkPod_def markDeadLetter_def by (intro emits_intros) simp_all
    from emits_wp [OF this] show ?thesis
      by (rule wp_mono) (auto simp: list_all_iff intro!: onlyPersistedDeletes_none)
  qed
  have "wp (rebuildPod r i reason) (\<lambda>_ t. onlyPersistedDeletes r s i t) s"
    using park wp_attempt_persisted [of s s "[]" i r reason]
      wp_attempt_persisted [of "s\<lparr>hist := EvNow (clock r (hist s)) # hist s\<rparr>" s "[EvNow (clock r (hist s))]" i r reason]
    by (auto simp: rebuildPod_def wp_bind wp_theCS wp_podAt now_def wp_ask Let_def wp_return wp_if
        intro!: onlyPersistedDeletes_none [where es = "[EvNow _]"])
  then show ?thesis by (simp add: wp_result_final onlyPersistedDeletes_def)
qed

text \<open>
  A parked pod waits for a spec edit. A pod whose dead-letter annotation names the current
  generation is neither deleted nor touched, terminal or drifted as it may be: triage answers that
  nothing was deleted and that nothing is to wait for, and makes no call at all.
\<close>

theorem parked_pod_untouched:
  assumes "map_of (podAnnotations (podHeap s i)) annotationDeadLetter =
    Some (formatInt (csGeneration (theSet s)))"
  shows "run_state (triagePod r i matches) s = ((False, 0, None), s)"
  using assms by (simp add: triagePod_def podAt_def theCS_def Let_def)

text \<open>
  C31: the rebuild history survives its annotation. When a history with 64-bit counts and
  generations is encoded for a set and stored, reading the annotation gives back the same entry
  for every pod the spec still names, and none for any other pod.
\<close>

theorem rebuild_history_roundtrip:
  assumes "encodeRebuildHistory M cs m = Some raw"
    and "\<forall>name e. map_of m name = Some e \<longrightarrow> validEntry e"
    and "strAt (csAnnotations cs') annotationRebuildHistory = raw"
  shows "map_of (readRebuildHistory cs') = map_of m |` set (desiredPodNames M cs)"
proof -
  obtain h where "Option.bind (parseJson raw) decodeHistory = Some h"
    "map_of h = map_of m |` set (desiredPodNames M cs)"
    using decode_encodeRebuildHistory [OF assms(1)] assms(2) by blast
  moreover have "raw \<noteq> []" using assms(1) encodeRebuildHistory_nonempty by fastforce
  ultimately show ?thesis using assms(3) by (simp add: readRebuildHistory_def)
qed

text \<open>
  C37: the backoff between attempts. After the first, second and third delete of a generation a
  further one waits one, five and thirty seconds: inside that time the pass deletes nothing,
  writes nothing, reads the clock once and answers the remaining time.
\<close>

theorem rebuild_backoff:
  assumes "reCount (currentEntry (theSet s) (podName (podHeap s i))) = n" and "n \<in> {1, 2, 3}"
    and "0 \<le> elapsed" and "elapsed < (if n = 1 then 1 else if n = 2 then 5 else 30) * second"
    and "clock r (hist s) = reLastDeleted (currentEntry (theSet s) (podName (podHeap s i))) + elapsed"
  shows "run_state (rebuildPod r i reason) s =
    ((False, (if n = 1 then 1 else if n = 2 then 5 else 30) * second - elapsed, None),
     s\<lparr>hist := EvNow (clock r (hist s)) # hist s\<rparr>)"
proof -
  have "elapsed < 30 * second" using assms(2,4) by (auto simp: second_def split: if_splits)
  then have "timeSub (clock r (hist s)) (reLastDeleted (currentEntry (theSet s) (podName (podHeap s i)))) = elapsed"
    using assms(3,5) by (simp add: timeSub_def second_def)
  moreover have "backoffDelay n = (if n = 1 then 1 else if n = 2 then 5 else 30) * second"
    using assms(2) by (auto simp: backoffDelay_def)
  moreover have "wrap64 ((if n = 1 then 1 else if n = 2 then 5 else 30) * second - elapsed) =
      (if n = 1 then 1 else if n = 2 then 5 else 30) * second - elapsed"
    using assms(3,4) by (intro wrap64_id) (auto simp: second_def split: if_splits)
  ultimately show ?thesis
    using assms(1,2,4)
    by (auto simp: rebuildPod_def theCS_def podAt_def now_def ask_def emit_def State_Monad.update_def
        Let_def maxRebuildAttempts_def second_def split: if_splits)
qed


section \<open>Concrete runs\<close>

definition demoWorld :: "cocoonSet \<Rightarrow> pod list \<Rightarrow> setWorld" where
  "demoWorld cs ps = \<lparr>hist = [], theSet = cs,
     podHeap = (\<lambda>i. if i < length ps then ps ! i else demoPod ''none'' [] [] [] []), intentMemo = None\<rparr>"

definition demoMain :: pod where
  "demoMain = demoPod ''s-0'' ''main'' ''0'' ''n1'' [(''vm'', ''vk-ns-s-0''), (''managed'', ''true'')]"

definition demoHistory :: "(string, rebuildEntry) gomap" where
  "demoHistory = [(''s-0'', \<lparr>reCount = 1, reLastDeleted = 5 * second, reGeneration = 3, reParked = False\<rparr>)]"

definition demoHistoryText :: string where
  "demoHistoryText = the (encodeRebuildHistory demoMeta demoSet demoHistory)"

definition demoRebuilt :: cocoonSet where
  "demoRebuilt = demoSet\<lparr>csAnnotations := [(annotationRebuildHistory, demoHistoryText)]\<rparr>"

lemma demo_history_text: "encodeRebuildHistory demoMeta demoSet demoHistory = Some demoHistoryText"
  by code_simp

lemma demo_history_entry: "currentEntry demoRebuilt ''s-0'' = snd (hd demoHistory)"
  by code_simp

lemma demo_quiet: "quietServer (demoEnv [] [] [] t)"
  by (auto simp: quietServer_def fixture_defs split: option.split)

lemma demo_rebuild_deletes:
  "EvDeletePod demoMain None \<in> set (hist (final (rebuildPod (demoEnv [] [] [] 0) 0 ''x'') (demoWorld demoSet [demoMain])))"
  by code_simp

lemma demo_desired: "''s-0'' \<in> set (desiredPodNames demoMeta demoSet)"
  by code_simp

lemma demo_fields [simp]:
  "meta (demoEnv pods hibs tags t) = demoMeta" "kube (demoEnv pods hibs tags t) = demoKube"
  "cli (demoEnv pods hibs tags t) = demoClient pods hibs"
  "registry (demoEnv pods hibs tags t) = demoRegistry tags" "clock (demoEnv pods hibs tags t) = (\<lambda>h. t)"
  "theSet (demoWorld cs ps) = cs" "hist (demoWorld cs ps) = []"
  "podHeap (demoWorld cs (p # ps)) 0 = p" "csGeneration demoSet = 3" "podName demoMain = ''s-0''"
  by (simp_all add: demoEnv_def demoWorld_def demoSet_def demoMain_def demoPod_def)


theorem rebuild_persists_before_delete_witness:
  "\<exists>es. EvDeletePod demoMain None \<in> set es \<and>
     persistedDelete (demoEnv [] [] [] 0) demoSet demoMain es demoMain None"
  using rebuild_persists_before_delete [of "demoEnv [] [] [] 0" 0 "''x''" "demoWorld demoSet [demoMain]"]
    demo_rebuild_deletes by auto

theorem parked_pod_untouched_witness:
  "run_state (triagePod (demoEnv [] [] [] 0) 0 False)
     (demoWorld demoSet [demoMain\<lparr>podAnnotations := [(annotationDeadLetter, ''3'')]\<rparr>]) =
   ((False, 0, None), demoWorld demoSet [demoMain\<lparr>podAnnotations := [(annotationDeadLetter, ''3'')]\<rparr>])"
  by (rule parked_pod_untouched) (simp, code_simp)

theorem rebuild_history_roundtrip_witness:
  "map_of (readRebuildHistory demoRebuilt) ''s-0'' = Some (snd (hd demoHistory))"
proof -
  have "strAt (csAnnotations demoRebuilt) annotationRebuildHistory = demoHistoryText"
    by (simp add: demoRebuilt_def strAt_def)
  from rebuild_history_roundtrip [OF demo_history_text _ this] show ?thesis
    using demo_desired by (simp add: demoHistory_def validEntry_def int64_def)
qed

theorem rebuild_backoff_witness:
  "fst (run_state (rebuildPod (demoEnv [] [] [] (5 * second + 7)) 0 ''x'') (demoWorld demoRebuilt [demoMain])) =
     (False, second - 7, None)"
proof -
  have "currentEntry demoRebuilt ''s-0'' = \<lparr>reCount = 1, reLastDeleted = 5 * second, reGeneration = 3, reParked = False\<rparr>"
    by (simp add: demo_history_entry demoHistory_def)
  with rebuild_backoff [of "demoWorld demoRebuilt [demoMain]" 0 1 7 "demoEnv [] [] [] (5 * second + 7)" "''x''"]
  show ?thesis by (simp add: second_def)
qed

end
