(* ===== verification/Snapshot.thy ===== *)
theory Snapshot
  imports Fixture
begin

text \<open>
  \<open>snapshot/registry.go\<close>: the registry operations both reconcilers share. Each is a short
  sequence of registry calls; the lemmas give their result on every branch and the calls they
  make. Deleting probes first, so a DELETE is never issued for a tag a probe did not report.
\<close>

definition DeleteManifestIfPresent ::
    "env \<Rightarrow> string \<Rightarrow> string \<Rightarrow> ('z world_scheme, gerr option) state" where
  "DeleteManifestIfPresent r name ref = do {
     probe \<leftarrow> hasManifest r name ref;
     case probe of
       Inl err \<Rightarrow> State_Monad.return (Some (ErrWrap (''probe snapshot '' @ name @ '':'' @ ref) err))
     | Inr present \<Rightarrow>
         if \<not> present then State_Monad.return None
         else deleteManifest r name ref
   }"

definition HasHibernateSnapshot ::
    "env \<Rightarrow> string \<Rightarrow> ('z world_scheme, gerr + bool) state" where
  "HasHibernateSnapshot r vm = do {
     probe \<leftarrow> hasManifest r vm (HibernateSnapshotTag (meta r));
     case probe of
       Inl err \<Rightarrow> State_Monad.return (Inl (ErrWrap (''probe hibernate snapshot '' @ vm) err))
     | Inr present \<Rightarrow> State_Monad.return (Inr present)
   }"

definition HibernateSnapshotImage ::
    "env \<Rightarrow> string \<Rightarrow> ('z world_scheme, gerr + string) state" where
  "HibernateSnapshotImage r vm = do {
     got \<leftarrow> getManifest r vm (HibernateSnapshotTag (meta r));
     case got of
       Inl err \<Rightarrow>
         if isManifestNotFound err then State_Monad.return (Inr [])
         else State_Monad.return (Inl (ErrWrap (''get hibernate manifest '' @ vm) err))
     | Inr raw \<Rightarrow>
         (case ManifestParse (kube r) raw of
            Inl err \<Rightarrow> State_Monad.return (Inl (ErrWrap (''parse hibernate manifest '' @ vm) err))
          | Inr annotations \<Rightarrow>
              State_Monad.return (Inr (strAt annotations (AnnotationSnapshotBaseImage (kube r)))))
   }"

lemma DeleteManifestIfPresent_wp [wp_simps]:
  "wp (DeleteManifestIfPresent r name ref) Q s =
     (let probe = regHasManifest (registry r) (hist s) name ref;
          s1 = s\<lparr>hist := EvHasManifest name ref probe # hist s\<rparr>
      in case probe of
           Inl err \<Rightarrow> Q (Some (ErrWrap (''probe snapshot '' @ name @ '':'' @ ref) err)) s1
         | Inr False \<Rightarrow> Q None s1
         | Inr True \<Rightarrow>
             let gone = regDeleteManifest (registry r) (hist s1) name ref
             in Q gone (s1\<lparr>hist := EvDeleteManifest name ref gone # hist s1\<rparr>))"
  by (simp add: DeleteManifestIfPresent_def wp_simps Let_def split: sum.split bool.split)

lemma HasHibernateSnapshot_wp [wp_simps]:
  "wp (HasHibernateSnapshot r vm) Q s =
     (let probe = regHasManifest (registry r) (hist s) vm (HibernateSnapshotTag (meta r));
          s1 = s\<lparr>hist := EvHasManifest vm (HibernateSnapshotTag (meta r)) probe # hist s\<rparr>
      in case probe of
           Inl err \<Rightarrow> Q (Inl (ErrWrap (''probe hibernate snapshot '' @ vm) err)) s1
         | Inr present \<Rightarrow> Q (Inr present) s1)"
  by (simp add: HasHibernateSnapshot_def wp_simps Let_def split: sum.split)

lemma DeleteManifestIfPresent_emits [emits_intros]:
  assumes "\<And>a. K (EvHasManifest name ref a)" and "\<And>a. K (EvDeleteManifest name ref a)"
  shows "emits K (DeleteManifestIfPresent r name ref)"
  unfolding DeleteManifestIfPresent_def call_defs by (intro emits_intros assms)

lemma HasHibernateSnapshot_emits [emits_intros]:
  assumes "\<And>a. K (EvHasManifest vm (HibernateSnapshotTag (meta r)) a)"
  shows "emits K (HasHibernateSnapshot r vm)"
  unfolding HasHibernateSnapshot_def call_defs by (intro emits_intros assms)

lemma HibernateSnapshotImage_emits [emits_intros]:
  assumes "\<And>a. K (EvGetManifest vm (HibernateSnapshotTag (meta r)) a)"
  shows "emits K (HibernateSnapshotImage r vm)"
  unfolding HibernateSnapshotImage_def call_defs by (intro emits_intros assms)

text \<open>
  Success of a delete is evidence: the tag was probed absent, or probed present and then
  deleted without error, with nothing in between.
\<close>

definition tagGone :: "history \<Rightarrow> string \<Rightarrow> string \<Rightarrow> bool" where
  "tagGone h name ref \<longleftrightarrow>
     EvHasManifest name ref (Inr False) \<in> set h \<or> EvDeleteManifest name ref None \<in> set h"

lemma tagGone_mono: "tagGone h name ref \<Longrightarrow> tagGone (es @ h) name ref"
  by (auto simp: tagGone_def)

lemma tagGone_Cons: "tagGone h name ref \<Longrightarrow> tagGone (e # h) name ref"
  by (auto simp: tagGone_def)

lemma DeleteManifestIfPresent_gone:
  "result (DeleteManifestIfPresent r name ref) s = None \<Longrightarrow>
     tagGone (hist (final (DeleteManifestIfPresent r name ref) s)) name ref"
proof -
  have "wp (DeleteManifestIfPresent r name ref) (\<lambda>e t. e = None \<longrightarrow> tagGone (hist t) name ref) s"
    by (simp add: wp_simps Let_def tagGone_def split: sum.split bool.split)
  then show "result (DeleteManifestIfPresent r name ref) s = None \<Longrightarrow> ?thesis"
    by (simp add: wp_result_final)
qed


section \<open>Property\<close>

text \<open>
  C39: deleting a tag probes it first. Whatever the registry answers, a DELETE is issued at most
  once, for the tag asked for, directly after a probe that reported it present; and a nil error
  means the tag is gone: it was probed absent, or deleted without error.
\<close>

theorem delete_tag_evidence:
  assumes "run_state (DeleteManifestIfPresent r name ref) s = (err, t)"
  shows "\<exists>es. hist t = es @ hist s \<and>
    (\<forall>n u x. EvDeleteManifest n u x \<in> set es \<longrightarrow>
       es = [EvDeleteManifest name ref x, EvHasManifest name ref (Inr True)] \<and> n = name \<and> u = ref) \<and>
    (err = None \<longrightarrow> tagGone es name ref)"
proof -
  let ?Q = "\<lambda>err t. \<exists>es. hist t = es @ hist s \<and>
    (\<forall>n u x. EvDeleteManifest n u x \<in> set es \<longrightarrow>
       es = [EvDeleteManifest name ref x, EvHasManifest name ref (Inr True)] \<and> n = name \<and> u = ref) \<and>
    (err = None \<longrightarrow> tagGone es name ref)"
  have "wp (DeleteManifestIfPresent r name ref) ?Q s"
    by (auto simp: wp_simps Let_def tagGone_def split: sum.split bool.split)
  from wpD [OF this assms] show ?thesis .
qed

lemma demo_delete:
  "run_state (DeleteManifestIfPresent (demoEnv [] [] [((''vm'', ''hibernate''), ''i'')] 0) ''vm'' ''hibernate'')
     \<lparr>hist = []\<rparr> =
   (None, \<lparr>hist = [EvDeleteManifest ''vm'' ''hibernate'' None, EvHasManifest ''vm'' ''hibernate'' (Inr True)]\<rparr>)"
  by code_simp

theorem delete_tag_evidence_witness:
  "\<exists>es. [EvDeleteManifest ''vm'' ''hibernate'' None, EvHasManifest ''vm'' ''hibernate'' (Inr True)] = es \<and>
     tagGone es ''vm'' ''hibernate''"
  using delete_tag_evidence [OF demo_delete] by simp

end
