(* ===== verification/Reclaim.thy ===== *)
theory Reclaim
  imports Rebuild Snapshot
begin

text \<open>
  The reclaim record of \<open>cocoonset/suspend.go\<close>: the VMs whose \<open>:hibernate\<close> tag the set still
  owes a delete, kept as JSON in an annotation. \<open>VMs\<close> are owed, \<open>Restore\<close> are those whose
  next pod must boot from the tag, \<open>Suspended\<close> those the current suspend wrote. The lemmas:
  the record reads back as it was written, and a VM leaves it only after its tag is gone.
\<close>

definition annotationHibernateReclaim :: string where
  "annotationHibernateReclaim = ''cocoonset.cocoonstack.io/hibernate-reclaim''"

record hibernateReclaim =
  rcGeneration :: int
  rcVMs :: "string list"
  rcRestore :: "string list"
  rcSuspended :: "string list"

definition emptyReclaim :: hibernateReclaim where
  "emptyReclaim = \<lparr>rcGeneration = 0, rcVMs = [], rcRestore = [], rcSuspended = []\<rparr>"

definition encodeReclaim :: "hibernateReclaim \<Rightarrow> json" where
  "encodeReclaim owed = JObj
     ([(''generation'', JNum (formatInt (rcGeneration owed))),
       (''vms'', JArr (map JStr (rcVMs owed)))] @
      (if rcRestore owed = [] then [] else [(''restore'', JArr (map JStr (rcRestore owed)))]) @
      (if rcSuspended owed = [] then [] else [(''suspended'', JArr (map JStr (rcSuspended owed)))]))"

fun decodeReclaim :: "json \<Rightarrow> hibernateReclaim option" where
  "decodeReclaim JNull = Some emptyReclaim"
| "decodeReclaim (JObj ms) = do {
     g \<leftarrow> fieldOf ms ''generation'' 0 decInt64;
     vms \<leftarrow> fieldOf ms ''vms'' [] decStrings;
     restore \<leftarrow> fieldOf ms ''restore'' [] decStrings;
     suspended \<leftarrow> fieldOf ms ''suspended'' [] decStrings;
     Some \<lparr>rcGeneration = g, rcVMs = vms, rcRestore = restore, rcSuspended = suspended\<rparr>
   }"
| "decodeReclaim _ = None"

definition readHibernateReclaim :: "cocoonSet \<Rightarrow> hibernateReclaim" where
  "readHibernateReclaim cs =
     (let raw = strAt (csAnnotations cs) annotationHibernateReclaim
      in if raw = [] then emptyReclaim
         else case Option.bind (parseJson raw) decodeReclaim of
                None \<Rightarrow> emptyReclaim
              | Some owed \<Rightarrow> owed)"

text \<open>The annotation's value: empty, which deletes it, when no VM is owed.\<close>

definition reclaimValue :: "hibernateReclaim \<Rightarrow> string option" where
  "reclaimValue owed = (if rcVMs owed = [] then Some [] else marshalJson (encodeReclaim owed))"

definition writeHibernateReclaim :: "env \<Rightarrow> hibernateReclaim \<Rightarrow> gerr option setIO" where
  "writeHibernateReclaim r owed = do {
     cs \<leftarrow> theCS;
     case reclaimValue owed of
       None \<Rightarrow> State_Monad.return (Some (ErrWrap
         (''encode hibernate reclaim of '' @ csNamespace cs @ ''/'' @ csName cs) (ErrMsg ''json'')))
     | Some value \<Rightarrow>
         if strAt (csAnnotations cs) annotationHibernateReclaim = value then State_Monad.return None
         else patchAnnotationSet r annotationHibernateReclaim value
   }"

definition appendManagedVM :: "metaPkg \<Rightarrow> string list \<Rightarrow> pod \<Rightarrow> string list" where
  "appendManagedVM M vms p =
     (let spec = ParseVMSpec M p
      in if vmManaged spec \<and> vmName spec \<noteq> [] \<and> vmName spec \<notin> set vms
         then vms @ [vmName spec] else vms)"

fun appendMissing :: "string list \<Rightarrow> string list \<Rightarrow> string list \<Rightarrow> string list" where
  "appendMissing live restore [] = restore"
| "appendMissing live restore (vm # vms) =
     appendMissing live
       (if vm \<notin> set live \<and> vm \<notin> set restore then restore @ [vm] else restore) vms"

definition appendMissingVMs ::
    "metaPkg \<Rightarrow> podStore \<Rightarrow> string list \<Rightarrow> string list \<Rightarrow> classifiedPods \<Rightarrow> string list" where
  "appendMissingVMs M H restore vms c =
     appendMissing (map (\<lambda>i. vmName (ParseVMSpec M (H i))) (sortedVals (clsAllByName c))) restore vms"

definition wokenAt :: "metaPkg \<Rightarrow> pod \<Rightarrow> int \<Rightarrow> bool" where
  "wokenAt M p generation =
     (let st = ReadLifecycleStatus M p
      in \<not> ReadHibernateState M p \<and> VMLive M p \<and> lsState st = LifecycleStateReady M \<and>
         generation \<le> lsObservedGeneration st)"

definition withoutVMs :: "string list \<Rightarrow> hibernateReclaim \<Rightarrow> hibernateReclaim" where
  "withoutVMs vms owed =
     (let forget = (\<lambda>vm. vm \<in> set vms)
      in owed\<lparr>rcVMs := deleteFunc forget (rcVMs owed), rcRestore := deleteFunc forget (rcRestore owed),
           rcSuspended := deleteFunc forget (rcSuspended owed)\<rparr>)"

definition forgetReclaim :: "env \<Rightarrow> string list \<Rightarrow> gerr option setIO" where
  "forgetReclaim r vms = do {
     cs \<leftarrow> theCS;
     let owed = readHibernateReclaim cs;
     if \<not> list_ex (\<lambda>vm. vm \<in> set vms) (rcVMs owed) then State_Monad.return None
     else writeHibernateReclaim r (withoutVMs vms owed)
   }"

text \<open>The loop of \<open>reclaimSnapshots\<close>: the reclaimed VMs and the errors, in order.\<close>

fun reclaimLoop ::
    "env \<Rightarrow> string list \<Rightarrow> string list \<Rightarrow> (string list \<times> gerr option list) setIO" where
  "reclaimLoop r vms [] = State_Monad.return ([], [])"
| "reclaimLoop r vms (vm # rest) =
     (if vm \<notin> set vms then reclaimLoop r vms rest
      else do {
        err \<leftarrow> DeleteManifestIfPresent r vm (HibernateSnapshotTag (meta r));
        (reclaimed, errs) \<leftarrow> reclaimLoop r vms rest;
        State_Monad.return (case err of
            Some e \<Rightarrow> (reclaimed, Some (ErrWrap
              (''reclaim '' @ vm @ '':'' @ HibernateSnapshotTag (meta r)) e) # errs)
          | None \<Rightarrow> (vm # reclaimed, errs))
      })"

definition reclaimSnapshots :: "env \<Rightarrow> string list \<Rightarrow> gerr option setIO" where
  "reclaimSnapshots r vms = do {
     cs \<leftarrow> theCS;
     (reclaimed, errs) \<leftarrow> reclaimLoop r vms (rcVMs (readHibernateReclaim cs));
     err \<leftarrow> forgetReclaim r reclaimed;
     State_Monad.return (joinErrs (errs @ [err]))
   }"

text \<open>
  The Go loop visits the pods in map order; only membership in the resulting list is used, so
  the sorted order stands for every order.
\<close>

definition reclaimWokenSnapshots :: "env \<Rightarrow> classifiedPods \<Rightarrow> gerr option setIO" where
  "reclaimWokenSnapshots r c = do {
     cs \<leftarrow> theCS;
     let owed = readHibernateReclaim cs;
     if rcVMs owed = [] then State_Monad.return None
     else do {
       s \<leftarrow> State_Monad.get;
       let pods = map (podHeap s) (sortedVals (clsAllByName c));
       let woken = map (\<lambda>p. vmName (ParseVMSpec (meta r) p))
         (filter (\<lambda>p. wokenAt (meta r) p (rcGeneration owed)) pods);
       reclaimSnapshots r woken
     }
   }"


section \<open>Codec\<close>

lemma encodeReclaim_wf: "wfJson (encodeReclaim owed)"
  using validNum_formatInt by (auto simp: encodeReclaim_def list_all_iff)

lemma decode_encodeReclaim: "int64 (rcGeneration owed) \<Longrightarrow> decodeReclaim (encodeReclaim owed) = Some owed"
  by (cases "rcRestore owed = []"; cases "rcSuspended owed = []")
    (simp_all add: encodeReclaim_def fieldOf_def del: decStrings.simps)

lemma marshal_nonempty: "marshalJson (encodeReclaim owed) \<noteq> Some []"
  by (simp add: encodeReclaim_def marshalJson_def Let_def)

text \<open>
  C30: the reclaim record survives its annotation. When the value written for a record is stored
  in the set, reading it gives back the same generation, owed VMs, restore list and suspended
  list, in order; a record that owes nothing is written as no annotation and reads back as the
  empty record.
\<close>

theorem reclaim_roundtrip:
  assumes "reclaimValue owed = Some value" and "int64 (rcGeneration owed)"
    and "strAt (csAnnotations cs) annotationHibernateReclaim = value"
  shows "readHibernateReclaim cs = (if rcVMs owed = [] then emptyReclaim else owed)"
proof (cases "rcVMs owed = []")
  case True
  with assms show ?thesis by (simp add: reclaimValue_def readHibernateReclaim_def)
next
  case False
  with assms(1) have m: "marshalJson (encodeReclaim owed) = Some value" by (simp add: reclaimValue_def)
  then have "value \<noteq> []" using marshal_nonempty by fastforce
  moreover have "Option.bind (parseJson value) decodeReclaim = Some owed"
    using parseJson_printJson [OF encodeReclaim_wf m] decode_encodeReclaim [OF assms(2)] by simp
  ultimately show ?thesis using False assms(3) by (simp add: readHibernateReclaim_def)
qed

definition demoOwed :: hibernateReclaim where
  "demoOwed = \<lparr>rcGeneration = 3, rcVMs = [''vk-ns-s-0'', ''vk-ns-s-1''], rcRestore = [''vk-ns-s-1''], rcSuspended = []\<rparr>"

definition demoOwedText :: string where
  "demoOwedText = the (reclaimValue demoOwed)"

lemma demo_owed_text: "reclaimValue demoOwed = Some demoOwedText"
  by code_simp

definition demoOwing :: cocoonSet where
  "demoOwing = demoSet\<lparr>csAnnotations := [(annotationHibernateReclaim, demoOwedText)]\<rparr>"

theorem reclaim_roundtrip_witness: "readHibernateReclaim demoOwing = demoOwed"
  using reclaim_roundtrip [OF demo_owed_text, of demoOwing]
  by (simp add: demoOwing_def demoOwed_def strAt_def int64_def)


section \<open>Footprints\<close>

lemma writeHibernateReclaim_emits [emits_intros]:
  "(\<And>cs v e. K (EvAnnotateSet cs annotationHibernateReclaim v e)) \<Longrightarrow> emits K (writeHibernateReclaim r owed)"
  unfolding writeHibernateReclaim_def by (intro emits_intros)

lemma forgetReclaim_emits [emits_intros]:
  "(\<And>cs v e. K (EvAnnotateSet cs annotationHibernateReclaim v e)) \<Longrightarrow> emits K (forgetReclaim r vms)"
  unfolding forgetReclaim_def by (intro emits_intros)

lemma reclaimLoop_emits [emits_intros]:
  assumes "\<And>vm a. K (EvHasManifest vm (HibernateSnapshotTag (meta r)) a)"
    and "\<And>vm a. K (EvDeleteManifest vm (HibernateSnapshotTag (meta r)) a)"
  shows "emits K (reclaimLoop r vms vs)"
  by (induction vs) (auto intro!: emits_intros assms)

lemma reclaimSnapshots_emits [emits_intros]:
  assumes "\<And>vm a. K (EvHasManifest vm (HibernateSnapshotTag (meta r)) a)"
    and "\<And>vm a. K (EvDeleteManifest vm (HibernateSnapshotTag (meta r)) a)"
    and "\<And>cs v e. K (EvAnnotateSet cs annotationHibernateReclaim v e)"
  shows "emits K (reclaimSnapshots r vms)"
  unfolding reclaimSnapshots_def by (intro emits_intros assms)

lemma reclaimWokenSnapshots_emits [emits_intros]:
  assumes "\<And>vm a. K (EvHasManifest vm (HibernateSnapshotTag (meta r)) a)"
    and "\<And>vm a. K (EvDeleteManifest vm (HibernateSnapshotTag (meta r)) a)"
    and "\<And>cs v e. K (EvAnnotateSet cs annotationHibernateReclaim v e)"
  shows "emits K (reclaimWokenSnapshots r c)"
  unfolding reclaimWokenSnapshots_def by (intro emits_intros assms)


section \<open>Leaving the record\<close>

text \<open>The loop touches the registry only; every VM it reports reclaimed has lost its tag.\<close>

lemma wp_reclaimLoop:
  "wp (reclaimLoop r vms vs) (\<lambda>(reclaimed, errs) t. theSet t = theSet s \<and> podHeap t = podHeap s \<and>
     set reclaimed \<subseteq> set vms \<inter> set vs \<and>
     (\<exists>es. hist t = es @ hist s \<and> (\<forall>e\<in>set es. \<exists>n u a. e = EvHasManifest n u a \<or> (\<exists>x. e = EvDeleteManifest n u x)) \<and>
       (\<forall>vm\<in>set reclaimed. tagGone es vm (HibernateSnapshotTag (meta r))))) s"
    (is "wp _ (?Q vs s) s")
proof (induction vs arbitrary: s)
  case Nil
  then show ?case by (simp add: wp_simps)
next
  case (Cons vm vs)
  let ?tag = "HibernateSnapshotTag (meta r)"
  show ?case
  proof (cases "vm \<in> set vms")
    case False
    then show ?thesis using Cons.IH by (auto simp: elim!: wp_mono)
  next
    case True
    have step: "wp (do {
          (reclaimed, errs) \<leftarrow> reclaimLoop r vms vs;
          State_Monad.return (case err of
              Some e \<Rightarrow> (reclaimed, Some (ErrWrap (''reclaim '' @ vm @ '':'' @ ?tag) e) # errs)
            | None \<Rightarrow> (vm # reclaimed, errs))
        }) (?Q (vm # vs) s) u"
      if u: "theSet u = theSet s" "podHeap u = podHeap s" "hist u = fs @ hist s"
        "\<forall>e\<in>set fs. \<exists>n u a. e = EvHasManifest n u a \<or> (\<exists>x. e = EvDeleteManifest n u x)"
        "err = None \<Longrightarrow> tagGone fs vm ?tag" for u fs err
      unfolding wp_bind
    proof (rule wp_mono [OF Cons.IH], clarify)
      fix reclaimed errs es and t :: setWorld
      assume t: "theSet t = theSet u" "podHeap t = podHeap u" "set reclaimed \<subseteq> set vms \<inter> set vs"
        "hist t = es @ hist u"
        "\<forall>e\<in>set es. \<exists>n u a. e = EvHasManifest n u a \<or> (\<exists>x. e = EvDeleteManifest n u x)"
        "\<forall>vm\<in>set reclaimed. tagGone es vm ?tag"
      have "tagGone (es @ fs) v ?tag" if "v \<in> set reclaimed \<or> (v = vm \<and> err = None)" for v
        using that t(6) u(5) by (auto simp: tagGone_def)
      then show "wp (State_Monad.return (case err of
              Some e \<Rightarrow> (reclaimed, Some (ErrWrap (''reclaim '' @ vm @ '':'' @ ?tag) e) # errs)
            | None \<Rightarrow> (vm # reclaimed, errs))) (?Q (vm # vs) s) t"
        using t u True by (auto simp: wp_return split: option.split intro!: exI [of _ "es @ fs"])
    qed
    show ?thesis
    proof (cases "regHasManifest (registry r) (hist s) vm ?tag")
      case (Inl e)
      with True step [of _ "[EvHasManifest vm ?tag (Inl e)]" "Some _"] show ?thesis
        by (simp add: wp_bind wp_if wp_simps Let_def)
    next
      case (Inr present)
      with True step [of _ "[EvHasManifest vm ?tag (Inr False)]" None]
        step [of _ "[EvDeleteManifest vm ?tag _, EvHasManifest vm ?tag (Inr True)]"]
      show ?thesis
        by (auto simp: wp_bind wp_if wp_simps Let_def tagGone_def split: bool.split)
    qed
  qed
qed

text \<open>What a write of the record sends, if anything: the value of the record.\<close>

lemma wp_writeReclaim:
  "wp (writeHibernateReclaim r owed) (\<lambda>_ t. podHeap t = podHeap s \<and> (hist t = hist s \<and> theSet t = theSet s \<or>
     (\<exists>v e. hist t = EvAnnotateSet (theSet s) annotationHibernateReclaim v e # hist s \<and>
        reclaimValue owed = Some (case v of None \<Rightarrow> [] | Some x \<Rightarrow> x)))) s"
  by (auto simp: writeHibernateReclaim_def wp_simps Let_def split: option.split)

lemma wp_forgetReclaim:
  "wp (forgetReclaim r vms) (\<lambda>_ t. podHeap t = podHeap s \<and> (hist t = hist s \<and> theSet t = theSet s \<or>
     (\<exists>v e. hist t = EvAnnotateSet (theSet s) annotationHibernateReclaim v e # hist s \<and>
        reclaimValue (withoutVMs vms (readHibernateReclaim (theSet s))) =
          Some (case v of None \<Rightarrow> [] | Some x \<Rightarrow> x)))) s"
  using wp_writeReclaim [of r "withoutVMs vms (readHibernateReclaim (theSet s))" s]
  by (simp add: forgetReclaim_def wp_bind wp_theCS wp_if wp_return Let_def)

text \<open>
  C11: a VM leaves the reclaim record only after its tag is gone. Reclaiming writes the record at
  most once, after all registry calls; the record it writes is the stored one without some of the
  requested VMs, and for each of these the registry reported the \<open>:hibernate\<close> tag absent or
  deleted it. A VM whose delete failed stays owed.
\<close>

theorem reclaim_forgets_only_gone:
  "\<exists>es sent. hist (final (reclaimSnapshots r vms) s) = sent @ es @ hist s \<and>
     (\<forall>e\<in>set es. \<exists>n u a. e = EvHasManifest n u a \<or> (\<exists>x. e = EvDeleteManifest n u x)) \<and>
     (sent = [] \<or>
      (\<exists>gone v e. sent = [EvAnnotateSet (theSet s) annotationHibernateReclaim v e] \<and>
         set gone \<subseteq> set vms \<and> (\<forall>vm\<in>set gone. tagGone es vm (HibernateSnapshotTag (meta r))) \<and>
         reclaimValue (withoutVMs gone (readHibernateReclaim (theSet s))) =
           Some (case v of None \<Rightarrow> [] | Some x \<Rightarrow> x)))" (is "?P (final (reclaimSnapshots r vms) s)")
proof -
  have "wp (reclaimSnapshots r vms) (\<lambda>_. ?P) s"
    unfolding reclaimSnapshots_def wp_bind wp_theCS
  proof (rule wp_mono [OF wp_reclaimLoop], clarify)
    fix gone errs es and t :: setWorld
    assume t: "theSet t = theSet s" "set gone \<subseteq> set vms \<inter> set (rcVMs (readHibernateReclaim (theSet s)))"
      "hist t = es @ hist s"
      "\<forall>e\<in>set es. \<exists>n u a. e = EvHasManifest n u a \<or> (\<exists>x. e = EvDeleteManifest n u x)"
      "\<forall>vm\<in>set gone. tagGone es vm (HibernateSnapshotTag (meta r))"
    show "wp (do { err \<leftarrow> forgetReclaim r gone; State_Monad.return (joinErrs (errs @ [err])) }) (\<lambda>_. ?P) t"
      unfolding wp_bind wp_return
    proof (rule wp_mono [OF wp_forgetReclaim], elim conjE disjE exE)
      fix u :: setWorld assume "hist u = hist t"
      then show "?P u" using t by (intro exI [of _ es] exI [of _ "[]"]) simp
    next
      fix v e and u :: setWorld
      assume u: "hist u = EvAnnotateSet (theSet t) annotationHibernateReclaim v e # hist t"
        "reclaimValue (withoutVMs gone (readHibernateReclaim (theSet t))) =
          Some (case v of None \<Rightarrow> [] | Some x \<Rightarrow> x)"
      have sub: "set gone \<subseteq> set vms" using t(2) by simp
      show "?P u"
        by (rule exI [of _ es], rule exI [of _ "[EvAnnotateSet (theSet s) annotationHibernateReclaim v e]"],
            intro conjI disjI2 exI [of _ gone] exI [of _ v] exI [of _ e])
          (use u t sub in simp_all)
    qed
  qed
  then show ?thesis by (simp add: wp_result_final)
qed

theorem reclaim_forgets_only_gone_witness:
  "\<exists>es sent. hist (final (reclaimSnapshots (demoEnv [] [] [] 0) [''vk-ns-s-1'']) (demoWorld demoOwing [])) = sent @ es \<and>
     (sent = [] \<or> (\<exists>gone. set gone \<subseteq> {''vk-ns-s-1''} \<and> (\<forall>vm\<in>set gone. tagGone es vm ''hibernate'')))"
proof -
  have tag: "HibernateSnapshotTag demoMeta = ''hibernate''" by (simp add: demoMeta_def)
  from reclaim_forgets_only_gone [of "demoEnv [] [] [] 0" "[''vk-ns-s-1'']" "demoWorld demoOwing []"]
  show ?thesis by (elim exE conjE) (auto simp: tag)
qed

end
