(* ===== verification/Restore.thy ===== *)
theory Restore
  imports Reclaim
begin

text \<open>
  \<open>cocoonset/restore.go\<close> and \<open>podsHibernatedByCR\<close> of \<open>suspend.go\<close>: which pods the
  namespace's CocoonHibernations speak for, whether a pod being built boots from its
  \<open>:hibernate\<close> tag, and the tag that was pushed from another image. A restore intent is
  loaded at most once: \<open>IntentOnce\<close> reads through the memo cell, \<open>IntentFixed\<close> is the
  constant closure of \<open>reconcileSuspend\<close>. A pod under construction is a value; the functions
  that mark it return it.
\<close>

datatype restoreIntent = IntentOnce string | IntentFixed "string list"

definition hibernationPodNames ::
    "env \<Rightarrow> string \<Rightarrow> (cocoonHibernation \<Rightarrow> bool) \<Rightarrow> (gerr + string list) setIO" where
  "hibernationPodNames r ns accept = do {
     got \<leftarrow> listHibs r ns;
     case got of
       Inl err \<Rightarrow> State_Monad.return (Inl (ErrWrap (''list cocoonhibernations in '' @ ns) err))
     | Inr items \<Rightarrow>
         State_Monad.return (Inr (map hbPodRef (filter (\<lambda>h. hbPodRef h \<noteq> [] \<and> accept h) items)))
   }"

definition trackedByCR :: "cocoonHibernation \<Rightarrow> bool" where
  "trackedByCR h =
     (if hbDeletionTimestamp h \<noteq> None then False
      else hsObservedGeneration (hbStatus h) \<noteq> hbGeneration h \<or> hsPhase (hbStatus h) \<noteq> HPActive)"

definition podsTrackedByHibernationCR :: "env \<Rightarrow> string \<Rightarrow> (gerr + string list) setIO" where
  "podsTrackedByHibernationCR r ns = hibernationPodNames r ns trackedByCR"

definition restorableByCR :: "cocoonHibernation \<Rightarrow> bool" where
  "restorableByCR h \<longleftrightarrow> hsPhase (hbStatus h) = HPHibernated \<or> hsPhase (hbStatus h) = HPWaking"

definition podsRestorableByCR :: "env \<Rightarrow> string \<Rightarrow> (gerr + string list) setIO" where
  "podsRestorableByCR r ns = hibernationPodNames r ns restorableByCR"

definition hibernatedByCR :: "cocoonHibernation \<Rightarrow> bool" where
  "hibernatedByCR h \<longleftrightarrow> hbDesire h = DesireHibernate \<or> hsPhase (hbStatus h) = HPHibernating"

definition podsHibernatedByCR :: "env \<Rightarrow> string \<Rightarrow> (gerr + string list) setIO" where
  "podsHibernatedByCR r ns = hibernationPodNames r ns hibernatedByCR"

definition newRestoreIntent :: "string \<Rightarrow> restoreIntent setIO" where
  "newRestoreIntent ns = do {
     State_Monad.update (\<lambda>s. s\<lparr>intentMemo := None\<rparr>);
     State_Monad.return (IntentOnce ns)
   }"

fun runIntent :: "env \<Rightarrow> restoreIntent \<Rightarrow> (gerr + string list) setIO" where
  "runIntent r (IntentFixed names) = State_Monad.return (Inr names)"
| "runIntent r (IntentOnce ns) = do {
     s \<leftarrow> State_Monad.get;
     case intentMemo s of
       Some got \<Rightarrow> State_Monad.return got
     | None \<Rightarrow> do {
         got \<leftarrow> podsRestorableByCR r ns;
         State_Monad.update (\<lambda>s. s\<lparr>intentMemo := Some got\<rparr>);
         State_Monad.return got
       }
   }"

definition markRestoreIfHibernated :: "env \<Rightarrow> pod \<Rightarrow> bool \<Rightarrow> (gerr option \<times> pod) setIO" where
  "markRestoreIfHibernated r p intent =
     (if \<not> intent then State_Monad.return (None, p)
      else do {
        got \<leftarrow> HasHibernateSnapshot r (vmName (ParseVMSpec (meta r) p));
        case got of
          Inl err \<Rightarrow> State_Monad.return (Some err, p)
        | Inr present \<Rightarrow>
            State_Monad.return (None, if present then MarkRestoreFromHibernate (meta r) p else p)
      })"

definition markRestoreFromIntent :: "env \<Rightarrow> pod \<Rightarrow> restoreIntent \<Rightarrow> (gerr option \<times> pod) setIO" where
  "markRestoreFromIntent r p intent = do {
     cs \<leftarrow> theCS;
     if vmName (ParseVMSpec (meta r) p) \<in> set (rcRestore (readHibernateReclaim cs))
     then markRestoreIfHibernated r p True
     else do {
       got \<leftarrow> runIntent r intent;
       case got of
         Inl err \<Rightarrow> State_Monad.return (Some err, p)
       | Inr restorable \<Rightarrow> markRestoreIfHibernated r p (podName p \<in> set restorable)
     }
   }"

definition dropImageConflict :: "env \<Rightarrow> pod \<Rightarrow> (bool \<times> gerr option) setIO" where
  "dropImageConflict r p =
     (let spec = ParseVMSpec (meta r) p
      in if \<not> vmManaged spec then State_Monad.return (False, None)
         else do {
           got \<leftarrow> HibernateSnapshotImage r (vmName spec);
           case got of
             Inl err \<Rightarrow> State_Monad.return (False, Some err)
           | Inr pushed \<Rightarrow>
               if pushed = [] \<or> pushed = vmImage spec then State_Monad.return (False, None)
               else do {
                 err \<leftarrow> deleteManifest r (vmName spec) (HibernateSnapshotTag (meta r));
                 case err of
                   Some e \<Rightarrow> State_Monad.return
                     (False, Some (ErrWrap (''drop hibernate snapshot '' @ vmName spec) e))
                 | None \<Rightarrow> State_Monad.return (True, None)
               }
         })"

definition discardImageConflict :: "env \<Rightarrow> pod \<Rightarrow> (bool \<times> gerr option) setIO" where
  "discardImageConflict r p = do {
     (dropped, err) \<leftarrow> dropImageConflict r p;
     if err \<noteq> None \<or> \<not> dropped then State_Monad.return (False, err)
     else do {
       err \<leftarrow> forgetReclaim r [vmName (ParseVMSpec (meta r) p)];
       State_Monad.return (True, err)
     }
   }"


section \<open>Footprints\<close>

lemma hibernationPodNames_emits [emits_intros]:
  "(\<And>a. K (EvListHibs ns a)) \<Longrightarrow> emits K (hibernationPodNames r ns accept)"
  unfolding hibernationPodNames_def call_defs by (intro emits_intros)

lemma pods_by_CR_emits [emits_intros]:
  assumes "\<And>a. K (EvListHibs ns a)"
  shows "emits K (podsTrackedByHibernationCR r ns)" and "emits K (podsRestorableByCR r ns)"
    and "emits K (podsHibernatedByCR r ns)"
  unfolding podsTrackedByHibernationCR_def podsRestorableByCR_def podsHibernatedByCR_def
  by (intro emits_intros assms)+

lemma newRestoreIntent_emits [emits_intros]: "emits K (newRestoreIntent ns)"
  unfolding newRestoreIntent_def by (intro emits_intros) simp

lemma runIntent_emits [emits_intros]:
  "(\<And>ns a. K (EvListHibs ns a)) \<Longrightarrow> emits K (runIntent r intent)"
  by (cases intent) (auto intro!: emits_intros)

lemma markRestoreIfHibernated_emits [emits_intros]:
  "(\<And>vm a. K (EvHasManifest vm (HibernateSnapshotTag (meta r)) a)) \<Longrightarrow>
     emits K (markRestoreIfHibernated r p intent)"
  unfolding markRestoreIfHibernated_def by (intro emits_intros)

lemma markRestoreFromIntent_emits [emits_intros]:
  assumes "\<And>ns a. K (EvListHibs ns a)" and "\<And>vm a. K (EvHasManifest vm (HibernateSnapshotTag (meta r)) a)"
  shows "emits K (markRestoreFromIntent r p intent)"
  unfolding markRestoreFromIntent_def by (intro emits_intros assms)

lemma dropImageConflict_emits [emits_intros]:
  assumes "\<And>vm a. K (EvGetManifest vm (HibernateSnapshotTag (meta r)) a)"
    and "\<And>vm a. K (EvDeleteManifest vm (HibernateSnapshotTag (meta r)) a)"
  shows "emits K (dropImageConflict r p)"
  unfolding dropImageConflict_def call_defs by (intro emits_intros assms)

lemma discardImageConflict_emits [emits_intros]:
  assumes "\<And>vm a. K (EvGetManifest vm (HibernateSnapshotTag (meta r)) a)"
    and "\<And>vm a. K (EvDeleteManifest vm (HibernateSnapshotTag (meta r)) a)"
    and "\<And>cs v e. K (EvAnnotateSet cs annotationHibernateReclaim v e)"
  shows "emits K (discardImageConflict r p)"
  unfolding discardImageConflict_def by (intro emits_intros assms)


section \<open>Marking a restore\<close>

text \<open>
  \<open>marked r es p q\<close>: after the events \<open>es\<close>, \<open>q\<close> is \<open>p\<close> marked to boot from its tag,
  with a probe that reported the tag; or \<open>p\<close> itself, with no probe that failed or reported
  the tag.
\<close>

definition marked :: "env \<Rightarrow> history \<Rightarrow> pod \<Rightarrow> pod \<Rightarrow> bool" where
  "marked r es p q \<longleftrightarrow>
     (let vm = vmName (ParseVMSpec (meta r) p); tag = HibernateSnapshotTag (meta r) in
      if \<exists>a. EvHasManifest vm tag a \<in> set es \<and> a \<noteq> Inr False
      then q = MarkRestoreFromHibernate (meta r) p \<and> EvHasManifest vm tag (Inr True) \<in> set es
      else q = p)"

lemma marked_probed:
  assumes "\<And>a. EvHasManifest (vmName (ParseVMSpec (meta r) p)) (HibernateSnapshotTag (meta r)) a \<notin> set fs"
  shows "marked r fs p p"
    and "marked r (EvHasManifest (vmName (ParseVMSpec (meta r) p)) (HibernateSnapshotTag (meta r)) (Inr present) # fs)
      p (if present then MarkRestoreFromHibernate (meta r) p else p)"
  using assms by (auto simp: marked_def Let_def)

lemma marked_frame:
  assumes "\<And>n u a. EvHasManifest n u a \<notin> set xs" and "\<And>n u a. EvHasManifest n u a \<notin> set ys"
  shows "marked r (xs @ es @ ys) p q = marked r es p q"
  using assms by (auto simp: marked_def Let_def)

lemma wp_markRestoreIfHibernated [wp_simps]:
  "wp (markRestoreIfHibernated r p intent) Q s =
     (if \<not> intent then Q (None, p) s
      else let vm = vmName (ParseVMSpec (meta r) p); tag = HibernateSnapshotTag (meta r);
               probe = regHasManifest (registry r) (hist s) vm tag;
               s1 = s\<lparr>hist := EvHasManifest vm tag probe # hist s\<rparr>
           in case probe of
                Inl err \<Rightarrow> Q (Some (ErrWrap (''probe hibernate snapshot '' @ vm) err), p) s1
              | Inr present \<Rightarrow> Q (None, if present then MarkRestoreFromHibernate (meta r) p else p) s1)"
  by (simp add: markRestoreIfHibernated_def wp_simps Let_def split: sum.split)

lemma wp_runIntent:
  "wp (runIntent r intent) (\<lambda>got t. theSet t = theSet s \<and> podHeap t = podHeap s \<and>
     (hist t = hist s \<or> (\<exists>ns a. hist t = EvListHibs ns a # hist s))) s"
  by (cases intent)
    (auto simp: podsRestorableByCR_def hibernationPodNames_def wp_simps split: option.split sum.split)

text \<open>Marking fails closed: without an error the pod is marked as the probes say.\<close>

lemma wp_markRestoreFromIntent:
  "wp (markRestoreFromIntent r p intent) (\<lambda>(err, q) t. theSet t = theSet s \<and> podHeap t = podHeap s \<and>
     (\<exists>es. hist t = es @ hist s \<and>
        (\<forall>e\<in>set es. \<exists>n u a. e = EvHasManifest n u a \<or> (\<exists>ns b. e = EvListHibs ns b)) \<and>
        (err = None \<longrightarrow> marked r es p q))) s"
proof -
  let ?vm = "vmName (ParseVMSpec (meta r) p)" and ?tag = "HibernateSnapshotTag (meta r)"
  let ?Q = "\<lambda>(err, q) t. theSet t = theSet s \<and> podHeap t = podHeap s \<and>
     (\<exists>es. hist t = es @ hist s \<and>
        (\<forall>e\<in>set es. \<exists>n u a. e = EvHasManifest n u a \<or> (\<exists>ns b. e = EvListHibs ns b)) \<and>
        (err = None \<longrightarrow> marked r es p q))"
  have mark: "wp (markRestoreIfHibernated r p want) ?Q u"
    if u: "theSet u = theSet s" "podHeap u = podHeap s" "hist u = fs @ hist s"
      "\<forall>e\<in>set fs. \<exists>ns b. e = EvListHibs ns b" for u fs want
  proof -
    have none: "EvHasManifest ?vm ?tag a \<notin> set fs" for a using u(4) by auto
    let ?a = "regHasManifest (registry r) (hist u) ?vm ?tag"
    have kinds: "\<forall>e\<in>set (EvHasManifest ?vm ?tag ?a # fs). \<exists>n u a. e = EvHasManifest n u a \<or> (\<exists>ns b. e = EvListHibs ns b)"
      and kinds': "\<forall>e\<in>set fs. \<exists>n u a. e = EvHasManifest n u a \<or> (\<exists>ns b. e = EvListHibs ns b)"
      using u(4) by auto
    show ?thesis
    proof (cases want)
      case False
      with u kinds' marked_probed(1) [OF none] show ?thesis
        by (simp add: wp_simps)
    next
      case True
      have answer: "?Q (err, q) (u\<lparr>hist := EvHasManifest ?vm ?tag ?a # hist u\<rparr>)"
        if "err = None \<Longrightarrow> marked r (EvHasManifest ?vm ?tag ?a # fs) p q" for err q
        using that u kinds by (simp only: prod.case, intro conjI exI [of _ "EvHasManifest ?vm ?tag ?a # fs"]) simp_all
      show ?thesis
      proof (cases ?a)
        case (Inl e)
        with True answer [of "Some (ErrWrap (''probe hibernate snapshot '' @ ?vm) e)" p] show ?thesis
          by (simp add: wp_simps Let_def)
      next
        case (Inr present)
        with True marked_probed(2) [OF none, of present]
          answer [of None "if present then MarkRestoreFromHibernate (meta r) p else p"]
        show ?thesis by (simp add: wp_simps Let_def)
      qed
    qed
  qed
  show ?thesis
  proof (cases "?vm \<in> set (rcRestore (readHibernateReclaim (theSet s)))")
    case True
    with mark [of s "[]" True] show ?thesis by (simp add: markRestoreFromIntent_def wp_bind wp_theCS wp_if)
  next
    case False
    have "wp (runIntent r intent) (\<lambda>got. wp (case got of
         Inl err \<Rightarrow> State_Monad.return (Some err, p)
       | Inr restorable \<Rightarrow> markRestoreIfHibernated r p (podName p \<in> set restorable)) ?Q) s"
    proof (rule wp_mono [OF wp_runIntent], elim conjE)
      fix got and t :: setWorld
      assume t: "theSet t = theSet s" "podHeap t = podHeap s"
        "hist t = hist s \<or> (\<exists>ns a. hist t = EvListHibs ns a # hist s)"
      then obtain fs where fs: "hist t = fs @ hist s" "\<forall>e\<in>set fs. \<exists>ns b. e = EvListHibs ns b"
        by (metis append.left_neutral append_Cons empty_iff empty_set set_ConsD)
      with t mark [of t fs] show "wp (case got of
         Inl err \<Rightarrow> State_Monad.return (Some err, p)
       | Inr restorable \<Rightarrow> markRestoreIfHibernated r p (podName p \<in> set restorable)) ?Q t"
        by (fastforce simp: wp_return split: sum.split)
    qed
    with False show ?thesis by (simp add: markRestoreFromIntent_def wp_bind wp_theCS wp_if)
  qed
qed

end
