(* ===== verification/MainAgent.thy ===== *)
theory MainAgent
  imports Restore
begin

text \<open>
  The main agent's part of \<open>cocoonset/reconciler.go\<close>: creating it, rebuilding it when it
  drifted, and reporting its failure; with \<open>mainOffTarget\<close> of \<open>migrate.go\<close>. A handler that
  may leave the work to the next stage answers \<open>(handled, result, error)\<close>.
\<close>

type_synonym outcome = "ctrlResult \<times> gerr option"
type_synonym handled = "bool \<times> ctrlResult \<times> gerr option"

definition finalizerName :: string where
  "finalizerName = ''cocoonset.cocoonstack.io/finalizer''"

definition requeueWaitForMain :: duration where
  "requeueWaitForMain = 5 * second"

definition requeueSuspendPoll :: duration where
  "requeueSuspendPoll = 5 * second"

definition requeueMigratePoll :: duration where
  "requeueMigratePoll = 5 * second"

definition requeueAfterWrite :: duration where
  "requeueAfterWrite = second"

definition mainOffTarget :: "cocoonSet \<Rightarrow> pod option \<Rightarrow> bool" where
  "mainOffTarget cs main =
     (case main of
        None \<Rightarrow> False
      | Some p \<Rightarrow> specNodeName (csSpec cs) \<noteq> [] \<and> podNodeName p \<noteq> [] \<and>
                   podNodeName p \<noteq> specNodeName (csSpec cs))"

text \<open>\<open>createMainAgent\<close>: build and discard a foreign snapshot, then mark and create.\<close>

definition createMarkedMain :: "env \<Rightarrow> restoreIntent \<Rightarrow> pod \<Rightarrow> outcome setIO" where
  "createMarkedMain r intent p = do {
     (err, p) \<leftarrow> markRestoreFromIntent r p intent;
     case err of
       Some e \<Rightarrow> State_Monad.return (noRequeue, Some e)
     | None \<Rightarrow> do {
         err \<leftarrow> createPod r p;
         case err of
           None \<Rightarrow> State_Monad.return (requeueIn requeueAfterWrite, None)
         | Some e \<Rightarrow>
             if isAlreadyExists e then State_Monad.return (requeueIn requeueWaitForMain, None)
             else State_Monad.return (noRequeue, Some (ErrWrap ''create main agent'' e))
       }
   }"

definition createMainAgent :: "env \<Rightarrow> restoreIntent \<Rightarrow> outcome setIO" where
  "createMainAgent r intent = do {
     cs \<leftarrow> theCS;
     case buildAgentPod r cs 0 [] [] of
       Inl err \<Rightarrow> State_Monad.return (noRequeue, Some (ErrWrap ''build main agent'' err))
     | Inr p \<Rightarrow> do {
         (_, err) \<leftarrow> discardImageConflict r p;
         case err of
           Some e \<Rightarrow> State_Monad.return (noRequeue, Some e)
         | None \<Rightarrow> createMarkedMain r intent p
       }
   }"

definition rebuildDriftedMain :: "env \<Rightarrow> classifiedPods \<Rightarrow> handled setIO" where
  "rebuildDriftedMain r c =
     (case clsMain c of
        None \<Rightarrow> State_Monad.return (False, noRequeue, None)
      | Some i \<Rightarrow> do {
          cs \<leftarrow> theCS;
          p \<leftarrow> podAt i;
          if podSpecMatchesAgent r p cs 0 then State_Monad.return (False, noRequeue, None)
          else do {
            (deleted, wait, err) \<leftarrow> triagePod r i False;
            case err of
              Some e \<Rightarrow> State_Monad.return (True, noRequeue, Some e)
            | None \<Rightarrow>
                if deleted \<or> 0 < wait
                then State_Monad.return (True, requeueIn (intOr wait requeueAfterWrite), None)
                else State_Monad.return (False, noRequeue, None)
          }
        })"

definition observeMainPodFailed :: "env \<Rightarrow> nat \<Rightarrow> string \<Rightarrow> unit setIO" where
  "observeMainPodFailed r i reason = do {
     cs \<leftarrow> theCS;
     p \<leftarrow> podAt i;
     _ \<leftarrow> (if reason = ''PodLifecycleFailed''
          then emit (EvMetric LifecycleStateFailedObservedTotal
            [strOr (csPhaseText (stPhase (csStatus cs))) (csPhaseText CSPending)] 1)
          else State_Monad.return ());
     emit (EvRecord ''Warning'' reason
       (''main pod '' @ podNamespace p @ ''/'' @ podName p @ '': '' @
        strOr (strAt (podAnnotations p) (AnnotationLifecycleStateMessage (meta r))) (podPhase p)))
   }"


section \<open>Footprints\<close>

lemma createMainAgent_emits [emits_intros]:
  assumes "\<And>vm a. K (EvGetManifest vm (HibernateSnapshotTag (meta r)) a)" and "\<And>vm a. K (EvDeleteManifest vm (HibernateSnapshotTag (meta r)) a)"
    and "\<And>vm a. K (EvHasManifest vm (HibernateSnapshotTag (meta r)) a)" and "\<And>ns a. K (EvListHibs ns a)"
    and "\<And>cs k v e. K (EvAnnotateSet cs k v e)" and "\<And>p e. K (EvCreatePod p e)"
  shows "emits K (createMainAgent r intent)"
  unfolding createMainAgent_def createMarkedMain_def createPod_def by (intro emits_intros assms)

lemma rebuildDriftedMain_emits [emits_intros]:
  assumes "\<And>a b e. K (EvPatchSet a b e)" and "\<And>p k v e. K (EvAnnotatePod p k v e)"
    and "\<And>p e. K (EvDeletePod p e)" and "\<And>t. K (EvNow t)" and "\<And>n ls d. labelled n ls \<Longrightarrow> K (EvMetric n ls d)"
    and "\<And>a b c. K (EvRecord a b c)"
  shows "emits K (rebuildDriftedMain r c)"
  unfolding rebuildDriftedMain_def by (intro emits_intros assms)

lemma observeMainPodFailed_emits [emits_intros]:
  assumes "\<And>n ls d. labelled n ls \<Longrightarrow> K (EvMetric n ls d)" and "\<And>a b c. K (EvRecord a b c)"
  shows "emits K (observeMainPodFailed r i reason)"
  unfolding observeMainPodFailed_def by (intro emits_intros assms)


section \<open>Creating the main agent\<close>

text \<open>A create after marking: the pod created is the one the probes mark.\<close>

definition unprobed :: "history \<Rightarrow> bool" where
  "unprobed fs \<longleftrightarrow>
     list_all (\<lambda>e. (\<forall>n u a. e \<noteq> EvHasManifest n u a) \<and> (\<forall>q x. e \<noteq> EvCreatePod q x)) fs"

lemma unprobedD: "unprobed fs \<Longrightarrow> EvHasManifest n u a \<notin> set fs \<and> EvCreatePod q x \<notin> set fs"
  unfolding unprobed_def list_all_iff by blast

lemma wp_create_marked:
  assumes fs: "hist s = fs @ h0" "unprobed fs"
    and fails: "\<And>e t es. hist t = es @ h0 \<Longrightarrow> \<forall>q x. EvCreatePod q x \<notin> set es \<Longrightarrow> wp (f e) R t"
    and works: "\<And>e t es q. hist t = es @ h0 \<Longrightarrow> marked r es p q \<Longrightarrow>
      \<forall>q' x. EvCreatePod q' x \<in> set es \<longrightarrow> q' = q \<Longrightarrow> wp (g q e) R t"
  shows "wp (markRestoreFromIntent r p intent)
    (\<lambda>(err, q). wp (case err of Some e \<Rightarrow> f e | None \<Rightarrow> createPod r q \<bind> g q) R) s"
proof (rule wp_mono [OF wp_markRestoreFromIntent], clarify)
  fix q es and err :: "gerr option" and t :: setWorld
  assume t: "hist t = es @ hist s"
    "\<forall>e\<in>set es. \<exists>n u a. e = EvHasManifest n u a \<or> (\<exists>ns b. e = EvListHibs ns b)"
    "err = None \<longrightarrow> marked r es p q"
  have nocreate: "EvCreatePod q' x \<notin> set (es @ fs)" for q' x
    using unprobedD [OF fs(2)] t(2) by auto
  show "wp (case err of Some e \<Rightarrow> f e | None \<Rightarrow> createPod r q \<bind> g q) R t"
  proof (cases err)
    case (Some e)
    with fails [of t "es @ fs" e] fs(1) t(1) nocreate show ?thesis by simp
  next
    case None
    let ?x = "cliCreatePod (cli r) (hist t) q"
    have "marked r ([EvCreatePod q ?x] @ es @ fs) p q"
      using None t(3) fs(2) marked_frame [of "[EvCreatePod q ?x]" fs r es p q] unprobedD [OF fs(2)] by simp
    with None works [of "t\<lparr>hist := EvCreatePod q ?x # hist t\<rparr>" "[EvCreatePod q ?x] @ es @ fs" q ?x]
      fs(1) t(1) nocreate show ?thesis by (auto simp: wp_bind createPod_def wp_ask)
  qed
qed

lemma wp_discard_then:
  assumes "\<And>d err fs t. hist t = fs @ hist s \<Longrightarrow> unprobed fs \<Longrightarrow> Q (d, err) t"
  shows "wp (discardImageConflict r p) Q s"
proof -
  let ?K = "\<lambda>e. (\<forall>n u a. e \<noteq> EvHasManifest n u a) \<and> (\<forall>q x. e \<noteq> EvCreatePod q x)"
  have "emits ?K (discardImageConflict r p)" by (intro emits_intros) simp_all
  from emits_wp [OF this] show ?thesis
    by (rule wp_mono) (auto simp: unprobed_def intro!: assms)
qed

text \<open>
  C4: creating the main agent fails closed. A main is created only as the pod built from the
  current spec; it is created marked to restore exactly when a probe in this call reported its
  \<open>:hibernate\<close> tag, and never after a probe that failed, so a registry error cannot let a fresh
  boot overwrite a snapshot.
\<close>

theorem create_main_fails_closed:
  "\<exists>es. hist (final (createMainAgent r intent) s) = es @ hist s \<and>
     (\<forall>q x. EvCreatePod q x \<in> set es \<longrightarrow>
        (\<exists>p. buildAgentPod r (theSet s) 0 [] [] = Inr p \<and> marked r es p q))"
  (is "?P (final (createMainAgent r intent) s)")
proof -
  have none: "?P t" if "hist t = es @ hist s" "\<And>q x. EvCreatePod q x \<notin> set es" for t es
    using that by blast
  have "wp (createMainAgent r intent) (\<lambda>_. ?P) s"
  proof (cases "buildAgentPod r (theSet s) 0 [] []")
    case (Inl err)
    then show ?thesis using none [of s "[]"] by (simp add: createMainAgent_def wp_simps)
  next
    case (Inr p)
    have tail: "wp (createMarkedMain r intent p) (\<lambda>_. ?P) t"
      if "hist t = fs @ hist s" "unprobed fs" for t fs
      unfolding createMarkedMain_def wp_bind split_def
      using wp_create_marked [OF that, unfolded split_def]
      by (rule meta_mp) (use Inr none in \<open>auto simp: wp_simps split: option.split\<close>)
    have "wp (discardImageConflict r p) (\<lambda>a. wp (case snd a of
        Some e \<Rightarrow> State_Monad.return (noRequeue, Some e)
      | None \<Rightarrow> createMarkedMain r intent p) (\<lambda>_. ?P)) s"
    proof (rule wp_discard_then)
      fix d err fs and t :: setWorld
      assume t: "hist t = fs @ hist s" "unprobed fs"
      with none [of t fs] unprobedD [OF t(2)] tail [OF t]
      show "wp (case snd (d, err) of Some e \<Rightarrow> State_Monad.return (noRequeue, Some e)
          | None \<Rightarrow> createMarkedMain r intent p) (\<lambda>_. ?P) t"
        by (cases err) (simp_all add: wp_return)
    qed
    with Inr show ?thesis by (simp add: createMainAgent_def wp_bind wp_theCS split_def)
  qed
  then show ?thesis by (simp add: wp_result_final)
qed

definition demoTagged :: env where
  "demoTagged = demoEnv [] [] [((''vk-ns-s-0'', ''hibernate''), ''img:1'')] 0"

definition demoBuiltMain :: pod where
  "demoBuiltMain = projr (buildAgentPod demoTagged demoSet 0 [] [])"

lemma demoBuiltMain_fields:
  "buildAgentPod demoTagged demoSet 0 [] [] = Inr demoBuiltMain"
  "podName demoBuiltMain = ''s-0''"
  "ParseVMSpec demoMeta demoBuiltMain = \<lparr>vmName = ''vk-ns-s-0'', vmManaged = True, vmImage = ''img:1'',
     vmForkFrom = [], vmOS = ''linux'', vmConnType = ''ssh'', vmOther = []\<rparr>"
proof -
  have "isl (buildAgentPod demoTagged demoSet 0 [] []) = False" by code_simp
  then show "buildAgentPod demoTagged demoSet 0 [] [] = Inr demoBuiltMain"
    by (simp add: demoBuiltMain_def isl_def sum.expand)
qed code_simp+

lemma demoTagged_env:
  "meta demoTagged = demoMeta" "kube demoTagged = demoKube" "cli demoTagged = demoClient [] []"
  "registry demoTagged = demoRegistry [((''vk-ns-s-0'', ''hibernate''), ''img:1'')]"
  by (simp_all add: demoTagged_def demo_env)

lemma demoSet_owes_nothing: "readHibernateReclaim demoSet = emptyReclaim"
  by code_simp

lemma demo_creates:
  "createdWith (annTrue ''restore'')
     (hist (final (createMainAgent demoTagged (IntentFixed [''s-0''])) (demoWorld demoSet [])))"
proof -
  have "wp (createMainAgent demoTagged (IntentFixed [''s-0'']))
      (\<lambda>_ t. createdWith (annTrue ''restore'') (hist t)) (demoWorld demoSet [])"
    by (simp add: createMainAgent_def createMarkedMain_def discardImageConflict_def dropImageConflict_def
        HibernateSnapshotImage_def markRestoreFromIntent_def wp_simps demo_simps demoBuiltMain_fields
        demoTagged_env demoWorld_def demoSet_owes_nothing emptyReclaim_def)
  then show ?thesis by (simp add: wp_result_final)
qed

theorem create_main_fails_closed_witness:
  "\<exists>es q x p. EvCreatePod q x \<in> set es \<and> annTrue ''restore'' q \<and>
     buildAgentPod demoTagged demoSet 0 [] [] = Inr p \<and> marked demoTagged es p q"
proof -
  obtain q x where q: "annTrue ''restore'' q"
    "EvCreatePod q x \<in> set (hist (final (createMainAgent demoTagged (IntentFixed [''s-0''])) (demoWorld demoSet [])))"
    using createdWithD [OF demo_creates] by blast
  moreover obtain es where "hist (final (createMainAgent demoTagged (IntentFixed [''s-0''])) (demoWorld demoSet [])) = es"
    "\<forall>q x. EvCreatePod q x \<in> set es \<longrightarrow>
        (\<exists>p. buildAgentPod demoTagged demoSet 0 [] [] = Inr p \<and> marked demoTagged es p q)"
    using create_main_fails_closed [of demoTagged "IntentFixed [''s-0'']" "demoWorld demoSet []"]
    by auto
  ultimately show ?thesis by blast
qed

end
