(* ===== verification/Suspend.thy ===== *)
theory Suspend
  imports MainAgent
begin

text \<open>
  \<open>cocoonset/suspend.go\<close>: quiescing every owned pod under \<open>spec.suspend\<close> and waiting until
  each managed VM reported hibernated at this generation with its snapshot in the registry;
  clearing the hibernate annotations again after an unsuspend.
\<close>

definition annotationSuspendingSince :: string where
  "annotationSuspendingSince = ''cocoonset.cocoonstack.io/suspending-since''"

definition suspendTimeout :: duration where
  "suspendTimeout = 3 * minute"

definition suspendDeadlineExceeded :: "env \<Rightarrow> (bool \<times> gerr option) setIO" where
  "suspendDeadlineExceeded r = do {
     cs \<leftarrow> theCS;
     let since = parseRFC3339 (strAt (csAnnotations cs) annotationSuspendingSince);
     t \<leftarrow> now r;
     case (if stPhase (csStatus cs) \<noteq> CSSuspending then None else since) of
       None \<Rightarrow> do {
         err \<leftarrow> patchAnnotationSet r annotationSuspendingSince (formatRFC3339 t);
         State_Monad.return (False, err)
       }
     | Some u \<Rightarrow> State_Monad.return (suspendTimeout < timeSub t u, None)
   }"

definition clearSuspendDeadline :: "env \<Rightarrow> gerr option setIO" where
  "clearSuspendDeadline r = do {
     cs \<leftarrow> theCS;
     if map_of (csAnnotations cs) annotationSuspendingSince = None then State_Monad.return None
     else patchAnnotationSet r annotationSuspendingSince []
   }"

fun allHibernated :: "env \<Rightarrow> nat list \<Rightarrow> (bool \<times> gerr option) setIO" where
  "allHibernated r [] = State_Monad.return (True, None)"
| "allHibernated r (i # is) = do {
     ctx \<leftarrow> ctxCheck r;
     case ctx of
       Some err \<Rightarrow> State_Monad.return (False, Some err)
     | None \<Rightarrow> do {
         cs \<leftarrow> theCS;
         p \<leftarrow> podAt i;
         let M = meta r;
         let spec = ParseVMSpec M p;
         if \<not> vmManaged spec then allHibernated r is
         else if IsPodTerminal M p then allHibernated r is
         else if vmName spec = [] then State_Monad.return (False, None)
         else
           let st = ReadLifecycleStatus M p
           in if lsState st \<noteq> LifecycleStateHibernated M \<or> lsObservedGeneration st < csGeneration cs
              then State_Monad.return (False, None)
              else do {
                got \<leftarrow> HasHibernateSnapshot r (vmName spec);
                case got of
                  Inl err \<Rightarrow> State_Monad.return (False, Some err)
                | Inr present \<Rightarrow>
                    if \<not> present then State_Monad.return (False, None) else allHibernated r is
              }
       }
   }"

definition allOwnedPodsHibernated :: "env \<Rightarrow> classifiedPods \<Rightarrow> (bool \<times> gerr option) setIO" where
  "allOwnedPodsHibernated r c = allHibernated r (sortedVals (clsAllByName c))"

definition hibernatePod :: "env \<Rightarrow> bool \<Rightarrow> string \<Rightarrow> nat \<Rightarrow> gerr option setIO" where
  "hibernatePod r st what i = do {
     err \<leftarrow> patchAt i (podpatchHibernateState r st);
     p \<leftarrow> podAt i;
     State_Monad.return (map_option
       (ErrWrap (what @ '' hibernate annotation on '' @ podNamespace p @ ''/'' @ podName p)) err)
   }"

definition owedBySuspend :: "metaPkg \<Rightarrow> pod list \<Rightarrow> hibernateReclaim \<Rightarrow> hibernateReclaim" where
  "owedBySuspend M pods owed =
     owed\<lparr>rcVMs := foldl (appendManagedVM M) (rcVMs owed) pods,
       rcSuspended := foldl (appendManagedVM M) (rcSuspended owed) pods\<rparr>"

definition applySuspend :: "env \<Rightarrow> classifiedPods \<Rightarrow> gerr option setIO" where
  "applySuspend r c = do {
     s \<leftarrow> State_Monad.get;
     let pods = map (podHeap s) (sortedVals (clsAllByName c));
     err \<leftarrow> writeHibernateReclaim r (owedBySuspend (meta r) pods (readHibernateReclaim (theSet s)));
     case err of
       Some e \<Rightarrow> State_Monad.return (Some e)
     | None \<Rightarrow> forEachSorted r c (hibernatePod r True ''patch'')
   }"

text \<open>The pods an unsuspend clears: annotated, and not held by a CocoonHibernation.\<close>

definition hibernatedPods :: "env \<Rightarrow> classifiedPods \<Rightarrow> (gerr + nat list) setIO" where
  "hibernatedPods r c = do {
     s \<leftarrow> State_Monad.get;
     let hibernated = filter (\<lambda>i. ReadHibernateState (meta r) (podHeap s i)) (sortedVals (clsAllByName c));
     if hibernated = [] then State_Monad.return (Inr [])
     else do {
       got \<leftarrow> podsHibernatedByCR r (csNamespace (theSet s));
       case got of
         Inl err \<Rightarrow> State_Monad.return (Inl err)
       | Inr byCR \<Rightarrow>
           State_Monad.return (Inr (deleteFunc (\<lambda>i. podName (podHeap s i) \<in> set byCR) hibernated))
     }
   }"

definition owedByUnsuspend ::
    "metaPkg \<Rightarrow> cocoonSet \<Rightarrow> podStore \<Rightarrow> classifiedPods \<Rightarrow> nat list \<Rightarrow> hibernateReclaim \<Rightarrow> hibernateReclaim" where
  "owedByUnsuspend M cs H c hibernated owed =
     (let owed = owed\<lparr>rcGeneration := csGeneration cs,
            rcVMs := foldl (appendManagedVM M) (rcVMs owed) (map H hibernated),
            rcRestore := appendMissingVMs M H (rcRestore owed) (rcSuspended owed) c\<rparr>
      in if hibernated = [] then owed\<lparr>rcSuspended := []\<rparr> else owed)"

definition applyUnsuspend :: "env \<Rightarrow> classifiedPods \<Rightarrow> gerr option setIO" where
  "applyUnsuspend r c = do {
     got \<leftarrow> hibernatedPods r c;
     case got of
       Inl err \<Rightarrow> State_Monad.return (Some err)
     | Inr hibernated \<Rightarrow> do {
         s \<leftarrow> State_Monad.get;
         let owed = readHibernateReclaim (theSet s);
         if hibernated = [] \<and> rcSuspended owed = [] then State_Monad.return None
         else do {
           let owed = owedByUnsuspend (meta r) (theSet s) (podHeap s) c hibernated owed;
           err \<leftarrow> writeHibernateReclaim r owed;
           case err of
             Some e \<Rightarrow> State_Monad.return (Some e)
           | None \<Rightarrow> do {
               err \<leftarrow> forEachPod r hibernated (hibernatePod r False ''clear'');
               case err of
                 Some e \<Rightarrow> State_Monad.return (Some e)
               | None \<Rightarrow> writeHibernateReclaim r (owed\<lparr>rcSuspended := []\<rparr>)
             }
         }
       }
   }"

definition pollSuspend :: "env \<Rightarrow> classifiedPods \<Rightarrow> gerr option \<Rightarrow> outcome setIO" where
  "pollSuspend r c probeErr = do {
     (exceeded, err) \<leftarrow> suspendDeadlineExceeded r;
     case err of
       Some e \<Rightarrow> State_Monad.return (noRequeue, Some e)
     | None \<Rightarrow>
         if \<not> exceeded then do {
           err \<leftarrow> patchPhase r c CSSuspending;
           case err of
             Some e \<Rightarrow> State_Monad.return (noRequeue, Some e)
           | None \<Rightarrow>
               (case probeErr of
                  Some e \<Rightarrow> State_Monad.return (noRequeue, Some e)
                | None \<Rightarrow> State_Monad.return (requeueIn requeueSuspendPoll, None))
         } else do {
           emit (EvRecord ''Warning'' ''SuspendTimedOut''
             (''not every managed VM was hibernated with its snapshot in the registry within 3m0s'' @
              (case probeErr of None \<Rightarrow> [] | Some e \<Rightarrow> '': '' @ errText e)));
           err \<leftarrow> patchPhase r c CSFailed;
           State_Monad.return (requeueIn requeueSuspendPoll, err)
         }
   }"

definition settleSuspend :: "env \<Rightarrow> classifiedPods \<Rightarrow> outcome setIO" where
  "settleSuspend r c = do {
     err \<leftarrow> clearSuspendDeadline r;
     case err of
       Some e \<Rightarrow> State_Monad.return (noRequeue, Some e)
     | None \<Rightarrow> do {
         err \<leftarrow> patchPhase r c CSSuspended;
         State_Monad.return (noRequeue, err)
       }
   }"

definition reconcileSuspend :: "env \<Rightarrow> classifiedPods \<Rightarrow> outcome setIO" where
  "reconcileSuspend r c =
     (case clsMain c of
        None \<Rightarrow> do {
          cs \<leftarrow> theCS;
          createMainAgent r (IntentFixed [agentPodName (csName cs) 0])
        }
      | Some _ \<Rightarrow> do {
          err \<leftarrow> applySuspend r c;
          case err of
            Some e \<Rightarrow> State_Monad.return (noRequeue, Some e)
          | None \<Rightarrow> do {
              (done, err) \<leftarrow> allOwnedPodsHibernated r c;
              if err \<noteq> None \<or> \<not> done then pollSuspend r c err
              else settleSuspend r c
            }
        })"


section \<open>The hibernate gate\<close>

text \<open>
  \<open>quiesced r cs es p\<close>: the pod holds the gate open no longer. It is not a managed VM, or it
  is terminal; or its VM reported hibernated at the set's generation or later and a probe
  among \<open>es\<close> saw its \<open>:hibernate\<close> tag.
\<close>

definition quiesced :: "env \<Rightarrow> cocoonSet \<Rightarrow> history \<Rightarrow> pod \<Rightarrow> bool" where
  "quiesced r cs es p \<longleftrightarrow>
     (let M = meta r; spec = ParseVMSpec M p; st = ReadLifecycleStatus M p in
      \<not> vmManaged spec \<or> IsPodTerminal M p \<or>
      (vmName spec \<noteq> [] \<and> lsState st = LifecycleStateHibernated M \<and>
       csGeneration cs \<le> lsObservedGeneration st \<and>
       EvHasManifest (vmName spec) (HibernateSnapshotTag M) (Inr True) \<in> set es))"

lemma quiesced_mono: "quiesced r cs es p \<Longrightarrow> set es \<subseteq> set fs \<Longrightarrow> quiesced r cs fs p"
  by (auto simp: quiesced_def Let_def)

definition probing :: "event \<Rightarrow> bool" where
  "probing e \<longleftrightarrow> (\<exists>x. e = EvCtx x) \<or> (\<exists>n u a. e = EvHasManifest n u a)"

lemma probing_simps [simp]: "probing (EvCtx x)" "probing (EvHasManifest n u a)"
  by (simp_all add: probing_def)

text \<open>What a pass through the gate leaves: only probes, and evidence for every pod it let through.\<close>

definition gateResult :: "env \<Rightarrow> nat list \<Rightarrow> setWorld \<Rightarrow> history \<Rightarrow> bool \<times> gerr option \<Rightarrow> setWorld \<Rightarrow> bool" where
  "gateResult r is s es a t \<longleftrightarrow> theSet t = theSet s \<and> podHeap t = podHeap s \<and> list_all probing es \<and>
     hist t = es @ hist s \<and>
     (fst a \<longrightarrow> snd a = None \<and> (\<forall>i\<in>set is. quiesced r (theSet s) es (podHeap s i)))"

lemma gateResult_step:
  assumes "gateResult r is u es a t" and "theSet u = theSet s" and "podHeap u = podHeap s"
    and "hist u = fs @ hist s" and "list_all probing fs" and "quiesced r (theSet s) fs (podHeap s i)"
  shows "gateResult r (i # is) s (es @ fs) a t"
  using assms quiesced_mono [of r "theSet s" fs "podHeap s i" "es @ fs"]
  by (auto simp: gateResult_def intro: quiesced_mono [of r "theSet s" es])

lemma wp_allHibernated: "wp (allHibernated r is) (\<lambda>a t. \<exists>es. gateResult r is s es a t) s"
proof (induction "is" arbitrary: s)
  case Nil
  show ?case by (simp add: wp_return gateResult_def)
next
  case (Cons i "is")
  let ?M = "meta r" and ?p = "podHeap s i"
  let ?vm = "vmName (ParseVMSpec ?M ?p)" and ?tag = "HibernateSnapshotTag ?M"
  let ?u = "s\<lparr>hist := EvCtx None # hist s\<rparr>"
  let ?v = "\<lambda>a. s\<lparr>hist := EvHasManifest ?vm ?tag a # EvCtx None # hist s\<rparr>"
  have stop: "\<exists>es. gateResult r (i # is) s es (False, err) t"
    if "theSet t = theSet s" "podHeap t = podHeap s" "hist t = fs @ hist s" "list_all probing fs" for t fs err
    using that by (auto simp: gateResult_def)
  have go: "wp (allHibernated r is) (\<lambda>a t. \<exists>es. gateResult r (i # is) s es a t) u"
    if "theSet u = theSet s" "podHeap u = podHeap s" "hist u = fs @ hist s" "list_all probing fs"
      "quiesced r (theSet s) fs (podHeap s i)" for u fs
    using Cons.IH [of u] by (rule wp_mono) (use that in \<open>blast intro: gateResult_step\<close>)
  show ?case
  proof (cases "ctxErr r (hist s)")
    case (Some e)
    then show ?thesis by (simp add: wp_simps stop [of _ "[EvCtx (Some e)]"])
  next
    case None
    note run = go [of ?u "[EvCtx None]"] go [of "?v (Inr True)" "[EvHasManifest ?vm ?tag (Inr True), EvCtx None]"]
      stop [of ?u "[EvCtx None]"] stop [of "?v _" "[EvHasManifest ?vm ?tag _, EvCtx None]"]
    from None run show ?thesis
      by (auto simp: wp_simps Let_def quiesced_def not_less split: sum.split)
  qed
qed


section \<open>Footprints\<close>

lemma hibernatePod_emits [emits_intros]:
  "(\<And>p q e. K (EvPatchPod p q e)) \<Longrightarrow> emits K (hibernatePod r st what i)"
  unfolding hibernatePod_def by (intro emits_intros)

lemma applySuspend_emits [emits_intros]:
  assumes "\<And>p q e. K (EvPatchPod p q e)" and "\<And>e. K (EvCtx e)" and "\<And>cs k v e. K (EvAnnotateSet cs k v e)"
  shows "emits K (applySuspend r c)"
  unfolding applySuspend_def by (intro emits_intros assms)

lemma applyUnsuspend_emits [emits_intros]:
  assumes "\<And>p q e. K (EvPatchPod p q e)" and "\<And>e. K (EvCtx e)" and "\<And>cs k v e. K (EvAnnotateSet cs k v e)"
    and "\<And>ns a. K (EvListHibs ns a)"
  shows "emits K (applyUnsuspend r c)"
  unfolding applyUnsuspend_def hibernatedPods_def by (intro emits_intros assms)

lemma deadline_emits [emits_intros]:
  assumes "\<And>t. K (EvNow t)" and "\<And>cs k v e. K (EvAnnotateSet cs k v e)"
  shows "emits K (suspendDeadlineExceeded r)" and "emits K (clearSuspendDeadline r)"
  unfolding suspendDeadlineExceeded_def clearSuspendDeadline_def now_def by (intro emits_intros assms)+

lemma pollSuspend_writes:
  assumes "\<And>t. K (EvNow t)" and "\<And>cs k v e. K (EvAnnotateSet cs k v e)" and "\<And>a b c. K (EvRecord a b c)"
    and "\<And>a b e. stPhase (csStatus b) \<in> {CSSuspending, CSFailed} \<Longrightarrow> K (EvPatchSetStatus a b e)"
  shows "emits K (pollSuspend r c probeErr)"
  unfolding pollSuspend_def by (intro emits_intros patchPhase_writes assms) simp_all


section \<open>Suspending\<close>

text \<open>The owed VMs grow by every managed VM of the pods.\<close>

lemma foldl_appendManagedVM:
  "set (foldl (appendManagedVM M) vms pods) =
     set vms \<union> {vmName (ParseVMSpec M p) | p. p \<in> set pods \<and> vmManaged (ParseVMSpec M p) \<and> vmName (ParseVMSpec M p) \<noteq> []}"
  by (induction pods arbitrary: vms) (auto simp: appendManagedVM_def Let_def)

text \<open>
  \<open>recordStored\<close>: the record's value was stored before the events \<open>es\<close>, or the first of them
  stored it.
\<close>

definition recordStored :: "cocoonSet \<Rightarrow> hibernateReclaim \<Rightarrow> history \<Rightarrow> bool" where
  "recordStored cs owed es \<longleftrightarrow>
     (\<exists>value. reclaimValue owed = Some value \<and>
       (strAt (csAnnotations cs) annotationHibernateReclaim = value \<or>
        (es \<noteq> [] \<and> last es = EvAnnotateSet cs annotationHibernateReclaim (if value = [] then None else Some value) None)))"

lemma recordStored_append: "recordStored cs owed es \<Longrightarrow> recordStored cs owed (fs @ es)"
  unfolding recordStored_def by (metis append_is_Nil_conv last_appendR)

text \<open>A record write that reports no error leaves the record stored.\<close>

lemma wp_writeReclaim_ok:
  "wp (writeHibernateReclaim r owed) (\<lambda>err t. podHeap t = podHeap s \<and>
     (\<exists>es. hist t = es @ hist s \<and> (\<forall>e\<in>set es. \<exists>cs k v x. e = EvAnnotateSet cs k v x) \<and>
       (err = None \<longrightarrow> recordStored (theSet s) owed es))) s"
  by (auto simp: writeHibernateReclaim_def recordStored_def wp_simps Let_def split: option.split)

fun patchesPod :: "event \<Rightarrow> bool" where
  "patchesPod (EvPatchPod p q x) = True"
| "patchesPod _ = False"

interpretation recorded: evidence "\<lambda>pre e. patchesPod e \<longrightarrow> recordStored cs owed pre" for cs owed
  by unfold_locales (simp add: recordStored_append)

text \<open>
  C14: the reclaim record is written before any pod is told to hibernate. Suspending patches a pod
  only after a record that owes the tag of every managed VM of the set, and lists it as suspended,
  is stored: it was stored before the call, or the call's first write stored it. So a
  \<open>:hibernate\<close> tag that a suspend causes is never forgotten.
\<close>

theorem suspend_records_first:
  "let is = sortedVals (clsAllByName c);
       owed = owedBySuspend (meta r) (map (podHeap s) is) (readHibernateReclaim (theSet s));
       spec = (\<lambda>i. ParseVMSpec (meta r) (podHeap s i))
   in (\<forall>i\<in>set is. vmManaged (spec i) \<and> vmName (spec i) \<noteq> [] \<longrightarrow>
        vmName (spec i) \<in> set (rcVMs owed) \<inter> set (rcSuspended owed)) \<and>
     (\<exists>es. hist (final (applySuspend r c) s) = es @ hist s \<and>
       guarded (\<lambda>pre e. patchesPod e \<longrightarrow> recordStored (theSet s) owed pre) es)"
  unfolding Let_def
proof (intro conjI ballI impI)
  let ?owed = "owedBySuspend (meta r) (map (podHeap s) (sortedVals (clsAllByName c))) (readHibernateReclaim (theSet s))"
  let ?P = "\<lambda>t. \<exists>es. hist t = es @ hist s \<and> guarded (\<lambda>pre e. patchesPod e \<longrightarrow> recordStored (theSet s) ?owed pre) es"
  have "wp (applySuspend r c) (\<lambda>_. ?P) s"
    unfolding applySuspend_def wp_bind wp_get Let_def
  proof (rule wp_mono [OF wp_writeReclaim_ok], elim conjE exE)
    fix err :: "gerr option" and fs and t :: setWorld
    assume t: "hist t = fs @ hist s" "\<forall>e\<in>set fs. \<exists>cs k v x. e = EvAnnotateSet cs k v x"
      "err = None \<longrightarrow> recordStored (theSet s) ?owed fs"
    have quiet: "guarded (\<lambda>pre e. patchesPod e \<longrightarrow> recordStored (theSet s) ?owed pre) fs"
      using t(2) by (intro recorded.guarded_start) (auto simp: list_all_iff)
    have "emits (\<lambda>_. True) (forEachSorted r c (hibernatePod r True ''patch''))"
      by (intro emits_intros) simp_all
    then have "wp (forEachSorted r c (hibernatePod r True ''patch'')) (\<lambda>_. ?P) t" if "err = None"
      using t(1,3) that quiet by (intro recorded.wp_keeps) simp_all
    with quiet t(1) show "wp (case err of Some e \<Rightarrow> State_Monad.return (Some e)
        | None \<Rightarrow> forEachSorted r c (hibernatePod r True ''patch'')) (\<lambda>_. ?P) t"
      by (auto simp: wp_return split: option.split)
  qed
  then show "?P (final (applySuspend r c) s)" by (simp add: wp_result_final)
qed (auto simp: owedBySuspend_def foldl_appendManagedVM)

definition demoRunning :: pod where
  "demoRunning = demoPod ''s-0'' ''main'' ''0'' ''n1'' [(''vm'', ''vk-ns-s-0''), (''managed'', ''true''),
     (''state'', ''hibernated''), (''observed'', ''3'')]"

definition demoOne :: classifiedPods where
  "demoOne = \<lparr>clsMain = Some 0, clsSub = [], clsToolbox = [], clsAllByName = [(''s-0'', 0)]\<rparr>"

lemma demo_suspends:
  "list_ex patchesPod (hist (final (applySuspend (demoEnv [] [] [] 0) demoOne) (demoWorld demoSet [demoRunning])))"
  by code_simp

theorem suspend_records_first_witness:
  "\<exists>post e pre owed. hist (final (applySuspend (demoEnv [] [] [] 0) demoOne) (demoWorld demoSet [demoRunning])) =
     post @ e # pre \<and> patchesPod e \<and> recordStored demoSet owed pre \<and> ''vk-ns-s-0'' \<in> set (rcVMs owed)"
proof -
  let ?owed = "owedBySuspend demoMeta [demoRunning] (readHibernateReclaim demoSet)"
  let ?ok = "\<lambda>pre e. patchesPod e \<longrightarrow> recordStored demoSet ?owed pre"
  have vals: "sortedVals (clsAllByName demoOne) = [0]" by code_simp
  have spec: "vmName (ParseVMSpec demoMeta demoRunning) = ''vk-ns-s-0''" "vmManaged (ParseVMSpec demoMeta demoRunning)"
    by (simp_all add: demo_ParseVMSpec demoRunning_def demoPod_def annTrue_def)
  have w: "theSet (demoWorld demoSet [demoRunning]) = demoSet" "hist (demoWorld demoSet [demoRunning]) = []"
    "podHeap (demoWorld demoSet [demoRunning]) 0 = demoRunning" by (simp_all add: demoWorld_def)
  have "''vk-ns-s-0'' \<in> set (rcVMs ?owed)" and
    g: "guarded ?ok (hist (final (applySuspend (demoEnv [] [] [] 0) demoOne) (demoWorld demoSet [demoRunning])))"
    using suspend_records_first [where r = "demoEnv [] [] [] 0" and c = demoOne and s = "demoWorld demoSet [demoRunning]"]
    by (simp_all add: Let_def w vals demo_env spec)
  with guarded_ex [OF g demo_suspends] show ?thesis by metis
qed


section \<open>The suspended phase\<close>

text \<open>\<open>gatePassed r cs H c es\<close>: every owned pod was quiesced, by the evidence in \<open>es\<close>.\<close>

definition gatePassed :: "env \<Rightarrow> cocoonSet \<Rightarrow> podStore \<Rightarrow> classifiedPods \<Rightarrow> history \<Rightarrow> bool" where
  "gatePassed r cs H c es \<longleftrightarrow> (\<forall>i\<in>set (sortedVals (clsAllByName c)). quiesced r cs es (H i))"

lemma gatePassed_append: "gatePassed r cs H c fs \<Longrightarrow> gatePassed r cs H c (es @ fs)"
  unfolding gatePassed_def by (auto intro: quiesced_mono [of r cs fs])

interpretation gate: evidence "\<lambda>pre e. E e \<longrightarrow> gatePassed r cs H c pre" for E r cs H c
  by unfold_locales (simp add: gatePassed_append)

lemma gateResult_passed:
  assumes "gateResult r (sortedVals (clsAllByName c)) u es a t" and "snd a = None" and "fst a"
  shows "gatePassed r (theSet u) (podHeap u) c (es @ fs)"
proof -
  have "quiesced r (theSet u) es (podHeap u i)" if "i \<in> set (sortedVals (clsAllByName c))" for i
    using assms that by (simp add: gateResult_def)
  then show ?thesis unfolding gatePassed_def by (auto intro: quiesced_mono [of r "theSet u" es])
qed

text \<open>
  The pattern both suspend policies share: apply, pass the gate, then act. Events of the kind
  \<open>E\<close>, which neither applying nor polling emits, come only after the gate was passed.
\<close>

lemma wp_gated:
  assumes u: "u = final (applySuspend r c) s"
    and poll: "\<And>err. emits (\<lambda>e. \<not> E e) (pollSuspend r c err)" and act: "emits (\<lambda>_. True) act"
    and applied: "emits (\<lambda>e. \<not> E e) (applySuspend r c)" and probes: "\<And>e. probing e \<Longrightarrow> \<not> E e"
  shows "wp (do { err \<leftarrow> applySuspend r c;
      case err of
        Some e \<Rightarrow> State_Monad.return (noRequeue, Some e)
      | None \<Rightarrow> do { (done, err) \<leftarrow> allOwnedPodsHibernated r c;
          if err \<noteq> None \<or> \<not> done then pollSuspend r c err else act } })
    (\<lambda>_ t. \<exists>es. hist t = es @ hist s \<and>
       guarded (\<lambda>pre e. E e \<longrightarrow> gatePassed r (theSet u) (podHeap u) c pre) es) s"
    (is "wp _ (\<lambda>_. ?P) s")
proof -
  let ?ok = "\<lambda>pre e. E e \<longrightarrow> gatePassed r (theSet u) (podHeap u) c pre"
  obtain fs where fs: "hist u = fs @ hist s" "list_all (\<lambda>e. \<not> E e) fs"
    using applied unfolding u by (rule emitsE)
  have quiet: "guarded ?ok (es @ fs)" if "list_all probing es" for es
    using fs(2) that probes by (intro gate.guarded_start) (auto simp: list_all_iff)
  have tail: "wp (if snd a \<noteq> None \<or> \<not> fst a then pollSuspend r c (snd a) else act) (\<lambda>_. ?P) t"
    if g: "gateResult r (sortedVals (clsAllByName c)) u es a t" for a es t
  proof -
    have t: "hist t = (es @ fs) @ hist s" "guarded ?ok (es @ fs)"
      using g fs(1) quiet by (simp_all add: gateResult_def)
    show ?thesis
    proof (cases "snd a \<noteq> None \<or> \<not> fst a")
      case True
      from gate.wp_keeps [OF poll t] True show ?thesis by simp
    next
      case False
      with gateResult_passed [OF g] gate.wp_keeps [OF act t] show ?thesis by simp
    qed
  qed
  have "wp (allHibernated r (sortedVals (clsAllByName c))) (\<lambda>a. wp (if snd a \<noteq> None \<or> \<not> fst a
      then pollSuspend r c (snd a) else act) (\<lambda>_. ?P)) u"
    by (rule wp_mono [OF wp_allHibernated]) (use tail in blast)
  with quiet [of "[]"] fs(1) show ?thesis
    unfolding wp_bind wp_result_final [of "applySuspend r c"] u [symmetric]
    by (cases "result (applySuspend r c) s")
      (auto simp: wp_return wp_bind allOwnedPodsHibernated_def split_def)
qed

text \<open>
  C13: a set is reported Suspended only through the gate. When a suspend pass writes a status with
  phase \<open>Suspended\<close>, its annotation writes had succeeded and every owned pod, as those writes left
  it, is unmanaged, terminal, or reported hibernated at the set's generation with a probe of this
  very pass that saw its \<open>:hibernate\<close> tag.
\<close>

theorem suspended_only_after_gate:
  "let u = final (applySuspend r c) s in
   \<exists>es. hist (final (reconcileSuspend r c) s) = es @ hist s \<and>
     guarded (\<lambda>pre e. writesPhase CSSuspended e \<longrightarrow> gatePassed r (theSet u) (podHeap u) c pre) es"
proof -
  let ?u = "final (applySuspend r c) s"
  let ?P = "\<lambda>t. \<exists>es. hist t = es @ hist s \<and>
     guarded (\<lambda>pre e. writesPhase CSSuspended e \<longrightarrow> gatePassed r (theSet ?u) (podHeap ?u) c pre) es"
  have "wp (reconcileSuspend r c) (\<lambda>_. ?P) s"
  proof (cases "clsMain c")
    case None
    have "emits (\<lambda>e. \<not> writesPhase CSSuspended e) (reconcileSuspend r c)"
      unfolding reconcileSuspend_def None option.case by (intro emits_intros) simp_all
    then show ?thesis by (rule gate.wp_keeps [where fs = "[]"]) simp_all
  next
    case (Some i)
    show ?thesis unfolding reconcileSuspend_def Some option.case
    proof (rule wp_gated [OF refl])
      show "emits (\<lambda>e. \<not> writesPhase CSSuspended e) (pollSuspend r c err)" for err
        by (intro pollSuspend_writes) auto
      show "emits (\<lambda>_. True) (settleSuspend r c)" unfolding settleSuspend_def by (intro emits_intros) simp_all
      show "emits (\<lambda>e. \<not> writesPhase CSSuspended e) (applySuspend r c)" by (intro emits_intros) simp_all
      show "\<not> writesPhase CSSuspended e" if "probing e" for e using that by (auto simp: probing_def)
    qed
  qed
  then show ?thesis unfolding wp_result_final Let_def .
qed

definition demoHibernated :: env where
  "demoHibernated = demoEnv [] [] [((''vk-ns-s-0'', ''hibernate''), ''img:1'')] 0"

lemma demo_suspended:
  "list_ex (writesPhase CSSuspended)
     (hist (final (reconcileSuspend demoHibernated demoOne) (demoWorld demoSet [demoRunning])))"
  by code_simp

theorem suspended_only_after_gate_witness:
  "\<exists>post e pre. \<exists>u :: setWorld. hist (final (reconcileSuspend demoHibernated demoOne) (demoWorld demoSet [demoRunning])) = post @ e # pre \<and>
     writesPhase CSSuspended e \<and> gatePassed demoHibernated (theSet u) (podHeap u) demoOne pre"
proof -
  let ?u = "final (applySuspend demoHibernated demoOne) (demoWorld demoSet [demoRunning])"
  have "hist (demoWorld demoSet [demoRunning]) = []" by (simp add: demoWorld_def)
  then have g: "guarded (\<lambda>pre e. writesPhase CSSuspended e \<longrightarrow> gatePassed demoHibernated (theSet ?u) (podHeap ?u) demoOne pre)
      (hist (final (reconcileSuspend demoHibernated demoOne) (demoWorld demoSet [demoRunning])))"
    using suspended_only_after_gate [of demoHibernated demoOne "demoWorld demoSet [demoRunning]"] by (simp add: Let_def)
  show ?thesis by (rule guarded_ex [OF g demo_suspended]) blast
qed

text \<open>
  C38: the suspend deadline. Outside the phase \<open>Suspending\<close> a poll never expires: it restarts the
  deadline by writing the current time. In that phase, with the time \<open>t0\<close> an earlier poll wrote,
  a poll writes nothing and expires exactly when more than three minutes have passed since the
  second of \<open>t0\<close>.
\<close>

theorem suspend_deadline:
  assumes "fourDigitYear t0" and "strAt (csAnnotations (theSet s)) annotationSuspendingSince = formatRFC3339 t0"
    and "clock r (hist s) - t0 div second * second < 2 ^ 63"
  shows "if stPhase (csStatus (theSet s)) = CSSuspending
    then run_state (suspendDeadlineExceeded r) s =
      ((3 * minute < clock r (hist s) - t0 div second * second, None),
       s\<lparr>hist := EvNow (clock r (hist s)) # hist s\<rparr>)
    else \<not> fst (result (suspendDeadlineExceeded r) s) \<and>
      (AnnotationsMergePatch (kube r) annotationSuspendingSince (Some (formatRFC3339 (clock r (hist s)))) = None \<longrightarrow>
        (\<exists>e. hist (final (suspendDeadlineExceeded r) s) = EvAnnotateSet (theSet s) annotationSuspendingSince
          (Some (formatRFC3339 (clock r (hist s)))) e # EvNow (clock r (hist s)) # hist s))"
proof -
  let ?m = "suspendDeadlineExceeded r" and ?now = "clock r (hist s)"
  have since: "parseRFC3339 (formatRFC3339 t0) = Some (t0 div second * second)"
    using parse_formatRFC3339 [OF assms(1)] by (simp add: second_def)
  have written: "formatRFC3339 ?now \<noteq> []" by (simp add: formatRFC3339_def)
  have "timeSub ?now (t0 div second * second) = max (- (2 ^ 63)) (?now - t0 div second * second)"
    using assms(3) by (simp add: timeSub_def)
  then have sub: "(suspendTimeout < timeSub ?now (t0 div second * second)) =
      (3 * minute < ?now - t0 div second * second)"
    by (simp add: suspendTimeout_def minute_def second_def less_max_iff_disj)
  have "wp ?m (\<lambda>a t. (a, t) = ((3 * minute < ?now - t0 div second * second, None), s\<lparr>hist := EvNow ?now # hist s\<rparr>)) s"
    if "stPhase (csStatus (theSet s)) = CSSuspending"
    using that assms(2) since sub by (simp add: suspendDeadlineExceeded_def wp_simps Let_def)
  moreover have "wp ?m (\<lambda>a t. \<not> fst a \<and>
      (AnnotationsMergePatch (kube r) annotationSuspendingSince (Some (formatRFC3339 ?now)) = None \<longrightarrow>
        (\<exists>e. hist t = EvAnnotateSet (theSet s) annotationSuspendingSince
          (Some (formatRFC3339 ?now)) e # EvNow ?now # hist s))) s"
    if "stPhase (csStatus (theSet s)) \<noteq> CSSuspending"
    using that written by (simp add: suspendDeadlineExceeded_def wp_simps Let_def split: option.split)
  ultimately show ?thesis by (simp add: wp_result_final result_def final_def prod_eq_iff)
qed

lemma demo_year: "fourDigitYear 5"
  by code_simp

theorem suspend_deadline_witness:
  "result (suspendDeadlineExceeded (demoEnv [] [] [] (181 * second)))
     (demoWorld (demoSet\<lparr>csStatus := demoStatus\<lparr>stPhase := CSSuspending\<rparr>,
        csAnnotations := [(annotationSuspendingSince, formatRFC3339 5)]\<rparr>) []) = (True, None)"
  using suspend_deadline [OF demo_year, of "demoWorld (demoSet\<lparr>csStatus := demoStatus\<lparr>stPhase := CSSuspending\<rparr>,
        csAnnotations := [(annotationSuspendingSince, formatRFC3339 5)]\<rparr>) []" "demoEnv [] [] [] (181 * second)"]
  by (simp add: demoWorld_def demo_env result_def second_def minute_def)

end
