(* ===== verification/DeleteSet.thy ===== *)
theory DeleteSet
  imports Suspend
begin

text \<open>
  \<open>cocoonset/delete.go\<close>: tearing a CocoonSet down. The VM names of everything the set ever
  owned are stashed in an annotation before the first pod is deleted; the registry tags are
  deleted from that list once no pod is left, and only then the finalizer goes.
\<close>

definition annotationDeleteVMNames :: string where
  "annotationDeleteVMNames = ''cocoonset.cocoonstack.io/delete-vm-names''"

definition parseVMNamesAnnotation :: "string \<Rightarrow> string list" where
  "parseVMNamesAnnotation raw = filter (\<lambda>p. p \<noteq> []) (map trimSpace (splitOn (CHR '','') raw))"

definition statusVMNames :: "cocoonSet \<Rightarrow> string list" where
  "statusVMNames cs =
     filter (\<lambda>n. n \<noteq> []) (map asVMName (stAgents (csStatus cs))) @
     filter (\<lambda>n. n \<noteq> []) (map tsVMName (stToolboxes (csStatus cs)))"

definition stashNames :: "metaPkg \<Rightarrow> cocoonSet \<Rightarrow> pod list \<Rightarrow> string list" where
  "stashNames M cs owned =
     sort (remdups
       (statusVMNames cs @ parseVMNamesAnnotation (strAt (csAnnotations cs) annotationDeleteVMNames) @
        rcVMs (readHibernateReclaim cs) @
        filter (\<lambda>n. n \<noteq> []) (map (\<lambda>p. vmName (ParseVMSpec M p)) owned)))"

definition stashDeleteVMNames :: "env \<Rightarrow> pod list \<Rightarrow> gerr option setIO" where
  "stashDeleteVMNames r owned = do {
     cs \<leftarrow> theCS;
     let names = stashNames (meta r) cs owned;
     if names = [] then State_Monad.return None
     else
       let joined = join '','' names
       in if strAt (csAnnotations cs) annotationDeleteVMNames = joined then State_Monad.return None
          else do {
            (err, cs') \<leftarrow> patchSet r cs (\<lambda>c. c\<lparr>csAnnotations :=
              AList.update annotationDeleteVMNames joined (csAnnotations c)\<rparr>);
            putCS cs';
            State_Monad.return err
          }
   }"

definition shouldKeepLatestTag :: "env \<Rightarrow> cocoonSet \<Rightarrow> string \<Rightarrow> bool" where
  "shouldKeepLatestTag r cs vm =
     (case SnapshotPolicyDefault (kube r) (specSnapshotPolicy (csSpec cs)) of
        SnapNever \<Rightarrow> False
      | SnapMainOnly \<Rightarrow> ExtractAgentSlot (meta r) (csNamespace cs) (csName cs) vm = 0
      | _ \<Rightarrow> True)"

fun deletePods :: "env \<Rightarrow> pod list \<Rightarrow> gerr option setIO" where
  "deletePods r [] = State_Monad.return None"
| "deletePods r (p # ps) = do {
     ctx \<leftarrow> ctxCheck r;
     case ctx of
       Some err \<Rightarrow> State_Monad.return (Some err)
     | None \<Rightarrow> do {
         err \<leftarrow> deleteIgnoringNotFound r p;
         case err of
           Some e \<Rightarrow> State_Monad.return (Some (ErrWrap
             (''delete pod '' @ podNamespace p @ ''/'' @ podName p) e))
         | None \<Rightarrow> deletePods r ps
       }
   }"

fun deleteTags :: "env \<Rightarrow> string list \<Rightarrow> gerr option setIO" where
  "deleteTags r [] = State_Monad.return None"
| "deleteTags r (name # names) = do {
     err \<leftarrow> DeleteManifestIfPresent r name (HibernateSnapshotTag (meta r));
     case err of
       Some e \<Rightarrow> State_Monad.return (Some (ErrWrap
         (''delete snapshot '' @ name @ '':'' @ HibernateSnapshotTag (meta r)) e))
     | None \<Rightarrow> do {
         cs \<leftarrow> theCS;
         if shouldKeepLatestTag r cs name then deleteTags r names
         else do {
           _ \<leftarrow> DeleteManifestIfPresent r name (DefaultSnapshotTag (meta r));
           deleteTags r names
         }
       }
   }"

definition removeFinalizer :: "env \<Rightarrow> outcome setIO" where
  "removeFinalizer r = do {
     cs \<leftarrow> theCS;
     let (changed, finalizers) = RemoveFinalizer (kube r) (csFinalizers cs) finalizerName;
     if \<not> changed then State_Monad.return (noRequeue, None)
     else do {
       (err, cs') \<leftarrow> updateSet r (cs\<lparr>csFinalizers := finalizers\<rparr>);
       putCS cs';
       State_Monad.return (noRequeue, map_option (ErrWrap ''remove finalizer'') err)
     }
   }"

definition deleteOwned :: "env \<Rightarrow> pod list \<Rightarrow> outcome setIO" where
  "deleteOwned r owned = do {
     err \<leftarrow> deletePods r owned;
     case err of
       Some e \<Rightarrow> State_Monad.return (noRequeue, Some e)
     | None \<Rightarrow> State_Monad.return (requeueIn requeueWaitForMain, None)
   }"

definition finishDelete :: "env \<Rightarrow> outcome setIO" where
  "finishDelete r = do {
     cs \<leftarrow> theCS;
     err \<leftarrow> deleteTags r (parseVMNamesAnnotation (strAt (csAnnotations cs) annotationDeleteVMNames));
     case err of
       Some e \<Rightarrow> State_Monad.return (noRequeue, Some e)
     | None \<Rightarrow> removeFinalizer r
   }"

definition reconcileDelete :: "env \<Rightarrow> outcome setIO" where
  "reconcileDelete r = do {
     cs \<leftarrow> theCS;
     got \<leftarrow> listOwnedPods r cs;
     case got of
       Inl err \<Rightarrow> State_Monad.return (noRequeue, Some (ErrWrap ''list owned pods for delete'' err))
     | Inr owned \<Rightarrow> do {
         err \<leftarrow> stashDeleteVMNames r owned;
         case err of
           Some e \<Rightarrow> State_Monad.return (noRequeue, Some (ErrWrap ''stash vm names'' e))
         | None \<Rightarrow> if owned \<noteq> [] then deleteOwned r owned else finishDelete r
       }
   }"


section \<open>The stash\<close>

text \<open>A list of VM names that survives the comma-separated annotation.\<close>

definition cleanNames :: "string list \<Rightarrow> bool" where
  "cleanNames names \<longleftrightarrow> list_all (\<lambda>n. n \<noteq> [] \<and> CHR '','' \<notin> set n \<and> noSpaceEnds n) names"

lemma parse_join_names:
  assumes "cleanNames names"
  shows "parseVMNamesAnnotation (join '','' names) = names"
proof (cases "names = []")
  case True
  then show ?thesis by (simp add: parseVMNamesAnnotation_def trimSpace_def trimLeft_def)
next
  case False
  with assms have "splitOn (CHR '','') (join '','' names) = names"
    by (intro splitOn_join) (auto simp: cleanNames_def list_all_iff)
  moreover have "map trimSpace names = names" and "filter (\<lambda>n. n \<noteq> []) names = names"
    using assms by (auto simp: cleanNames_def list_all_iff trimSpace_id filter_id_conv intro!: map_idI)
  ultimately show ?thesis by (simp add: parseVMNamesAnnotation_def)
qed

lemma set_stashNames:
  "set (stashNames M cs owned) = set (statusVMNames cs) \<union>
     set (parseVMNamesAnnotation (strAt (csAnnotations cs) annotationDeleteVMNames)) \<union>
     set (rcVMs (readHibernateReclaim cs)) \<union>
     {vmName (ParseVMSpec M p) | p. p \<in> set owned \<and> vmName (ParseVMSpec M p) \<noteq> []}"
  by (auto simp: stashNames_def)

text \<open>
  The API server answers an accepted patch with the object it was sent, as far as the annotation
  goes.
\<close>

definition storesStash :: "env \<Rightarrow> bool" where
  "storesStash r \<longleftrightarrow> (\<forall>h cs cs' got. cliPatchSet (cli r) h cs cs' = (None, got) \<longrightarrow>
     strAt (csAnnotations got) annotationDeleteVMNames = strAt (csAnnotations cs') annotationDeleteVMNames)"


definition demoFinal :: cocoonSet where
  "demoFinal = demoSet\<lparr>csAnnotations := [(annotationDeleteVMNames, ''vk-b, vk-a'')]\<rparr>"

lemma demo_stash:
  "run_state (stashDeleteVMNames (demoEnv [] [] [] 0) [demoRunning]) (demoWorld demoFinal []) =
     (None, final (stashDeleteVMNames (demoEnv [] [] [] 0) [demoRunning]) (demoWorld demoFinal []))"
proof -
  have "result (stashDeleteVMNames (demoEnv [] [] [] 0) [demoRunning]) (demoWorld demoFinal []) = None" by code_simp
  then show ?thesis by (simp add: result_def final_def prod_eq_iff)
qed



section \<open>Teardown\<close>

lemma deletePods_emits [emits_intros]:
  "(\<And>e. K (EvCtx e)) \<Longrightarrow> (\<And>p e. p \<in> set ps \<Longrightarrow> K (EvDeletePod p e)) \<Longrightarrow> emits K (deletePods r ps)"
  by (induction ps) (auto simp: ctxCheck_def intro!: emits_intros)

lemma stashDeleteVMNames_emits [emits_intros]:
  "(\<And>a b e. K (EvPatchSet a b e)) \<Longrightarrow> emits K (stashDeleteVMNames r owned)"
  unfolding stashDeleteVMNames_def patchSet_def by (intro emits_intros)

text \<open>\<open>onRegistry e\<close>: the event talks to the registry only.\<close>

definition onRegistry :: "event \<Rightarrow> bool" where
  "onRegistry e \<longleftrightarrow> (\<exists>n u a. e = EvHasManifest n u a) \<or> (\<exists>n u x. e = EvDeleteManifest n u x)"

lemma onRegistry_simps [simp]: "onRegistry (EvHasManifest n u a)" "onRegistry (EvDeleteManifest n u x)"
  by (simp_all add: onRegistry_def)

lemma wp_deleteManifest_gone:
  "wp (DeleteManifestIfPresent r name ref) (\<lambda>err t. theSet t = theSet s \<and>
     (\<exists>es. hist t = es @ hist s \<and> list_all onRegistry es \<and> (err = None \<longrightarrow> tagGone es name ref))) s"
  by (auto simp: wp_simps Let_def tagGone_def split: sum.split bool.split)

lemma wp_deleteTags:
  "wp (deleteTags r names) (\<lambda>err t. theSet t = theSet s \<and> (\<exists>es. hist t = es @ hist s \<and> list_all onRegistry es \<and>
     (err = None \<longrightarrow> (\<forall>n\<in>set names. tagGone es n (HibernateSnapshotTag (meta r)))))) s"
    (is "wp _ (?Q names s) s")
proof (induction names arbitrary: s)
  case Nil
  show ?case by (simp add: wp_return)
next
  case (Cons name names)
  let ?tag = "HibernateSnapshotTag (meta r)"
  have rest: "wp (deleteTags r names) (?Q (name # names) s) u"
    if "theSet u = theSet s" "hist u = fs @ hist s" "list_all onRegistry fs" "tagGone fs name ?tag" for u fs
  proof (rule wp_mono [OF Cons.IH], elim conjE exE, intro conjI)
    fix err :: "gerr option" and es and t :: setWorld
    assume t: "theSet t = theSet u" "hist t = es @ hist u" "list_all onRegistry es"
      "err = None \<longrightarrow> (\<forall>n\<in>set names. tagGone es n ?tag)"
    then show "theSet t = theSet s" using that(1) by simp
    have "tagGone (es @ fs) n ?tag" if "tagGone es n ?tag \<or> n = name" for n
      using that \<open>tagGone fs name ?tag\<close> by (auto simp: tagGone_def)
    with t that(2,3) show "\<exists>es. hist t = es @ hist s \<and> list_all onRegistry es \<and>
        (err = None \<longrightarrow> (\<forall>n\<in>set (name # names). tagGone es n ?tag))"
      by (intro exI [of _ "es @ fs"]) auto
  qed
  have latest: "wp (DeleteManifestIfPresent r name ref) (\<lambda>_. wp (deleteTags r names) (?Q (name # names) s)) u"
    if u: "theSet u = theSet s" "hist u = fs @ hist s" "list_all onRegistry fs" "tagGone fs name ?tag" for u fs ref
  proof (rule wp_mono [OF wp_deleteManifest_gone], elim conjE exE)
    fix es and t :: setWorld
    assume "theSet t = theSet u" "hist t = es @ hist u" "list_all onRegistry es"
    with u show "wp (deleteTags r names) (?Q (name # names) s) t"
      by (intro rest [of _ "es @ fs"]) (simp_all add: tagGone_mono)
  qed
  show ?case unfolding deleteTags.simps wp_bind
  proof (rule wp_mono [OF wp_deleteManifest_gone], elim conjE exE)
    fix err :: "gerr option" and fs and u :: setWorld
    assume u: "theSet u = theSet s" "hist u = fs @ hist s" "list_all onRegistry fs"
      "err = None \<longrightarrow> tagGone fs name ?tag"
    show "wp (case err of
        Some e \<Rightarrow> State_Monad.return (Some (ErrWrap (''delete snapshot '' @ name @ '':'' @ ?tag) e))
      | None \<Rightarrow> theCS \<bind> (\<lambda>cs. if shouldKeepLatestTag r cs name then deleteTags r names
          else DeleteManifestIfPresent r name (DefaultSnapshotTag (meta r)) \<bind> (\<lambda>_. deleteTags r names)))
        (?Q (name # names) s) u"
      using u rest [OF u(1-3)] latest [OF u(1-3)]
      by (cases err) (auto simp: wp_bind wp_theCS wp_return)
  qed
qed

text \<open>
  \<open>stashed M cs owned es\<close>: there is no name to keep, or the annotation holds the names already,
  or a patch among \<open>es\<close> that writes them was accepted.
\<close>

definition stashed :: "metaPkg \<Rightarrow> cocoonSet \<Rightarrow> pod list \<Rightarrow> history \<Rightarrow> bool" where
  "stashed M cs owned es \<longleftrightarrow>
     (let names = stashNames M cs owned; joined = join '','' names in
      names = [] \<or> strAt (csAnnotations cs) annotationDeleteVMNames = joined \<or>
      EvPatchSet cs (cs\<lparr>csAnnotations := AList.update annotationDeleteVMNames joined (csAnnotations cs)\<rparr>) None
        \<in> set es)"

lemma wp_stash:
  "wp (stashDeleteVMNames r owned) (\<lambda>err t. \<exists>es. hist t = es @ hist s \<and>
     (\<forall>e\<in>set es. \<exists>a b x. e = EvPatchSet a b x) \<and> (err = None \<longrightarrow> stashed (meta r) (theSet s) owned es)) s"
  by (auto simp: stashDeleteVMNames_def stashed_def wp_simps Let_def split_def)

fun updatesSet :: "event \<Rightarrow> bool" where
  "updatesSet (EvUpdateSet cs x) = True"
| "updatesSet _ = False"

text \<open>
  What a teardown pass may do after it listed the pods \<open>owned\<close>: a pod is deleted when it was
  listed and the names are stashed; the set is written when nothing was listed and the tags of
  all names its annotation holds are gone.
\<close>

fun teardownOk :: "env \<Rightarrow> cocoonSet \<Rightarrow> pod list \<Rightarrow> history \<Rightarrow> event \<Rightarrow> bool" where
  "teardownOk r cs owned pre (EvDeletePod q x) = (q \<in> set owned \<and> stashed (meta r) cs owned pre)"
| "teardownOk r cs owned pre (EvUpdateSet cs' x) = (owned = [] \<and>
     (\<forall>vm\<in>set (parseVMNamesAnnotation (strAt (csAnnotations cs') annotationDeleteVMNames)).
        tagGone pre vm (HibernateSnapshotTag (meta r))))"
| "teardownOk r cs owned pre e = True"

interpretation teardown: evidence "teardownOk r cs owned" for r cs owned
proof
  show "teardownOk r cs owned (es @ fs) e" if "teardownOk r cs owned fs e" for es fs e
    using that by (cases e) (auto simp: stashed_def Let_def tagGone_mono)
qed

lemma wp_deleteOwned:
  assumes "hist t = fs @ h" and "stashed (meta r) cs owned fs" and "guarded (teardownOk r cs owned) fs"
  shows "wp (deleteOwned r owned) (\<lambda>_ u. \<exists>es. hist u = es @ h \<and> guarded (teardownOk r cs owned) es) t"
proof -
  have "emits (\<lambda>e. (\<exists>x. e = EvCtx x) \<or> (\<exists>p\<in>set owned. \<exists>x. e = EvDeletePod p x)) (deleteOwned r owned)"
    unfolding deleteOwned_def by (intro emits_intros) auto
  then show ?thesis using assms(1,3) by (rule teardown.wp_keeps) (use assms(2) in auto)
qed

lemma wp_removeFinalizer:
  "wp (removeFinalizer r) (\<lambda>_ t. hist t = hist s \<or>
     (\<exists>cs' x. hist t = EvUpdateSet cs' x # hist s \<and> csAnnotations cs' = csAnnotations (theSet s))) s"
  by (auto simp: removeFinalizer_def wp_simps Let_def split_def)

lemma wp_finishDelete:
  assumes "hist t = fs @ h" and "guarded (teardownOk r cs []) fs"
  shows "wp (finishDelete r) (\<lambda>_ u. \<exists>es. hist u = es @ h \<and> guarded (teardownOk r cs []) es) t"
    (is "wp _ (\<lambda>_. ?P) t")
  unfolding finishDelete_def wp_bind wp_theCS
proof (rule wp_mono [OF wp_deleteTags], elim conjE exE)
  let ?names = "parseVMNamesAnnotation (strAt (csAnnotations (theSet t)) annotationDeleteVMNames)"
  fix err :: "gerr option" and es and u :: setWorld
  assume u: "theSet u = theSet t" "hist u = es @ hist t" "list_all onRegistry es"
    "err = None \<longrightarrow> (\<forall>n\<in>set ?names. tagGone es n (HibernateSnapshotTag (meta r)))"
  from u(3) have "list_all (teardownOk r cs [] fs) es"
    by (rule list.pred_mono_strong) (auto simp: onRegistry_def)
  with assms(2) have quiet: "guarded (teardownOk r cs []) (es @ fs)" by (rule teardown.guarded_more)
  have "wp (removeFinalizer r) (\<lambda>_. ?P) u" if "err = None"
  proof (rule wp_mono [OF wp_removeFinalizer], elim disjE exE conjE)
    fix v :: setWorld
    assume "hist v = hist u"
    with quiet u(2) assms(1) show "?P v" by (intro exI [of _ "es @ fs"]) simp
  next
    fix cs' x and v :: setWorld
    assume v: "hist v = EvUpdateSet cs' x # hist u" "csAnnotations cs' = csAnnotations (theSet u)"
    with u(1,4) that have "teardownOk r cs [] (es @ fs) (EvUpdateSet cs' x)"
      by (auto simp: tagGone_def)
    with v(1) u(2) assms(1) quiet show "?P v"
      by (intro exI [of _ "EvUpdateSet cs' x # es @ fs"]) simp
  qed
  moreover have "?P u" using quiet u(2) assms(1) by (intro exI [of _ "es @ fs"]) simp
  ultimately show "wp (case err of Some e \<Rightarrow> State_Monad.return (noRequeue, Some e) | None \<Rightarrow> removeFinalizer r)
      (\<lambda>_. ?P) u"
    by (cases err) (simp_all add: wp_return)
qed

text \<open>
  C6: the order of a teardown. Whatever the outside world answers, a pass of \<open>reconcileDelete\<close>
  deletes a pod only when it listed it as controlled by the set and the VM names of everything
  the set owns are stashed; and it writes the set without its finalizer only when it listed no
  controlled pod and, for every VM name the written set's annotation holds, the \<open>:hibernate\<close> tag
  was seen absent or was deleted in this pass.
\<close>

theorem teardown_order:
  "\<exists>es got. hist (final (reconcileDelete r) s) =
       es @ EvListPods (csNamespace (theSet s)) (LabelCocoonSet (meta r)) (csName (theSet s)) got # hist s \<and>
     (case got of
        Inl _ \<Rightarrow> es = []
      | Inr items \<Rightarrow> guarded (teardownOk r (theSet s) (filter (\<lambda>p. IsControlledBy (kube r) p (theSet s)) items)) es)"
proof -
  let ?cs = "theSet s"
  define got where "got = cliListPods (cli r) (hist s) (csNamespace ?cs) (LabelCocoonSet (meta r)) (csName ?cs)"
  define h where "h = EvListPods (csNamespace ?cs) (LabelCocoonSet (meta r)) (csName ?cs) got # hist s"
  have "wp (reconcileDelete r) (\<lambda>_ t. \<exists>es. hist t = es @ h \<and> (case got of Inl _ \<Rightarrow> es = []
      | Inr items \<Rightarrow> guarded (teardownOk r ?cs (filter (\<lambda>p. IsControlledBy (kube r) p ?cs) items)) es)) s"
  proof (cases got)
    case (Inl e)
    then show ?thesis
      by (simp add: reconcileDelete_def wp_bind wp_theCS wp_listOwnedPods got_def [symmetric] h_def wp_return)
  next
    case (Inr items)
    let ?owned = "filter (\<lambda>p. IsControlledBy (kube r) p ?cs) items" and ?s = "s\<lparr>hist := h\<rparr>"
    let ?P = "\<lambda>t. \<exists>es. hist t = es @ h \<and> guarded (teardownOk r ?cs ?owned) es"
    have "wp (stashDeleteVMNames r ?owned) (\<lambda>err. wp (case err of
           Some e \<Rightarrow> State_Monad.return (noRequeue, Some (ErrWrap ''stash vm names'' e))
         | None \<Rightarrow> if ?owned \<noteq> [] then deleteOwned r ?owned else finishDelete r) (\<lambda>_. ?P)) ?s"
    proof (rule wp_mono [OF wp_stash], elim exE conjE)
      fix err :: "gerr option" and fs and t :: setWorld
      assume t: "hist t = fs @ hist ?s" "\<forall>e\<in>set fs. \<exists>a b x. e = EvPatchSet a b x"
        "err = None \<longrightarrow> stashed (meta r) (theSet ?s) ?owned fs"
      have quiet: "guarded (teardownOk r ?cs ?owned) fs"
        using t(2) by (intro teardown.guarded_start) (auto simp: list_all_iff)
      then have "?P t" using t(1) by auto
      moreover have "wp (deleteOwned r ?owned) (\<lambda>_. ?P) t" if "err = None"
        using t that quiet by (intro wp_deleteOwned) simp_all
      moreover have "wp (finishDelete r) (\<lambda>_. ?P) t" if "?owned = []"
        unfolding that using t(1) quiet that by (intro wp_finishDelete) simp_all
      ultimately show "wp (case err of
           Some e \<Rightarrow> State_Monad.return (noRequeue, Some (ErrWrap ''stash vm names'' e))
         | None \<Rightarrow> if ?owned \<noteq> [] then deleteOwned r ?owned else finishDelete r) (\<lambda>_. ?P) t"
        by (cases err; cases "?owned = []") (simp_all add: wp_return)
    qed
    moreover have "EvListPods (csNamespace ?cs) (LabelCocoonSet (meta r)) (csName ?cs) (Inr items) # hist s = h"
      using Inr by (simp add: h_def)
    ultimately show ?thesis using Inr
      by (simp add: reconcileDelete_def wp_bind wp_theCS wp_listOwnedPods got_def [symmetric] deleteFunc_def
          split del: if_split)
  qed
  then show ?thesis unfolding wp_result_final h_def by blast
qed

lemma demo_teardown:
  "list_ex updatesSet
     (hist (final (reconcileDelete (demoEnv [] [] [((''vk-a'', ''hibernate''), ''i'')] 0)) (demoWorld demoFinal [])))"
  by code_simp

theorem teardown_order_witness:
  "\<exists>pre cs' x. updatesSet (EvUpdateSet cs' x) \<and>
     teardownOk (demoEnv [] [] [((''vk-a'', ''hibernate''), ''i'')] 0) demoFinal [] pre (EvUpdateSet cs' x)"
proof -
  let ?r = "demoEnv [] [] [((''vk-a'', ''hibernate''), ''i'')] 0" and ?s = "demoWorld demoFinal []"
  have w: "hist ?s = []" "theSet ?s = demoFinal" by (simp_all add: demoWorld_def)
  obtain es got where es: "hist (final (reconcileDelete ?r) ?s) =
       es @ EvListPods (csNamespace demoFinal) (LabelCocoonSet (meta ?r)) (csName demoFinal) got # []"
     "case got of Inl _ \<Rightarrow> es = [] | Inr items \<Rightarrow>
        guarded (teardownOk ?r demoFinal (filter (\<lambda>p. IsControlledBy (kube ?r) p demoFinal) items)) es"
    using teardown_order [of ?r ?s] unfolding w by blast
  from demo_teardown es(1) obtain e where e: "e \<in> set es" "updatesSet e" by (auto simp: list_ex_iff)
  from e(2) obtain cs' x where u: "e = EvUpdateSet cs' x" by (cases e) simp_all
  from e(1) es(2) obtain items where "guarded (teardownOk ?r demoFinal (filter (\<lambda>p. IsControlledBy (kube ?r) p demoFinal) items)) es"
    by (cases got) auto
  from guardedD [OF this e(1)] u show ?thesis by auto
qed

end
