(* ===== verification/SlotRelease.thy ===== *)
theory SlotRelease
  imports DeleteSet
begin

text \<open>
  \<open>cocoonset/slotrelease.go\<close>: suspending with the release policy, which deletes the pods once
  every VM is hibernated, and waking a released set, which recreates the main agent from the
  snapshot.
\<close>

definition hasLivePod :: "metaPkg \<Rightarrow> podStore \<Rightarrow> classifiedPods \<Rightarrow> bool" where
  "hasLivePod M H c = list_ex (\<lambda>i. \<not> IsPodTerminal M (H i)) (sortedVals (clsAllByName c))"

definition podUnschedulable :: "pod \<Rightarrow> string" where
  "podUnschedulable p =
     (case find (\<lambda>c. pcType c = ''PodScheduled'' \<and> pcStatus c = ''False'' \<and> pcReason c = ''Unschedulable'')
         (podConditions p) of
        None \<Rightarrow> []
      | Some c \<Rightarrow> pcMessage c)"

definition podsSlice :: "podStore \<Rightarrow> classifiedPods \<Rightarrow> pod list" where
  "podsSlice H c = map H (sortedVals (clsAllByName c))"

definition releasePod :: "env \<Rightarrow> nat \<Rightarrow> gerr option setIO" where
  "releasePod r i = do {
     p \<leftarrow> podAt i;
     if IsPodTerminal (meta r) p then State_Monad.return None
     else do {
       _ \<leftarrow> patchAt i (podpatchKeepSnapshotOnDelete r);
       p \<leftarrow> podAt i;
       err \<leftarrow> deleteIgnoringNotFound r p;
       case err of
         Some e \<Rightarrow> State_Monad.return (Some (ErrWrap
           (''slot release: delete pod '' @ podNamespace p @ ''/'' @ podName p) e))
       | None \<Rightarrow> do {
           cs \<leftarrow> theCS;
           emit (EvMetric SlotReleasePodsDeletedTotal [podNamespace p, csName cs] 1);
           State_Monad.return None
         }
     }
   }"

text \<open>The node hint: the main's node, kept for the wake.\<close>

definition stashNodeHint :: "env \<Rightarrow> classifiedPods \<Rightarrow> gerr option setIO" where
  "stashNodeHint r c =
     (case clsMain c of
        None \<Rightarrow> State_Monad.return None
      | Some i \<Rightarrow> do {
          p \<leftarrow> podAt i;
          if podNodeName p = [] then State_Monad.return None
          else patchAnnotationSet r (AnnotationHibernatedOnNode (meta r)) (podNodeName p)
        })"

text \<open>From the settled gate to the receipt.\<close>

definition releasePods :: "env \<Rightarrow> classifiedPods \<Rightarrow> outcome setIO" where
  "releasePods r c = do {
     err \<leftarrow> stashNodeHint r c;
     case err of
       Some e \<Rightarrow> State_Monad.return (noRequeue, Some e)
     | None \<Rightarrow> do {
         err \<leftarrow> forEachSorted r c (releasePod r);
         case err of
           Some e \<Rightarrow> State_Monad.return (noRequeue, Some e)
         | None \<Rightarrow> do {
             err \<leftarrow> patchPhase r c CSSuspended;
             State_Monad.return (requeueIn requeueSuspendPoll, err)
           }
       }
   }"

definition releaseSlots :: "env \<Rightarrow> classifiedPods \<Rightarrow> outcome setIO" where
  "releaseSlots r c = do {
     s \<leftarrow> State_Monad.get;
     err \<leftarrow> stashDeleteVMNames r (podsSlice (podHeap s) c);
     case err of
       Some e \<Rightarrow> State_Monad.return (noRequeue, Some (ErrWrap ''stash vm names before slot release'' e))
     | None \<Rightarrow> releasePods r c
   }"

definition reconcileSuspendRelease :: "env \<Rightarrow> classifiedPods \<Rightarrow> outcome setIO" where
  "reconcileSuspendRelease r c = do {
     s \<leftarrow> State_Monad.get;
     if \<not> hasLivePod (meta r) (podHeap s) c then settleSuspend r c
     else do {
       err \<leftarrow> applySuspend r c;
       case err of
         Some e \<Rightarrow> State_Monad.return (noRequeue, Some e)
       | None \<Rightarrow> do {
           (done, err) \<leftarrow> allOwnedPodsHibernated r c;
           if err \<noteq> None \<or> \<not> done then pollSuspend r c err
           else do {
             err \<leftarrow> clearSuspendDeadline r;
             case err of
               Some e \<Rightarrow> State_Monad.return (noRequeue, Some e)
             | None \<Rightarrow> releaseSlots r c
           }
         }
     }
   }"

definition confirmReleasedDelete :: "env \<Rightarrow> pod \<Rightarrow> handled setIO" where
  "confirmReleasedDelete r main = do {
     got \<leftarrow> readPod r (podNamespace main) (podName main);
     case got of
       Inl err \<Rightarrow>
         if isNotFound err then State_Monad.return (True, requeueIn requeueWaitForMain, None)
         else State_Monad.return (True, noRequeue, Some (ErrWrap
           (''wake: confirm delete of '' @ podNamespace main @ ''/'' @ podName main) err))
     | Inr live \<Rightarrow>
         if podDeletionTimestamp live \<noteq> None
         then State_Monad.return (True, requeueIn requeueWaitForMain, None)
         else State_Monad.return (False, noRequeue, None)
   }"

text \<open>The pod a wake creates: restoring, and preferring the node it was hibernated on.\<close>

definition wokenPod :: "metaPkg \<Rightarrow> string \<Rightarrow> pod \<Rightarrow> pod" where
  "wokenPod M node p =
     (let p = MarkRestoreFromHibernate M p
      in if node \<noteq> [] \<and> podAffinity p = None
         then p\<lparr>podAffinity := Some (preferredHostnameAffinity node)\<rparr> else p)"

definition createWoken :: "env \<Rightarrow> classifiedPods \<Rightarrow> pod \<Rightarrow> handled setIO" where
  "createWoken r c p = do {
     err \<leftarrow> patchPhase r c CSWaking;
     case err of
       Some e \<Rightarrow> State_Monad.return (True, noRequeue, Some e)
     | None \<Rightarrow> do {
         cs \<leftarrow> theCS;
         err \<leftarrow> createPod r (wokenPod (meta r) (strAt (csAnnotations cs) (AnnotationHibernatedOnNode (meta r))) p);
         case err of
           None \<Rightarrow> State_Monad.return (True, requeueIn requeueWaitForMain, None)
         | Some e \<Rightarrow>
             if isAlreadyExists e then State_Monad.return (True, requeueIn requeueWaitForMain, None)
             else State_Monad.return (True, noRequeue, Some (ErrWrap ''wake: create main'' e))
       }
   }"

text \<open>No snapshot to wake from: drop the node hint and leave the main to the ordinary create.\<close>

definition skipReleasedWake :: "env \<Rightarrow> handled setIO" where
  "skipReleasedWake r = do {
     cs \<leftarrow> theCS;
     err \<leftarrow> (if strAt (csAnnotations cs) (AnnotationHibernatedOnNode (meta r)) \<noteq> []
       then patchAnnotationSet r (AnnotationHibernatedOnNode (meta r)) []
       else State_Monad.return None);
     case err of
       Some e \<Rightarrow> State_Monad.return (True, noRequeue, Some e)
     | None \<Rightarrow> State_Monad.return (False, noRequeue, None)
   }"

definition startReleasedWake :: "env \<Rightarrow> classifiedPods \<Rightarrow> handled setIO" where
  "startReleasedWake r c = do {
     cs \<leftarrow> theCS;
     case buildAgentPod r cs 0 [] [] of
       Inl err \<Rightarrow> State_Monad.return (True, noRequeue, Some (ErrWrap ''wake: build main'' err))
     | Inr p \<Rightarrow> do {
         (_, err) \<leftarrow> discardImageConflict r p;
         case err of
           Some e \<Rightarrow> State_Monad.return (True, noRequeue, Some (ErrWrap ''wake'' e))
         | None \<Rightarrow> do {
             cs \<leftarrow> theCS;
             got \<leftarrow> HasHibernateSnapshot r
               (VMNameForDeployment (meta r) (csNamespace cs) (csName cs) 0);
             case got of
               Inl err \<Rightarrow> State_Monad.return (True, noRequeue, Some (ErrWrap ''wake'' err))
             | Inr present \<Rightarrow>
                 if present then createWoken r c p else skipReleasedWake r
           }
       }
   }"

definition awaitSeat :: "env \<Rightarrow> classifiedPods \<Rightarrow> pod \<Rightarrow> handled setIO" where
  "awaitSeat r c main = do {
     cs \<leftarrow> theCS;
     let msg = podUnschedulable main;
     _ \<leftarrow> (if msg \<noteq> [] then do {
            emit (EvMetric SlotReleaseWakeUnschedulableTotal
              [csNamespace cs, csName cs] 1);
            emit (EvRecord ''Warning'' ''WakeNoCapacity''
              (''main pod '' @ podName main @ '' unschedulable: '' @ msg))
          } else State_Monad.return ());
     err \<leftarrow> patchPhase r c CSWaking;
     State_Monad.return (True, requeueIn requeueSuspendPoll, err)
   }"

definition finishWake :: "env \<Rightarrow> classifiedPods \<Rightarrow> pod \<Rightarrow> string \<Rightarrow> handled setIO" where
  "finishWake r c main hint = do {
     let vm = vmName (ParseVMSpec (meta r) main);
     err \<leftarrow> deleteManifest r vm (HibernateSnapshotTag (meta r));
     case err of
       Some e \<Rightarrow> State_Monad.return (True, noRequeue, Some (ErrWrap (''wake: drop hibernate snapshot '' @ vm) e))
     | None \<Rightarrow> do {
         err \<leftarrow> (if hint \<noteq> [] then do {
                cs \<leftarrow> theCS;
                emit (EvMetric SlotReleaseWakeTotal [csNamespace cs, csName cs,
                  if hint = podNodeName main then ''hint-node'' else ''pool''] 1);
                patchAnnotationSet r (AnnotationHibernatedOnNode (meta r)) []
              } else State_Monad.return None);
         case err of
           Some e \<Rightarrow> State_Monad.return (True, noRequeue, Some e)
         | None \<Rightarrow> do {
             err \<leftarrow> patchPhase r c CSNone;
             State_Monad.return (True, requeueIn requeueAfterWrite, err)
           }
       }
   }"

definition reconcileWake :: "env \<Rightarrow> classifiedPods \<Rightarrow> handled setIO" where
  "reconcileWake r c = do {
     s \<leftarrow> State_Monad.get;
     let M = meta r;
     let cs = theSet s;
     let phase = stPhase (csStatus cs);
     let main = map_option (podHeap s) (clsMain c);
     let hint = strAt (csAnnotations cs) (AnnotationHibernatedOnNode M);
     let suspended = (phase = CSSuspended);
     let suspending = (phase = CSSuspending \<and> hint \<noteq> []);
     let cleanupPending = (case main of
         None \<Rightarrow> False
       | Some p \<Rightarrow> ReadRestoreFromHibernate M p \<and> \<not> ReadHibernateState M p \<and> hint \<noteq> []);
     let waking = (phase = CSWaking \<or> cleanupPending);
     if \<not> waking \<and> \<not> suspended \<and> \<not> suspending then State_Monad.return (False, noRequeue, None)
     else (case main of
         None \<Rightarrow> startReleasedWake r c
       | Some p \<Rightarrow>
           if waking \<and> \<not> VMLive M p then awaitSeat r c p
           else if waking \<and> VMLive M p then finishWake r c p hint
           else if (suspended \<or> suspending) \<and> hint \<noteq> [] \<and> \<not> IsPodTerminal M p
           then confirmReleasedDelete r p
           else State_Monad.return (False, noRequeue, None))
   }"


section \<open>Footprints\<close>

lemma releasePod_emits [emits_intros]:
  assumes "\<And>p q e. K (EvPatchPod p q e)" and "\<And>p e. K (EvDeletePod p e)" and "\<And>n ls d. labelled n ls \<Longrightarrow> K (EvMetric n ls d)"
  shows "emits K (releasePod r i)"
  unfolding releasePod_def by (intro emits_intros assms)

lemma settleSuspend_emits [emits_intros]:
  assumes "\<And>t. K (EvNow t)" and "\<And>cs k v e. K (EvAnnotateSet cs k v e)" and "\<And>a b e. K (EvPatchSetStatus a b e)"
  shows "emits K (settleSuspend r c)"
  unfolding settleSuspend_def by (intro emits_intros assms)

lemma stashNodeHint_emits [emits_intros]:
  "(\<And>cs k v e. K (EvAnnotateSet cs k v e)) \<Longrightarrow> emits K (stashNodeHint r c)"
  unfolding stashNodeHint_def by (intro emits_intros)

lemma releaseSlots_emits [emits_intros]:
  assumes "\<And>p q e. K (EvPatchPod p q e)" and "\<And>p e. K (EvDeletePod p e)" and "\<And>n ls d. labelled n ls \<Longrightarrow> K (EvMetric n ls d)"
    and "\<And>t. K (EvNow t)" and "\<And>cs k v e. K (EvAnnotateSet cs k v e)" and "\<And>a b e. K (EvPatchSetStatus a b e)"
    and "\<And>a b e. K (EvPatchSet a b e)" and "\<And>e. K (EvCtx e)"
  shows "emits K (releaseSlots r c)"
  unfolding releaseSlots_def releasePods_def by (intro emits_intros assms)


section \<open>Releasing the slots\<close>

fun deletesPod :: "event \<Rightarrow> bool" where
  "deletesPod (EvDeletePod p x) = True"
| "deletesPod _ = False"

interpretation stash: evidence "\<lambda>pre e. deletesPod e \<longrightarrow> stashed M cs owned pre" for M cs owned
  by unfold_locales (auto simp: stashed_def Let_def)

lemma pollSuspend_emits [emits_intros]:
  assumes "\<And>t. K (EvNow t)" and "\<And>cs k v e. K (EvAnnotateSet cs k v e)" and "\<And>a b c. K (EvRecord a b c)"
    and "\<And>a b e. K (EvPatchSetStatus a b e)"
  shows "emits K (pollSuspend r c probeErr)"
  unfolding pollSuspend_def by (intro emits_intros assms)


lemma demo_releases:
  "list_ex deletesPod (hist (final (reconcileSuspendRelease demoHibernated demoOne) (demoWorld demoSet [demoRunning])))"
  by code_simp



section \<open>Waking\<close>

text \<open>
  \<open>persisted r cs ph es\<close>: a status with phase \<open>ph\<close> was accepted by the server, or the stored one
  already equals one.
\<close>

definition persisted :: "env \<Rightarrow> cocoonSet \<Rightarrow> csPhase \<Rightarrow> history \<Rightarrow> bool" where
  "persisted r cs ph es \<longleftrightarrow>
     (\<exists>a b. EvPatchSetStatus a b None \<in> set es \<and> stPhase (csStatus b) = ph) \<or>
     (\<exists>status. stPhase status = ph \<and> DeepEqualStatus (kube r) (csStatus cs) status)"

lemma persisted_append: "persisted r cs ph fs \<Longrightarrow> persisted r cs ph (es @ fs)"
  unfolding persisted_def by auto

lemma wp_patchPhase_ok:
  assumes "phase \<noteq> CSNone"
  shows "wp (patchPhase r c phase) (\<lambda>err t. podHeap t = podHeap s \<and> (\<exists>es. hist t = es @ hist s \<and>
     (\<forall>e\<in>set es. (\<exists>t. e = EvNow t) \<or> (\<exists>a b x. e = EvPatchSetStatus a b x)) \<and>
     (err = None \<longrightarrow> persisted r (theSet s) phase es))) s"
  unfolding patchPhase_def patchStatus_def wp_bind wp_get wp_theCS
proof (rule wp_mono [OF wp_mergeConditions], elim exE conjE)
  fix merged ts and t :: setWorld
  let ?st = "(buildStatus r (theSet s) (podHeap s) c phase)\<lparr>stConditions := merged\<rparr>"
  assume t: "t = s\<lparr>hist := map EvNow (rev ts) @ hist s\<rparr>"
  have phase: "stPhase ?st = phase" by (simp add: buildStatus_phase assms)
  have same: "persisted r (theSet s) phase es" if "DeepEqualStatus (kube r) (csStatus (theSet s)) ?st" for es
    unfolding persisted_def using that phase by blast
  have sent: "persisted r (theSet s) phase (EvPatchSetStatus a (a\<lparr>csStatus := ?st\<rparr>) None # es)" for a es
    unfolding persisted_def using phase by (intro disjI1 exI [of _ a] exI [of _ "a\<lparr>csStatus := ?st\<rparr>"]) simp
  show "wp (let status = ?st in if DeepEqualStatus (kube r) (csStatus (theSet s)) status
      then State_Monad.return None
      else do { (err, cs') \<leftarrow> patchSetStatus r (theSet s) (\<lambda>c. c\<lparr>csStatus := status\<rparr>);
        putCS cs';
        State_Monad.return (map_option (ErrWrap (''patch status '' @ csNamespace cs' @ ''/'' @ csName cs')) err) })
    (\<lambda>err t. podHeap t = podHeap s \<and> (\<exists>es. hist t = es @ hist s \<and>
     (\<forall>e\<in>set es. (\<exists>t. e = EvNow t) \<or> (\<exists>a b x. e = EvPatchSetStatus a b x)) \<and>
     (err = None \<longrightarrow> persisted r (theSet s) phase es))) t"
    using same sent by (auto simp: t wp_simps Let_def split_def)
qed

text \<open>When the wake may create the main: the tag was probed, the phase persisted, the pod restores.\<close>

fun wakeOk :: "env \<Rightarrow> cocoonSet \<Rightarrow> pod \<Rightarrow> history \<Rightarrow> event \<Rightarrow> bool" where
  "wakeOk r cs p pre (EvCreatePod q x) =
     (EvHasManifest (VMNameForDeployment (meta r) (csNamespace cs) (csName cs) 0) (HibernateSnapshotTag (meta r)) (Inr True)
        \<in> set pre \<and>
      persisted r cs CSWaking pre \<and> (\<exists>node. q = wokenPod (meta r) node p))"
| "wakeOk r cs p pre e = True"

interpretation wake: evidence "wakeOk r cs p" for r cs p
proof
  show "wakeOk r cs p (es @ fs) e" if "wakeOk r cs p fs e" for es fs e
    using that by (cases e) (auto simp: persisted_append)
qed

lemma wp_createWoken:
  assumes "hist t = fs @ h" and "guarded (wakeOk r (theSet t) p) fs"
    and "EvHasManifest (VMNameForDeployment (meta r) (csNamespace (theSet t)) (csName (theSet t)) 0)
      (HibernateSnapshotTag (meta r)) (Inr True) \<in> set fs"
  shows "wp (createWoken r c p) (\<lambda>_ u. \<exists>es. hist u = es @ h \<and> guarded (wakeOk r (theSet t) p) es) t"
    (is "wp _ (\<lambda>_. ?P) t")
  unfolding createWoken_def wp_bind
proof (rule wp_mono [OF wp_patchPhase_ok], simp, elim conjE exE)
  fix err :: "gerr option" and es and u :: setWorld
  let ?q = "wokenPod (meta r) (strAt (csAnnotations (theSet u)) (AnnotationHibernatedOnNode (meta r))) p"
  assume u: "hist u = es @ hist t" "\<forall>e\<in>set es. (\<exists>t. e = EvNow t) \<or> (\<exists>a b x. e = EvPatchSetStatus a b x)"
    "err = None \<longrightarrow> persisted r (theSet t) CSWaking es"
  from assms(2) have quiet: "guarded (wakeOk r (theSet t) p) (es @ fs)"
    by (rule wake.guarded_more) (use u(2) in \<open>auto simp: list_all_iff\<close>)
  have "?P (u\<lparr>hist := EvCreatePod ?q x # hist u\<rparr>)" if "err = None" for x
  proof -
    have "persisted r (theSet t) CSWaking (es @ fs)" using u(3) that by (auto simp: persisted_def)
    then have "wakeOk r (theSet t) p (es @ fs) (EvCreatePod ?q x)" using assms(3) by auto
    with assms(1) quiet u(1) show ?thesis by (intro exI [of _ "EvCreatePod ?q x # es @ fs"]) simp
  qed
  moreover have "?P u" using quiet u(1) assms(1) by (intro exI [of _ "es @ fs"]) simp
  ultimately show "wp (case err of Some e \<Rightarrow> State_Monad.return (True, noRequeue, Some e)
     | None \<Rightarrow> do {
         cs \<leftarrow> theCS;
         err \<leftarrow> createPod r (wokenPod (meta r) (strAt (csAnnotations cs) (AnnotationHibernatedOnNode (meta r))) p);
         case err of
           None \<Rightarrow> State_Monad.return (True, requeueIn requeueWaitForMain, None)
         | Some e \<Rightarrow>
             if isAlreadyExists e then State_Monad.return (True, requeueIn requeueWaitForMain, None)
             else State_Monad.return (True, noRequeue, Some (ErrWrap ''wake: create main'' e))
       }) (\<lambda>_. ?P) u"
    by (cases err) (auto simp: wp_simps split: option.split)
qed

text \<open>
  C16: a released set wakes from its snapshot. The wake creates the main only as the pod built
  from the spec, marked to restore (a preference for the old node apart), after a probe of this
  pass saw the \<open>:hibernate\<close> tag and after the phase \<open>Waking\<close> is stored, so that a crash between
  the two leaves a set that the next pass recognises as waking.
\<close>

theorem wake_restores:
  assumes "buildAgentPod r (theSet s) 0 [] [] = Inr p"
  shows "\<exists>es. hist (final (startReleasedWake r c) s) = es @ hist s \<and>
    guarded (wakeOk r (theSet (final (discardImageConflict r p) s)) p) es"
proof -
  let ?d = "final (discardImageConflict r p) s"
  let ?P = "\<lambda>t. \<exists>es. hist t = es @ hist s \<and> guarded (wakeOk r (theSet ?d) p) es"
  let ?vm = "VMNameForDeployment (meta r) (csNamespace (theSet ?d)) (csName (theSet ?d)) 0"
  let ?tag = "HibernateSnapshotTag (meta r)"
  let ?none = "\<lambda>e. \<forall>q x. e \<noteq> EvCreatePod q x"
  have none: "?none e \<Longrightarrow> wakeOk r cs p pre e" for e cs pre by (cases e) auto
  have "emits ?none (discardImageConflict r p)" by (intro emits_intros) simp_all
  then obtain fs where fs: "hist ?d = fs @ hist s" "list_all ?none fs" by (rule emitsE)
  have quiet: "guarded (wakeOk r (theSet ?d) p) (es @ fs)" if "list_all ?none es" for es
    using fs(2) that by (intro wake.guarded_start) (auto simp: list_all_iff intro: none)
  let ?t = "\<lambda>a. ?d\<lparr>hist := EvHasManifest ?vm ?tag a # hist ?d\<rparr>"
  have "wp (createWoken r c p) (\<lambda>_. ?P) (?t (Inr True))"
    using wp_createWoken [of "?t (Inr True)" "EvHasManifest ?vm ?tag (Inr True) # fs" "hist s" r p c]
      fs(1) quiet [of "[EvHasManifest ?vm ?tag (Inr True)]"] by simp
  moreover have "?P (?t a)" for a
    using quiet [of "[EvHasManifest ?vm ?tag a]"] fs(1)
    by (intro exI [of _ "EvHasManifest ?vm ?tag a # fs"]) simp
  moreover have "wp (skipReleasedWake r) (\<lambda>_. ?P) (?t a)" for a
    by (rule wake.wp_keeps [where K = ?none and fs = "EvHasManifest ?vm ?tag a # fs"])
      (use quiet [of "[EvHasManifest ?vm ?tag a]"] fs(1) none in \<open>auto simp: skipReleasedWake_def intro!: emits_intros\<close>)
  moreover have "?P ?d" using quiet [of "[]"] fs(1) by auto
  ultimately have "wp (startReleasedWake r c) (\<lambda>_. ?P) s"
    unfolding startReleasedWake_def wp_bind wp_theCS assms sum.case wp_result_final [of "discardImageConflict r p"]
    by (cases "snd (result (discardImageConflict r p) s)")
      (auto simp: split_def wp_bind wp_theCS wp_return HasHibernateSnapshot_wp Let_def split: sum.split)
  then show ?thesis by (simp add: wp_result_final)
qed

lemma demo_wake:
  "createdWith (annTrue ''restore'')
     (hist (final (startReleasedWake demoTagged \<lparr>clsMain = None, clsSub = [], clsToolbox = [], clsAllByName = []\<rparr>)
        (demoWorld demoSet [])))"
  by code_simp

theorem wake_restores_witness:
  "\<exists>pre q x cs. annTrue ''restore'' q \<and> wakeOk demoTagged cs demoBuiltMain pre (EvCreatePod q x)"
proof -
  let ?c = "\<lparr>clsMain = None, clsSub = [], clsToolbox = [], clsAllByName = []\<rparr>"
  have w: "theSet (demoWorld demoSet []) = demoSet" "hist (demoWorld demoSet []) = []" by (simp_all add: demoWorld_def)
  obtain q x where q: "annTrue ''restore'' q"
    "EvCreatePod q x \<in> set (hist (final (startReleasedWake demoTagged ?c) (demoWorld demoSet [])))"
    using createdWithD [OF demo_wake] by blast
  have "buildAgentPod demoTagged (theSet (demoWorld demoSet [])) 0 [] [] = Inr demoBuiltMain"
    by (simp only: w demoBuiltMain_fields)
  from wake_restores [OF this, of ?c] w(2) q(2) guardedD q(1) show ?thesis by (metis append_Nil2)
qed

fun dropsLive :: "metaPkg \<Rightarrow> pod \<Rightarrow> event \<Rightarrow> bool" where
  "dropsLive M p (EvDeleteManifest n u x) =
     (VMLive M p \<and> n = vmName (ParseVMSpec M p) \<and> u = HibernateSnapshotTag M)"
| "dropsLive M p _ = True"


fun dropsTag :: "event \<Rightarrow> bool" where
  "dropsTag (EvDeleteManifest n u x) = True"
| "dropsTag _ = False"

definition demoAwake :: setWorld where
  "demoAwake = demoWorld (demoSet\<lparr>csStatus := demoStatus\<lparr>stPhase := CSWaking\<rparr>\<rparr>)
     [demoRunning\<lparr>podAnnotations := [(''vm'', ''vk-ns-s-0''), (''vmid'', ''7'')]\<rparr>]"

lemma demo_drops: "list_ex dropsTag (hist (final (reconcileWake demoHibernated demoOne) demoAwake))"
  by code_simp


end
