(* ===== verification/Migrate.thy ===== *)
theory Migrate
  imports SlotRelease
begin

text \<open>
  \<open>cocoonset/migrate.go\<close>: moving the main agent to another node through its \<open>:hibernate\<close>
  snapshot. The old pod is deleted only after this controller quiesced it and the snapshot was
  seen in the registry.
\<close>

definition pinnedElsewhere :: "pod \<Rightarrow> string \<Rightarrow> bool" where
  "pinnedElsewhere p nodeName =
     (if podNodeName p \<noteq> [] then False
      else case Option.bind (Option.bind (podAffinity p) affNode) naRequired of
             None \<Rightarrow> False
           | Some terms \<Rightarrow>
               list_ex (list_ex (\<lambda>req. reqKey req = LabelHostname \<and> reqValues req \<noteq> [nodeName])) terms)"

definition markMigrating :: "env \<Rightarrow> classifiedPods \<Rightarrow> handled setIO" where
  "markMigrating r c = do {
     err \<leftarrow> patchPhase r c CSMigrating;
     cs \<leftarrow> theCS;
     case err of
       Some e \<Rightarrow> State_Monad.return (True, noRequeue, Some (ErrWrap
         (''migrate: patch migrating status '' @ csNamespace cs @ ''/'' @ csName cs) e))
     | None \<Rightarrow> State_Monad.return (True, requeueIn requeueMigratePoll, None)
   }"

definition quiesceMain :: "env \<Rightarrow> nat \<Rightarrow> handled setIO" where
  "quiesceMain r i = do {
     err \<leftarrow> patchAt i (podpatchHibernateState r True);
     p \<leftarrow> podAt i;
     case err of
       Some e \<Rightarrow> State_Monad.return (True, noRequeue, Some (ErrWrap
         (''migrate: patch hibernate on '' @ podNamespace p @ ''/'' @ podName p) e))
     | None \<Rightarrow> State_Monad.return (True, requeueIn requeueMigratePoll, None)
   }"

definition startMigration :: "env \<Rightarrow> classifiedPods \<Rightarrow> nat \<Rightarrow> handled setIO" where
  "startMigration r c i = do {
     err \<leftarrow> patchPhase r c CSMigrating;
     cs \<leftarrow> theCS;
     case err of
       Some e \<Rightarrow> State_Monad.return (True, noRequeue, Some (ErrWrap
         (''migrate: patch migrating status '' @ csNamespace cs @ ''/'' @ csName cs) e))
     | None \<Rightarrow> quiesceMain r i
   }"

definition dropStaleTag :: "env \<Rightarrow> classifiedPods \<Rightarrow> pod \<Rightarrow> string \<Rightarrow> handled setIO" where
  "dropStaleTag r c main vm =
     (if \<not> VMLive (meta r) main then State_Monad.return (False, noRequeue, None)
      else do {
        cs \<leftarrow> theCS;
        got \<leftarrow> podsTrackedByHibernationCR r (csNamespace cs);
        case got of
          Inl err \<Rightarrow> State_Monad.return (True, noRequeue, Some (ErrWrap ''migrate'' err))
        | Inr owned \<Rightarrow>
            if podName main \<in> set owned then State_Monad.return (False, noRequeue, None)
            else do {
              err \<leftarrow> deleteManifest r vm (HibernateSnapshotTag (meta r));
              case err of
                Some e \<Rightarrow> State_Monad.return (True, noRequeue, Some (ErrWrap
                  (''migrate: drop stale hibernate snapshot '' @ vm) e))
              | None \<Rightarrow> markMigrating r c
            }
      })"

definition deleteOldMain :: "env \<Rightarrow> classifiedPods \<Rightarrow> nat \<Rightarrow> handled setIO" where
  "deleteOldMain r c i = do {
     _ \<leftarrow> patchAt i (podpatchKeepSnapshotOnDelete r);
     p \<leftarrow> podAt i;
     err \<leftarrow> deleteIgnoringNotFound r p;
     case err of
       Some e \<Rightarrow> State_Monad.return (True, noRequeue, Some (ErrWrap
         (''migrate: delete old main '' @ podNamespace p @ ''/'' @ podName p) e))
     | None \<Rightarrow> markMigrating r c
   }"

definition recreateMain :: "env \<Rightarrow> classifiedPods \<Rightarrow> string \<Rightarrow> handled setIO" where
  "recreateMain r c desired = do {
     cs \<leftarrow> theCS;
     case buildAgentPod r cs 0 [] [] of
       Inl err \<Rightarrow> State_Monad.return (True, noRequeue, Some (ErrWrap ''migrate: build main'' err))
     | Inr p \<Rightarrow> do {
         (discarded, err) \<leftarrow> discardImageConflict r p;
         case err of
           Some e \<Rightarrow> State_Monad.return (True, noRequeue, Some (ErrWrap ''migrate'' e))
         | None \<Rightarrow>
             if discarded then State_Monad.return (False, noRequeue, None)
             else do {
               err \<leftarrow> createPod r (MarkRestoreFromHibernate (meta r) p);
               case err of
                 None \<Rightarrow> markMigrating r c
               | Some e \<Rightarrow>
                   if isAlreadyExists e then State_Monad.return (True, requeueIn requeueWaitForMain, None)
                   else State_Monad.return (True, noRequeue, Some (ErrWrap
                     (''migrate: recreate main on '' @ strOr desired ''any node'') e))
             }
       }
   }"

definition wakeInPlace :: "env \<Rightarrow> classifiedPods \<Rightarrow> nat \<Rightarrow> handled setIO" where
  "wakeInPlace r c i = do {
     cs \<leftarrow> theCS;
     if stPhase (csStatus cs) \<noteq> CSMigrating then State_Monad.return (False, noRequeue, None)
     else do {
       err \<leftarrow> patchAt i (podpatchHibernateState r False);
       p \<leftarrow> podAt i;
       case err of
         Some e \<Rightarrow> State_Monad.return (True, noRequeue, Some (ErrWrap
           (''migrate: clear hibernate on '' @ podNamespace p @ ''/'' @ podName p) e))
       | None \<Rightarrow> markMigrating r c
     }
   }"

definition awaitRestore :: "env \<Rightarrow> classifiedPods \<Rightarrow> pod \<Rightarrow> handled setIO" where
  "awaitRestore r c main = do {
     cs \<leftarrow> theCS;
     if stPhase (csStatus cs) \<noteq> CSMigrating then State_Monad.return (False, noRequeue, None)
     else do {
       let msg = podUnschedulable main;
       _ \<leftarrow> (if msg \<noteq> [] then do {
              emit (EvMetric MigrateUnschedulableTotal [csNamespace cs, csName cs] 1);
              emit (EvRecord ''Warning'' ''MigrateNoCapacity''
                (''main pod '' @ podName main @ '' unschedulable: '' @ msg))
            } else State_Monad.return ());
       markMigrating r c
     }
   }"

definition finishMigration :: "env \<Rightarrow> classifiedPods \<Rightarrow> string \<Rightarrow> handled setIO" where
  "finishMigration r c vm = do {
     err \<leftarrow> deleteManifest r vm (HibernateSnapshotTag (meta r));
     case err of
       Some e \<Rightarrow> State_Monad.return (True, noRequeue, Some (ErrWrap
         (''migrate: drop hibernate snapshot '' @ vm) e))
     | None \<Rightarrow> markMigrating r c
   }"

definition advanceMigration :: "env \<Rightarrow> classifiedPods \<Rightarrow> string \<Rightarrow> string \<Rightarrow> handled setIO" where
  "advanceMigration r c vm desired =
     (case clsMain c of
        None \<Rightarrow> recreateMain r c desired
      | Some i \<Rightarrow> do {
          cs \<leftarrow> theCS;
          p \<leftarrow> podAt i;
          let quiesced = ReadHibernateState (meta r) p;
          if mainOffTarget cs (Some p) then
            (if \<not> quiesced then dropStaleTag r c p vm else deleteOldMain r c i)
          else if quiesced \<and> (desired = [] \<or> podNodeName p = desired) then wakeInPlace r c i
          else if \<not> VMLive (meta r) p then awaitRestore r c p
          else finishMigration r c vm
        })"

text \<open>From the registry probe on.\<close>

definition probeMigration :: "env \<Rightarrow> classifiedPods \<Rightarrow> string \<Rightarrow> handled setIO" where
  "probeMigration r c desired = do {
     s \<leftarrow> State_Monad.get;
     let cs = theSet s;
     let vm = VMNameForDeployment (meta r) (csNamespace cs) (csName cs) 0;
     got \<leftarrow> HasHibernateSnapshot r vm;
     case got of
       Inl err \<Rightarrow> State_Monad.return (True, noRequeue, Some (ErrWrap ''migrate'' err))
     | Inr snap \<Rightarrow>
         if snap then advanceMigration r c vm desired
         else (case clsMain c of
             None \<Rightarrow> State_Monad.return (False, noRequeue, None)
           | Some i \<Rightarrow>
               if \<not> mainOffTarget cs (Some (podHeap s i)) then State_Monad.return (False, noRequeue, None)
               else startMigration r c i)
   }"

definition reconcileMigration :: "env \<Rightarrow> classifiedPods \<Rightarrow> handled setIO" where
  "reconcileMigration r c = do {
     s \<leftarrow> State_Monad.get;
     let M = meta r;
     let cs = theSet s;
     let desired = specNodeName (csSpec cs);
     let migrating = (stPhase (csStatus cs) = CSMigrating);
     case map_option (podHeap s) (clsMain c) of
       None \<Rightarrow>
         if desired = [] \<and> \<not> migrating then State_Monad.return (False, noRequeue, None)
         else probeMigration r c desired
     | Some p \<Rightarrow>
         if pinnedElsewhere p desired then do {
           err \<leftarrow> deleteIgnoringNotFound r p;
           case err of
             Some e \<Rightarrow> State_Monad.return (True, noRequeue, Some (ErrWrap
               (''migrate: delete stale-pinned main '' @ podNamespace p @ ''/'' @ podName p) e))
           | None \<Rightarrow> State_Monad.return (True, requeueIn requeueAfterWrite, None)
         }
         else if desired = [] \<and> \<not> migrating then State_Monad.return (False, noRequeue, None)
         else if \<not> migrating \<and> \<not> ReadHibernateState M p \<and> (podNodeName p = [] \<or> podNodeName p = desired)
         then State_Monad.return (False, noRequeue, None)
         else if ReadHibernateState M p then do {
           got \<leftarrow> podsHibernatedByCR r (csNamespace cs);
           case got of
             Inl err \<Rightarrow> State_Monad.return (True, noRequeue, Some (ErrWrap ''migrate'' err))
           | Inr byCR \<Rightarrow>
               if podName p \<in> set byCR then State_Monad.return (False, noRequeue, None)
               else probeMigration r c desired
         }
         else probeMigration r c desired
   }"


section \<open>Footprints\<close>

lemma markMigrating_emits [emits_intros]:
  assumes "\<And>t. K (EvNow t)" and "\<And>a b e. K (EvPatchSetStatus a b e)"
  shows "emits K (markMigrating r c)"
  unfolding markMigrating_def by (intro emits_intros assms)

lemma startMigration_emits [emits_intros]:
  assumes "\<And>t. K (EvNow t)" and "\<And>a b e. K (EvPatchSetStatus a b e)" and "\<And>p q e. K (EvPatchPod p q e)"
  shows "emits K (startMigration r c i)"
  unfolding startMigration_def quiesceMain_def by (intro emits_intros assms)

lemma dropStaleTag_emits [emits_intros]:
  assumes "\<And>t. K (EvNow t)" and "\<And>a b e. K (EvPatchSetStatus a b e)" and "\<And>ns a. K (EvListHibs ns a)"
    and "\<And>e. VMLive (meta r) main \<Longrightarrow> K (EvDeleteManifest vm (HibernateSnapshotTag (meta r)) e)"
  shows "emits K (dropStaleTag r c main vm)"
  unfolding dropStaleTag_def deleteManifest_def by (intro emits_intros assms) simp

lemma deleteOldMain_emits [emits_intros]:
  assumes "\<And>t. K (EvNow t)" and "\<And>a b e. K (EvPatchSetStatus a b e)" and "\<And>p q e. K (EvPatchPod p q e)"
    and "\<And>p e. K (EvDeletePod p e)"
  shows "emits K (deleteOldMain r c i)"
  unfolding deleteOldMain_def by (intro emits_intros assms)

lemma wakeInPlace_emits [emits_intros]:
  assumes "\<And>t. K (EvNow t)" and "\<And>a b e. K (EvPatchSetStatus a b e)" and "\<And>p q e. K (EvPatchPod p q e)"
  shows "emits K (wakeInPlace r c i)"
  unfolding wakeInPlace_def by (intro emits_intros assms)

lemma awaitRestore_emits [emits_intros]:
  assumes "\<And>t. K (EvNow t)" and "\<And>a b e. K (EvPatchSetStatus a b e)" and "\<And>n ls d. labelled n ls \<Longrightarrow> K (EvMetric n ls d)"
    and "\<And>a b c. K (EvRecord a b c)"
  shows "emits K (awaitRestore r c main)"
  unfolding awaitRestore_def by (intro emits_intros assms)

lemma finishMigration_emits [emits_intros]:
  assumes "\<And>t. K (EvNow t)" and "\<And>a b e. K (EvPatchSetStatus a b e)"
    and "\<And>e. K (EvDeleteManifest vm (HibernateSnapshotTag (meta r)) e)"
  shows "emits K (finishMigration r c vm)"
  unfolding finishMigration_def deleteManifest_def by (intro emits_intros assms)


section \<open>The order of a migration\<close>

text \<open>
  What a migration pass may do, from the set \<open>cs\<close> and the pods \<open>H\<close> it started with.
  \<^item> The main is deleted when it is unscheduled and pinned to another node, or when it is off its
    target, was told to hibernate, and a probe of this pass saw its snapshot.
  \<^item> A main is created when there is none, after a probe that saw the snapshot, and restores it.
  \<^item> A main that was not told to hibernate before is patched only after \<open>Migrating\<close> is stored.
  \<^item> With a main in place, a tag is deleted only when the main's VM is live.
\<close>

definition probedMain :: "env \<Rightarrow> cocoonSet \<Rightarrow> history \<Rightarrow> bool" where
  "probedMain r cs pre \<longleftrightarrow>
     EvHasManifest (VMNameForDeployment (meta r) (csNamespace cs) (csName cs) 0) (HibernateSnapshotTag (meta r)) (Inr True)
       \<in> set pre"

fun migrateOk :: "env \<Rightarrow> cocoonSet \<Rightarrow> classifiedPods \<Rightarrow> podStore \<Rightarrow> history \<Rightarrow> event \<Rightarrow> bool" where
  "migrateOk r cs c H pre (EvDeletePod q x) =
     (\<exists>i. clsMain c = Some i \<and>
       (q = H i \<and> pinnedElsewhere q (specNodeName (csSpec cs)) \<or>
        mainOffTarget cs (Some (H i)) \<and> ReadHibernateState (meta r) (H i) \<and> probedMain r cs pre))"
| "migrateOk r cs c H pre (EvCreatePod q x) =
     (clsMain c = None \<and> probedMain r cs pre \<and>
      (\<exists>p. buildAgentPod r cs 0 [] [] = Inr p \<and> q = MarkRestoreFromHibernate (meta r) p))"
| "migrateOk r cs c H pre (EvPatchPod p q x) =
     (\<exists>i. clsMain c = Some i \<and> (ReadHibernateState (meta r) (H i) \<or> persisted r cs CSMigrating pre))"
| "migrateOk r cs c H pre (EvDeleteManifest n u x) = (\<forall>i. clsMain c = Some i \<longrightarrow> VMLive (meta r) (H i))"
| "migrateOk r cs c H pre e = True"

interpretation migrate: evidence "migrateOk r cs c H" for r cs c H
proof
  show "migrateOk r cs c H (es @ fs) e" if "migrateOk r cs c H fs e" for es fs e
    using that by (cases e) (auto simp: persisted_append probedMain_def)
qed

text \<open>The situation the parts of a pass start from.\<close>

definition migrating :: "env \<Rightarrow> cocoonSet \<Rightarrow> classifiedPods \<Rightarrow> podStore \<Rightarrow> history \<Rightarrow> history \<Rightarrow> setWorld \<Rightarrow> bool" where
  "migrating r cs c H h fs t \<longleftrightarrow> hist t = fs @ h \<and> theSet t = cs \<and> podHeap t = H \<and> guarded (migrateOk r cs c H) fs"

abbreviation migrated :: "env \<Rightarrow> cocoonSet \<Rightarrow> classifiedPods \<Rightarrow> podStore \<Rightarrow> history \<Rightarrow> setWorld \<Rightarrow> bool" where
  "migrated r cs c H h u \<equiv> \<exists>es. hist u = es @ h \<and> guarded (migrateOk r cs c H) es"

lemma wp_migrating:
  "migrating r cs c H h fs t \<Longrightarrow> emits (migrateOk r cs c H fs) m \<Longrightarrow> wp m (\<lambda>_. migrated r cs c H h) t"
  unfolding migrating_def by (rule migrate.wp_keeps [where fs = fs]) auto

lemma wp_startMigration:
  assumes "migrating r cs c H h fs t" and "clsMain c = Some i"
  shows "wp (startMigration r c i) (\<lambda>_. migrated r cs c H h) t"
  unfolding startMigration_def wp_bind
proof (rule wp_mono [OF wp_patchPhase_ok], simp, elim conjE exE)
  fix err :: "gerr option" and es and u :: setWorld
  assume u: "hist u = es @ hist t" "\<forall>e\<in>set es. (\<exists>t. e = EvNow t) \<or> (\<exists>a b x. e = EvPatchSetStatus a b x)"
    "err = None \<longrightarrow> persisted r (theSet t) CSMigrating es"
  have quiet: "guarded (migrateOk r cs c H) (es @ fs)"
    by (rule migrate.guarded_more) (use assms(1) u(2) in \<open>auto simp: migrating_def list_all_iff\<close>)
  have patch: "migrateOk r cs c H (es @ fs) (EvPatchPod p q x)" if "err = None" for p q x
    using u(3) that assms by (auto simp: migrating_def persisted_def)
  have "wp (quiesceMain r i) (\<lambda>_. migrated r cs c H h) u" if "err = None"
    by (rule migrate.wp_keeps [where fs = "es @ fs" and K = "migrateOk r cs c H (es @ fs)"])
      (use quiet u(1) assms(1) patch [OF that] in \<open>auto simp: quiesceMain_def migrating_def intro!: emits_intros\<close>)
  moreover have "migrated r cs c H h u"
    using quiet u(1) assms(1) by (intro exI [of _ "es @ fs"]) (simp add: migrating_def)
  ultimately show "wp theCS (\<lambda>a. wp (case err of
        Some e \<Rightarrow> State_Monad.return (True, noRequeue, Some (ErrWrap
          (''migrate: patch migrating status '' @ csNamespace a @ ''/'' @ csName a) e))
      | None \<Rightarrow> quiesceMain r i) (\<lambda>_. migrated r cs c H h)) u"
    by (cases err) (simp_all add: wp_theCS wp_return)
qed

lemma wp_recreateMain:
  assumes "migrating r cs c H h fs t" and "clsMain c = None" and "probedMain r cs fs"
  shows "wp (recreateMain r c desired) (\<lambda>_. migrated r cs c H h) t"
proof (cases "buildAgentPod r cs 0 [] []")
  case (Inl e)
  with assms(1) show ?thesis
    by (auto simp: recreateMain_def wp_bind wp_theCS wp_return migrating_def)
next
  case (Inr p)
  have "theSet t = cs" using assms(1) by (simp add: migrating_def)
  then show ?thesis unfolding recreateMain_def wp_bind [of theCS] wp_theCS \<open>theSet t = cs\<close> Inr sum.case
    by (intro wp_migrating [OF assms(1)] emits_intros)
      (use assms(2,3) Inr in \<open>auto simp: createPod_def intro!: emits_intros\<close>)
qed

lemma wp_advanceMigration:
  assumes "migrating r cs c H h fs t" and "probedMain r cs fs"
  shows "wp (advanceMigration r c vm desired) (\<lambda>_. migrated r cs c H h) t"
proof (cases "clsMain c")
  case None
  with wp_recreateMain [OF assms(1) None assms(2)] show ?thesis by (simp add: advanceMigration_def)
next
  case (Some i)
  have t: "theSet t = cs" "podHeap t i = H i" using assms(1) by (auto simp: migrating_def)
  show ?thesis unfolding advanceMigration_def Some option.case wp_bind wp_theCS wp_podAt t Let_def
    by (intro wp_migrating [OF assms(1)] emits_intros) (use assms(2) Some in simp_all)
qed

lemma wp_probeMigration:
  assumes "migrating r cs c H h fs t"
  shows "wp (probeMigration r c desired) (\<lambda>_. migrated r cs c H h) t"
proof -
  let ?vm = "VMNameForDeployment (meta r) (csNamespace cs) (csName cs) 0" and ?tag = "HibernateSnapshotTag (meta r)"
  let ?u = "\<lambda>a. t\<lparr>hist := EvHasManifest ?vm ?tag a # hist t\<rparr>"
  have u: "migrating r cs c H h (EvHasManifest ?vm ?tag a # fs) (?u a)" for a
    using assms by (simp add: migrating_def)
  have "migrated r cs c H h (?u a)" for a using u [of a] unfolding migrating_def by blast
  moreover have "wp (advanceMigration r c ?vm desired) (\<lambda>_. migrated r cs c H h) (?u (Inr True))"
    by (rule wp_advanceMigration [OF u]) (simp add: probedMain_def)
  moreover have "wp (startMigration r c i) (\<lambda>_. migrated r cs c H h) (?u a)" if "clsMain c = Some i" for i a
    by (rule wp_startMigration [OF u that])
  moreover have "theSet t = cs" "podHeap t = H" using assms by (simp_all add: migrating_def)
  ultimately show ?thesis
    by (auto simp: probeMigration_def wp_bind wp_get HasHibernateSnapshot_wp Let_def wp_return split: sum.split option.split)
qed

lemma wp_podsHibernatedByCR:
  "wp (podsHibernatedByCR r ns) Q s =
     (let a = cliListHibs (cli r) (hist s) ns; s1 = s\<lparr>hist := EvListHibs ns a # hist s\<rparr>
      in case a of
           Inl err \<Rightarrow> Q (Inl (ErrWrap (''list cocoonhibernations in '' @ ns) err)) s1
         | Inr items \<Rightarrow> Q (Inr (map hbPodRef (filter (\<lambda>x. hbPodRef x \<noteq> [] \<and> hibernatedByCR x) items))) s1)"
  by (simp add: podsHibernatedByCR_def hibernationPodNames_def wp_simps Let_def split: sum.split)


text \<open>
  A fresh main belongs where the spec says. The main the operator builds and that no node
  took yet is pinned elsewhere exactly with respect to a node other than a set \<open>spec.nodeName\<close>; so
  a pass with the same spec neither deletes it as stale-pinned nor counts it as off its target.
\<close>

theorem fresh_main_pinned:
  assumes "buildLaws r" and "buildAgentPod r cs 0 [] [] = Inr p"
  shows "pinnedElsewhere p node = (specNodeName (csSpec cs) \<noteq> [] \<and> node \<noteq> specNodeName (csSpec cs)) \<and>
    \<not> mainOffTarget cs (Some p)"
proof -
  from buildAgentPod_Inr [OF assms] have "podNodeName p = []" and "podAffinity p =
      (if specNodeName (csSpec cs) \<noteq> [] then Some (hostnameAffinity (specNodeName (csSpec cs))) else None)"
    by auto
  then show ?thesis
    by (auto simp: pinnedElsewhere_def mainOffTarget_def hostnameAffinity_def hostnameSelectorTerm_def)
qed

definition demoPinned :: cocoonSet where
  "demoPinned = demoSet\<lparr>csSpec := demoSpec\<lparr>specNodeName := ''n1''\<rparr>\<rparr>"

lemma demo_pinned_built: "buildAgentPod demoTagged demoPinned 0 [] [] = Inr (projr (buildAgentPod demoTagged demoPinned 0 [] []))"
proof -
  have "isl (buildAgentPod demoTagged demoPinned 0 [] []) = False" by code_simp
  then show ?thesis by (simp add: isl_def sum.expand)
qed

theorem fresh_main_pinned_witness:
  "pinnedElsewhere (projr (buildAgentPod demoTagged demoPinned 0 [] [])) ''n2'' \<and>
   \<not> pinnedElsewhere (projr (buildAgentPod demoTagged demoPinned 0 [] [])) ''n1''"
proof -
  have "buildLaws demoTagged" by (simp add: demoTagged_def demo_buildLaws)
  from fresh_main_pinned [OF this demo_pinned_built] show ?thesis by (simp add: demoPinned_def)
qed

end
