(* ===== verification/Agents.thy ===== *)
theory Agents
  imports Migrate
begin

text \<open>
  \<open>cocoonset/agents.go\<close>: the sub-agents. Missing slots are created by goroutines of an
  error group, at most \<open>subAgentCreateConcurrency\<close> at a time. A goroutine is a small state
  machine \<open>goroutine\<close> whose steps are its external calls; \<open>runGroup\<close> runs the group
  under the interleaving the Go scheduler chooses, an arbitrary list of goroutine numbers, and then
  runs what is left, since \<open>Wait\<close> returns only when every goroutine has ended. The
  cancellation of the group's context after the first error shows in the answers of the calls.
\<close>

definition subAgentCreateConcurrency :: nat where
  "subAgentCreateConcurrency = 8"


section \<open>One goroutine\<close>

datatype goroutine =
    GBuild                        \<comment> \<open>not started\<close>
  | GImage pod                    \<comment> \<open>before reading the image of the tag\<close>
  | GDrop pod                     \<comment> \<open>before deleting a tag of another image\<close>
  | GMark pod                     \<comment> \<open>before asking for the restore intent\<close>
  | GProbe pod                    \<comment> \<open>before probing the tag to restore from\<close>
  | GCreate pod                   \<comment> \<open>before the create\<close>
  | GDone "gerr option"           \<comment> \<open>returned\<close>

fun running :: "goroutine \<Rightarrow> bool" where
  "running (GDone _) = False"
| "running _ = True"

text \<open>What the goroutines share: \<open>created\<close> and the slots of \<open>discarded\<close>.\<close>

record group =
  grRoutines :: "goroutine list"
  grErr :: "gerr option"
  grCreated :: bool
  grDiscarded :: "string list"

definition slotErr :: "string \<Rightarrow> int \<Rightarrow> gerr \<Rightarrow> goroutine" where
  "slotErr what slot e = GDone (Some (ErrWrap (what @ '' slot '' @ formatInt slot) e))"

text \<open>One step of the goroutine for \<open>slot\<close>: its next state, a discarded VM, and whether it created.\<close>

fun goStep ::
    "env \<Rightarrow> string \<Rightarrow> string \<Rightarrow> restoreIntent \<Rightarrow> int \<Rightarrow> goroutine \<Rightarrow> (goroutine \<times> string \<times> bool) setIO" where
  "goStep r mainVM mainNode intent slot GBuild = do {
     cs \<leftarrow> theCS;
     State_Monad.return (case buildAgentPod r cs slot mainVM mainNode of
         Inl err \<Rightarrow> (slotErr ''build sub-agent'' slot err, [], False)
       | Inr p \<Rightarrow>
           if vmManaged (ParseVMSpec (meta r) p) then (GImage p, [], False) else (GMark p, [], False))
   }"
| "goStep r mainVM mainNode intent slot (GImage p) = do {
     got \<leftarrow> HibernateSnapshotImage r (vmName (ParseVMSpec (meta r) p));
     State_Monad.return (case got of
         Inl err \<Rightarrow> (slotErr ''sub-agent'' slot err, [], False)
       | Inr pushed \<Rightarrow>
           if pushed = [] \<or> pushed = vmImage (ParseVMSpec (meta r) p) then (GMark p, [], False)
           else (GDrop p, [], False))
   }"
| "goStep r mainVM mainNode intent slot (GDrop p) = do {
     let vm = vmName (ParseVMSpec (meta r) p);
     err \<leftarrow> deleteManifest r vm (HibernateSnapshotTag (meta r));
     State_Monad.return (case err of
         Some e \<Rightarrow> (slotErr ''sub-agent'' slot (ErrWrap (''drop hibernate snapshot '' @ vm) e), [], False)
       | None \<Rightarrow> (GMark p, vm, False))
   }"
| "goStep r mainVM mainNode intent slot (GMark p) = do {
     cs \<leftarrow> theCS;
     if vmName (ParseVMSpec (meta r) p) \<in> set (rcRestore (readHibernateReclaim cs))
     then State_Monad.return (GProbe p, [], False)
     else do {
       got \<leftarrow> runIntent r intent;
       State_Monad.return (case got of
           Inl err \<Rightarrow> (slotErr ''mark restore sub-agent'' slot err, [], False)
         | Inr restorable \<Rightarrow>
             if podName p \<in> set restorable then (GProbe p, [], False) else (GCreate p, [], False))
     }
   }"
| "goStep r mainVM mainNode intent slot (GProbe p) = do {
     got \<leftarrow> HasHibernateSnapshot r (vmName (ParseVMSpec (meta r) p));
     State_Monad.return (case got of
         Inl err \<Rightarrow> (slotErr ''mark restore sub-agent'' slot err, [], False)
       | Inr present \<Rightarrow>
           (GCreate (if present then MarkRestoreFromHibernate (meta r) p else p), [], False))
   }"
| "goStep r mainVM mainNode intent slot (GCreate p) = do {
     err \<leftarrow> createPod r p;
     State_Monad.return (case err of
         None \<Rightarrow> (GDone None, [], True)
       | Some e \<Rightarrow>
           if isAlreadyExists e then (GDone None, [], False)
           else (slotErr ''create sub-agent'' slot e, [], False))
   }"
| "goStep r mainVM mainNode intent slot (GDone e) = State_Monad.return (GDone e, [], False)"


section \<open>The group\<close>

text \<open>
  Goroutine \<open>i\<close> may run when fewer than the limit of the goroutines before it are still
  running: \<open>Go\<close> starts them in order and blocks at the limit.
\<close>

definition mayRun :: "group \<Rightarrow> nat \<Rightarrow> bool" where
  "mayRun g i \<longleftrightarrow> i < length (grRoutines g) \<and> running (grRoutines g ! i) \<and>
     length (filter running (take i (grRoutines g))) < subAgentCreateConcurrency"

text \<open>The group after a step of goroutine \<open>i\<close>: the first error is kept, \<open>created\<close> only rises.\<close>

definition groupAfter :: "group \<Rightarrow> nat \<Rightarrow> goroutine \<times> string \<times> bool \<Rightarrow> group" where
  "groupAfter g i out =
     (case out of (next, vm, created) \<Rightarrow>
        g\<lparr>grRoutines := (grRoutines g)[i := next],
          grErr := (case next of GDone (Some e) \<Rightarrow> (if grErr g = None then Some e else grErr g) | _ \<Rightarrow> grErr g),
          grCreated := grCreated g \<or> created,
          grDiscarded := (if vm = [] then grDiscarded g else (grDiscarded g)[i := vm])\<rparr>)"

definition stepGroup ::
    "env \<Rightarrow> string \<Rightarrow> string \<Rightarrow> restoreIntent \<Rightarrow> int list \<Rightarrow> group \<Rightarrow> nat \<Rightarrow> group setIO" where
  "stepGroup r mainVM mainNode intent slots g i =
     (if \<not> mayRun g i then State_Monad.return g
      else do {
        out \<leftarrow> goStep r mainVM mainNode intent (slots ! i) (grRoutines g ! i);
        State_Monad.return (groupAfter g i out)
      })"

fun runSchedule ::
    "env \<Rightarrow> string \<Rightarrow> string \<Rightarrow> restoreIntent \<Rightarrow> int list \<Rightarrow> nat list \<Rightarrow> group \<Rightarrow> group setIO" where
  "runSchedule r mainVM mainNode intent slots [] g = State_Monad.return g"
| "runSchedule r mainVM mainNode intent slots (i # is) g = do {
     g \<leftarrow> stepGroup r mainVM mainNode intent slots g i;
     runSchedule r mainVM mainNode intent slots is g
   }"

text \<open>No goroutine takes more than \<open>goSteps\<close> steps, so this schedule finishes every one of them.\<close>

definition goSteps :: nat where
  "goSteps = 6"

definition finishAll :: "nat \<Rightarrow> nat list" where
  "finishAll n = concat (map (replicate goSteps) [0..<n])"

definition newGroup :: "nat \<Rightarrow> group" where
  "newGroup n = \<lparr>grRoutines = replicate n GBuild, grErr = None, grCreated = False,
     grDiscarded = replicate n []\<rparr>"

definition runGroup ::
    "env \<Rightarrow> string \<Rightarrow> string \<Rightarrow> restoreIntent \<Rightarrow> int list \<Rightarrow> group setIO" where
  "runGroup r mainVM mainNode intent slots = do {
     s \<leftarrow> State_Monad.get;
     runSchedule r mainVM mainNode intent slots (sched r (hist s) @ finishAll (length slots))
       (newGroup (length slots))
   }"

definition createSubAgents ::
    "env \<Rightarrow> int list \<Rightarrow> string \<Rightarrow> string \<Rightarrow> restoreIntent \<Rightarrow> (bool \<times> gerr option) setIO" where
  "createSubAgents r missing mainVM mainNode intent =
     (if missing = [] then State_Monad.return (False, None)
      else do {
        g \<leftarrow> runGroup r mainVM mainNode intent missing;
        err \<leftarrow> forgetReclaim r (grDiscarded g);
        State_Monad.return (grCreated g, joinErrs [grErr g, err])
      })"


section \<open>Sub-agents\<close>

definition reclaimUnrestoredForks :: "env \<Rightarrow> int list \<Rightarrow> restoreIntent \<Rightarrow> gerr option setIO" where
  "reclaimUnrestoredForks r missing intent = do {
     cs \<leftarrow> theCS;
     let owed = readHibernateReclaim cs;
     if missing = [] \<or> rcVMs owed = [] then State_Monad.return None
     else do {
       got \<leftarrow> runIntent r intent;
       case got of
         Inl err \<Rightarrow> State_Monad.return (Some err)
       | Inr restorable \<Rightarrow>
           let vmOf = VMNameForDeployment (meta r) (csNamespace cs) (csName cs);
               forks = map vmOf (filter (\<lambda>slot. agentPodName (csName cs) slot \<notin> set restorable \<and>
                 vmOf slot \<notin> set (rcRestore owed)) missing)
           in reclaimSnapshots r forks
     }
   }"

text \<open>The shortest positive wait so far.\<close>

definition minWait :: "duration \<Rightarrow> duration \<Rightarrow> duration" where
  "minWait requeue wait = (if 0 < wait \<and> (requeue = 0 \<or> wait < requeue) then wait else requeue)"

record sweep =
  swChanged :: bool
  swRequeue :: duration
  swMissing :: "int list"
  swErr :: "gerr option"

text \<open>
  The loop over the wanted slots. \<open>Replicas\<close> is read from the set in each round, since a
  patch on the way replaces the object. The counter is an \<open>int32\<close>; for the largest
  \<open>Replicas\<close> the Go loop would not end, and the definition stops there.
\<close>

function sweepSlots :: "env \<Rightarrow> classifiedPods \<Rightarrow> int \<Rightarrow> sweep \<Rightarrow> sweep setIO" where
  "sweepSlots r c slot w =
     (if 2 ^ 31 \<le> slot then State_Monad.return w
      else do {
        cs \<leftarrow> theCS;
        if agReplicas (specAgent (csSpec cs)) < slot then State_Monad.return w
        else (case map_of (clsSub c) slot of
            None \<Rightarrow> sweepSlots r c (slot + 1) (w\<lparr>swMissing := swMissing w @ [slot]\<rparr>)
          | Some i \<Rightarrow> do {
              p \<leftarrow> podAt i;
              (deleted, wait, err) \<leftarrow> triagePod r i (podSpecMatchesAgent r p cs slot);
              case err of
                Some e \<Rightarrow> State_Monad.return (w\<lparr>swErr := Some e\<rparr>)
              | None \<Rightarrow> sweepSlots r c (slot + 1)
                  (w\<lparr>swChanged := swChanged w \<or> deleted, swRequeue := minWait (swRequeue w) wait\<rparr>)
            })
      })"
  by auto

termination
  by (relation "measure (\<lambda>(r, c, slot, w). nat (2 ^ 31 - slot))") auto

declare sweepSlots.simps [simp del]

text \<open>Scale-down: delete the slots above \<open>Replicas\<close>, stashing each VM name first.\<close>

fun trimSlots :: "env \<Rightarrow> classifiedPods \<Rightarrow> int list \<Rightarrow> bool \<Rightarrow> (bool \<times> gerr option) setIO" where
  "trimSlots r c [] changed = State_Monad.return (changed, None)"
| "trimSlots r c (slot # slots) changed = do {
     cs \<leftarrow> theCS;
     if slot \<le> agReplicas (specAgent (csSpec cs)) then trimSlots r c slots changed
     else (case map_of (clsSub c) slot of
         None \<Rightarrow> trimSlots r c slots changed
       | Some i \<Rightarrow> do {
           p \<leftarrow> podAt i;
           err \<leftarrow> stashDeleteVMNames r [p];
           case err of
             Some e \<Rightarrow> State_Monad.return (changed, Some (ErrWrap
               (''stash vm name of sub-agent slot '' @ formatInt slot) e))
           | None \<Rightarrow> do {
               err \<leftarrow> deletePod r p;
               case err of
                 None \<Rightarrow> trimSlots r c slots True
               | Some e \<Rightarrow>
                   if isNotFound e then trimSlots r c slots changed
                   else State_Monad.return (changed, Some (ErrWrap
                     (''delete extra sub-agent slot '' @ formatInt slot) e))
             }
         })
   }"

type_synonym ensured = "bool \<times> duration \<times> gerr option"

definition ensureSubAgents ::
    "env \<Rightarrow> classifiedPods \<Rightarrow> string \<Rightarrow> string \<Rightarrow> restoreIntent \<Rightarrow> ensured setIO" where
  "ensureSubAgents r c mainVM mainNode intent = do {
     w \<leftarrow> sweepSlots r c 1 \<lparr>swChanged = False, swRequeue = 0, swMissing = [], swErr = None\<rparr>;
     case swErr w of
       Some e \<Rightarrow> State_Monad.return (swChanged w, swRequeue w, Some e)
     | None \<Rightarrow> do {
         cs \<leftarrow> theCS;
         let missing = deleteFunc (\<lambda>slot. budgetExhausted cs (agentPodName (csName cs) slot)) (swMissing w);
         err \<leftarrow> reclaimUnrestoredForks r missing intent;
         case err of
           Some e \<Rightarrow> State_Monad.return (swChanged w, swRequeue w, Some e)
         | None \<Rightarrow> do {
             (created, err) \<leftarrow> createSubAgents r missing mainVM mainNode intent;
             let changed = (swChanged w \<or> created);
             case err of
               Some e \<Rightarrow> State_Monad.return (changed, swRequeue w, Some e)
             | None \<Rightarrow> do {
                 (changed, err) \<leftarrow> trimSlots r c (sortedKeys (clsSub c)) changed;
                 State_Monad.return (changed, swRequeue w, err)
               }
           }
       }
   }"

end
