(* ===== verification/Toolboxes.thy ===== *)
theory Toolboxes
  imports Agents
begin

text \<open>
  \<open>cocoonset/toolboxes.go\<close>: the toolbox pods. The names are validated before anything is
  created or deleted.
\<close>

definition quoted :: "string \<Rightarrow> string" where
  "quoted s = [CHR 0x22] @ s @ [CHR 0x22]"

fun validateToolboxes :: "string list \<Rightarrow> toolboxSpec list \<Rightarrow> gerr + string list" where
  "validateToolboxes desired [] = Inr desired"
| "validateToolboxes desired (tb # tbs) =
     (if tbName tb \<in> set desired
      then Inl (ErrMsg (''duplicate toolbox name '' @ quoted (tbName tb) @ '' in spec''))
      else if atoi (tbName tb) \<noteq> None
      then Inl (ErrMsg (''toolbox name '' @ quoted (tbName tb) @
        '' must not be an integer: collides with agent slot pod naming''))
      else validateToolboxes (tbName tb # desired) tbs)"

definition checkToolboxCollision :: "env \<Rightarrow> pod \<Rightarrow> string \<Rightarrow> gerr option setIO" where
  "checkToolboxCollision r tbPod name = do {
     cs \<leftarrow> theCS;
     got \<leftarrow> getPod r (podNamespace tbPod) (podName tbPod);
     State_Monad.return (case got of
         Inl err \<Rightarrow> Some (ErrWrap (''get existing pod '' @ podNamespace tbPod @ ''/'' @ podName tbPod) err)
       | Inr existing \<Rightarrow>
           let role = strAt (podLabels existing) (LabelRole (meta r))
           in if role = RoleToolbox (meta r) \<and> IsControlledBy (kube r) existing cs then None
              else Some (ErrMsg (''create toolbox '' @ name @ '': name collision with existing pod '' @
                podNamespace tbPod @ ''/'' @ podName tbPod @ '' (role='' @ role @ '')'')))
   }"

text \<open>Create one missing toolbox: whether it was created, and the error.\<close>

definition createToolbox :: "env \<Rightarrow> toolboxSpec \<Rightarrow> restoreIntent \<Rightarrow> (bool \<times> gerr option) setIO" where
  "createToolbox r tb intent = do {
     cs \<leftarrow> theCS;
     case buildToolboxPod r cs tb of
       Inl err \<Rightarrow> State_Monad.return (False, Some (ErrWrap (''build toolbox '' @ tbName tb) err))
     | Inr p \<Rightarrow> do {
         (_, err) \<leftarrow> discardImageConflict r p;
         case err of
           Some e \<Rightarrow> State_Monad.return (False, Some (ErrWrap (''toolbox '' @ tbName tb) e))
         | None \<Rightarrow> do {
             (err, p) \<leftarrow> markRestoreFromIntent r p intent;
             case err of
               Some e \<Rightarrow> State_Monad.return (False, Some (ErrWrap (''mark restore toolbox '' @ tbName tb) e))
             | None \<Rightarrow> do {
                 err \<leftarrow> createPod r p;
                 case err of
                   None \<Rightarrow> State_Monad.return (True, None)
                 | Some e \<Rightarrow>
                     if \<not> isAlreadyExists e
                     then State_Monad.return (False, Some (ErrWrap (''create toolbox '' @ tbName tb) e))
                     else do {
                       err \<leftarrow> checkToolboxCollision r p (tbName tb);
                       State_Monad.return (False, err)
                     }
               }
           }
       }
   }"

fun sweepToolboxes ::
    "env \<Rightarrow> classifiedPods \<Rightarrow> restoreIntent \<Rightarrow> toolboxSpec list \<Rightarrow> bool \<Rightarrow> duration \<Rightarrow> ensured setIO" where
  "sweepToolboxes r c intent [] changed requeue = State_Monad.return (changed, requeue, None)"
| "sweepToolboxes r c intent (tb # tbs) changed requeue = do {
     cs \<leftarrow> theCS;
     let name = ToolboxPodName (meta r) (csName cs) (tbName tb);
     case map_of (clsToolbox c) (tbName tb) of
       None \<Rightarrow>
         if map_of (clsAllByName c) name \<noteq> None
         then State_Monad.return (changed, requeue, Some (ErrMsg
           (''create toolbox '' @ tbName tb @ '': name collision with existing pod '' @ name)))
         else if budgetExhausted cs name then sweepToolboxes r c intent tbs changed requeue
         else do {
           (created, err) \<leftarrow> createToolbox r tb intent;
           case err of
             Some e \<Rightarrow> State_Monad.return (changed, requeue, Some e)
           | None \<Rightarrow> sweepToolboxes r c intent tbs (changed \<or> created) requeue
         }
     | Some i \<Rightarrow> do {
         p \<leftarrow> podAt i;
         (deleted, wait, err) \<leftarrow> triagePod r i (podSpecMatchesToolbox r p cs tb);
         case err of
           Some e \<Rightarrow> State_Monad.return (changed, requeue, Some e)
         | None \<Rightarrow> sweepToolboxes r c intent tbs (changed \<or> deleted) (minWait requeue wait)
       }
   }"

fun trimToolboxes ::
    "env \<Rightarrow> classifiedPods \<Rightarrow> string list \<Rightarrow> string list \<Rightarrow> bool \<Rightarrow> (bool \<times> gerr option) setIO" where
  "trimToolboxes r c desired [] changed = State_Monad.return (changed, None)"
| "trimToolboxes r c desired (name # names) changed =
     (if name \<in> set desired then trimToolboxes r c desired names changed
      else case map_of (clsToolbox c) name of
          None \<Rightarrow> trimToolboxes r c desired names changed
        | Some i \<Rightarrow> do {
            p \<leftarrow> podAt i;
            err \<leftarrow> stashDeleteVMNames r [p];
            case err of
              Some e \<Rightarrow> State_Monad.return (changed, Some (ErrWrap (''stash vm name of toolbox '' @ name) e))
            | None \<Rightarrow> do {
                err \<leftarrow> deletePod r p;
                case err of
                  None \<Rightarrow> trimToolboxes r c desired names True
                | Some e \<Rightarrow>
                    if isNotFound e then trimToolboxes r c desired names changed
                    else State_Monad.return (changed, Some (ErrWrap (''delete extra toolbox '' @ name) e))
              }
          })"

definition ensureToolboxes :: "env \<Rightarrow> classifiedPods \<Rightarrow> restoreIntent \<Rightarrow> ensured setIO" where
  "ensureToolboxes r c intent = do {
     cs \<leftarrow> theCS;
     case validateToolboxes [] (specToolboxes (csSpec cs)) of
       Inl err \<Rightarrow> State_Monad.return (False, 0, Some err)
     | Inr desired \<Rightarrow> do {
         (changed, requeue, err) \<leftarrow> sweepToolboxes r c intent (specToolboxes (csSpec cs)) False 0;
         case err of
           Some e \<Rightarrow> State_Monad.return (changed, requeue, Some e)
         | None \<Rightarrow> do {
             (changed, err) \<leftarrow> trimToolboxes r c desired (sortedKeys (clsToolbox c)) changed;
             State_Monad.return (changed, requeue, err)
           }
       }
   }"


section \<open>Validation\<close>

lemma validateToolboxes_Inl:
  "(\<exists>err. validateToolboxes desired tbs = Inl err) \<longleftrightarrow>
     \<not> distinct (map tbName tbs) \<or> set (map tbName tbs) \<inter> set desired \<noteq> {} \<or> (\<exists>tb\<in>set tbs. atoi (tbName tb) \<noteq> None)"
  by (induction desired tbs rule: validateToolboxes.induct) auto

text \<open>
  C33: toolbox names are settled before anything is touched. A spec with two toolboxes of one name, or with one
  whose name parses as an integer, is refused with an error and no call at all; in every other spec no toolbox
  pod has the name of an agent pod of any slot, so the two sweeps never fight over a pod.
\<close>

theorem toolbox_names_checked:
  assumes "\<And>n tb. ToolboxPodName (meta r) n tb = n @ ''-'' @ tb"
  shows "if distinct (map tbName (specToolboxes (csSpec (theSet s)))) \<and>
        (\<forall>tb\<in>set (specToolboxes (csSpec (theSet s))). atoi (tbName tb) = None)
      then \<forall>tb\<in>set (specToolboxes (csSpec (theSet s))). \<forall>slot. - (2 ^ 63) \<le> slot \<and> slot < 2 ^ 63 \<longrightarrow>
        ToolboxPodName (meta r) (csName (theSet s)) (tbName tb) \<noteq> agentPodName (csName (theSet s)) slot
      else \<exists>err. run_state (ensureToolboxes r c intent) s = ((False, 0, Some err), s)"
proof (cases "\<exists>err. validateToolboxes [] (specToolboxes (csSpec (theSet s))) = Inl err")
  case True
  then obtain err where err: "validateToolboxes [] (specToolboxes (csSpec (theSet s))) = Inl err" by blast
  then have "wp (ensureToolboxes r c intent) (\<lambda>a t. a = (False, 0, Some err) \<and> t = s) s"
    by (simp add: ensureToolboxes_def wp_simps)
  then have "run_state (ensureToolboxes r c intent) s = ((False, 0, Some err), s)"
    by (simp add: wp_def split: prod.splits)
  with True show ?thesis by (auto simp: validateToolboxes_Inl)
next
  case False
  have "atoi (formatInt slot) = Some slot" if "- (2 ^ 63) \<le> slot" "slot < 2 ^ 63" for slot
    using that by (simp add: atoi_def parseInt_formatInt)
  with False show ?thesis by (fastforce simp: validateToolboxes_Inl assms agentPodName_def)
qed

definition demoTools :: "string list \<Rightarrow> cocoonSet" where
  "demoTools names = demoSet\<lparr>csSpec := demoSpec\<lparr>specToolboxes := map (\<lambda>n. \<lparr>tbName = n, tbMode = TbRun, tbImage = ''i'',
     tbOptions = demoOptions, tbResources = \<lparr>resLimits = [], resRequests = []\<rparr>, tbStorage = None, tbStaticVMID = [],
     tbStaticIP = [], tbVNCPort = 0\<rparr>) names\<rparr>\<rparr>"

theorem toolbox_names_checked_witness:
  "(\<exists>err. run_state (ensureToolboxes (demoEnv [] [] [] 0) noPods (IntentOnce ''ns'')) (demoWorld (demoTools [''db'', ''db'']) []) =
     ((False, 0, Some err), demoWorld (demoTools [''db'', ''db'']) [])) \<and>
   ToolboxPodName demoMeta ''s'' ''db'' \<noteq> agentPodName ''s'' 7"
proof
  have names: "ToolboxPodName (meta (demoEnv [] [] [] 0)) n tb = n @ ''-'' @ tb" for n tb by (simp add: demo_simps)
  show "\<exists>err. run_state (ensureToolboxes (demoEnv [] [] [] 0) noPods (IntentOnce ''ns'')) (demoWorld (demoTools [''db'', ''db'']) []) =
     ((False, 0, Some err), demoWorld (demoTools [''db'', ''db'']) [])"
    using toolbox_names_checked [OF names, of "demoWorld (demoTools [''db'', ''db'']) []"]
    by (simp add: demoWorld_def demoTools_def)
  have "atoi ''db'' = None" by code_simp
  then show "ToolboxPodName demoMeta ''s'' ''db'' \<noteq> agentPodName ''s'' 7"
    using toolbox_names_checked [OF names, of "demoWorld (demoTools [''db'']) []"]
    by (simp add: demoWorld_def demoTools_def demoSet_def demo_env)
qed

end
