(* ===== verification/SetReconciler.thy ===== *)
theory SetReconciler
  imports Toolboxes
begin

text \<open>
  \<open>Reconcile\<close> of \<open>cocoonset/reconciler.go\<close>: one pass over a CocoonSet, the stages in the
  order the code has them; and the watch predicates of \<open>cocoonset/predicate.go\<close>.
\<close>

definition handleFailedMainAgent :: "env \<Rightarrow> classifiedPods \<Rightarrow> nat \<Rightarrow> string \<Rightarrow> outcome setIO" where
  "handleFailedMainAgent r c i reason = do {
     cs \<leftarrow> theCS;
     p \<leftarrow> podAt i;
     err \<leftarrow> (if \<not> mainOffTarget cs (Some p) then applyUnsuspend r c else State_Monad.return None);
     case err of
       Some e \<Rightarrow> State_Monad.return (noRequeue, Some e)
     | None \<Rightarrow> do {
         (handled, res, err) \<leftarrow> rebuildDriftedMain r c;
         if handled then State_Monad.return (res, err)
         else do {
           observeMainPodFailed r i reason;
           err \<leftarrow> patchPhase r c CSFailed;
           State_Monad.return (noRequeue, err)
         }
       }
   }"

text \<open>The last stages: sub-agents, toolboxes, status.\<close>

definition ensureRest :: "env \<Rightarrow> classifiedPods \<Rightarrow> nat \<Rightarrow> restoreIntent \<Rightarrow> outcome setIO" where
  "ensureRest r c i intent = do {
     p \<leftarrow> podAt i;
     if \<not> IsPodReady (meta r) p then do {
       err \<leftarrow> patchPhase r c CSPending;
       State_Monad.return (requeueIn requeueWaitForMain, err)
     } else do {
       (subChanged, subRequeue, err) \<leftarrow>
         ensureSubAgents r c (vmName (ParseVMSpec (meta r) p)) (podNodeName p) intent;
       case err of
         Some e \<Rightarrow> State_Monad.return (noRequeue, Some e)
       | None \<Rightarrow> do {
           (tbChanged, tbRequeue, err) \<leftarrow> ensureToolboxes r c intent;
           case err of
             Some e \<Rightarrow> State_Monad.return (noRequeue, Some e)
           | None \<Rightarrow>
               if subChanged \<or> tbChanged then State_Monad.return (requeueIn requeueAfterWrite, None)
               else do {
                 err \<leftarrow> patchPhase r c CSNone;
                 case err of
                   Some e \<Rightarrow> State_Monad.return (noRequeue, Some e)
                 | None \<Rightarrow> State_Monad.return (requeueIn
                     (if subRequeue = 0 \<or> (0 < tbRequeue \<and> tbRequeue < subRequeue)
                      then tbRequeue else subRequeue), None)
               }
         }
     }
   }"

text \<open>From the failed-main check to the end, when the set is not suspended.\<close>

definition createOrEnsure :: "env \<Rightarrow> classifiedPods \<Rightarrow> outcome setIO" where
  "createOrEnsure r c = do {
     cs \<leftarrow> theCS;
     intent \<leftarrow> newRestoreIntent (csNamespace cs);
     case clsMain c of
       None \<Rightarrow>
         if budgetExhausted cs (agentPodName (csName cs) 0) then do {
           err \<leftarrow> patchPhase r c CSFailed;
           State_Monad.return (noRequeue, err)
         } else createMainAgent r intent
     | Some i \<Rightarrow> ensureRest r c i intent
   }"

definition reconcileActive :: "env \<Rightarrow> classifiedPods \<Rightarrow> outcome setIO" where
  "reconcileActive r c = do {
     (handled, res, err) \<leftarrow> reconcileMigration r c;
     if handled then State_Monad.return (res, err)
     else do {
       (handled, res, err) \<leftarrow> reconcileWake r c;
       if handled then State_Monad.return (res, err)
       else do {
         err \<leftarrow> applyUnsuspend r c;
         case err of
           Some e \<Rightarrow> State_Monad.return (noRequeue, Some e)
         | None \<Rightarrow> do {
             err \<leftarrow> reclaimWokenSnapshots r c;
             case err of
               Some e \<Rightarrow> State_Monad.return (noRequeue, Some e)
             | None \<Rightarrow> do {
                 (handled, res, err) \<leftarrow> rebuildDriftedMain r c;
                 if handled then State_Monad.return (res, err) else createOrEnsure r c
               }
           }
       }
     }
   }"

definition reconcileUnsuspended :: "env \<Rightarrow> classifiedPods \<Rightarrow> outcome setIO" where
  "reconcileUnsuspended r c =
     (case clsMain c of
        None \<Rightarrow> reconcileActive r c
      | Some i \<Rightarrow> do {
          cs \<leftarrow> theCS;
          p \<leftarrow> podAt i;
          let reason = mainPodFailedReason (meta r) p;
          if reason \<noteq> [] then handleFailedMainAgent r c i reason
          else do {
            _ \<leftarrow> (if stPhase (csStatus cs) = CSFailed \<and> IsPodReady (meta r) p
                 then emit (EvRecord ''Normal'' ''RecoveredFromFailure''
                   (''main pod '' @ podNamespace p @ ''/'' @ podName p @ '' is Ready again''))
                 else State_Monad.return ());
            reconcileActive r c
          }
        })"

text \<open>From the owned pods on.\<close>

definition reconcileOwned :: "env \<Rightarrow> outcome setIO" where
  "reconcileOwned r = do {
     cs \<leftarrow> theCS;
     got \<leftarrow> listOwnedPods r cs;
     case got of
       Inl err \<Rightarrow> State_Monad.return (noRequeue, Some (ErrWrap ''list owned pods'' err))
     | Inr owned \<Rightarrow> do {
         loadPods owned;
         let c = classifyPods (meta r) owned;
         err \<leftarrow> syncCocoonSetGeneration r c;
         case err of
           Some e \<Rightarrow> State_Monad.return (noRequeue, Some e)
         | None \<Rightarrow> do {
             cs \<leftarrow> theCS;
             if specSuspend (csSpec cs) then
               (if HibernatePolicyDefault (kube r) (specHibernatePolicy (csSpec cs)) = PolicyRelease
                then reconcileSuspendRelease r c else reconcileSuspend r c)
             else reconcileUnsuspended r c
           }
       }
   }"

definition reconcileSet :: "env \<Rightarrow> string \<Rightarrow> string \<Rightarrow> outcome setIO" where
  "reconcileSet r ns name = do {
     got \<leftarrow> getSet r ns name;
     case got of
       Inl err \<Rightarrow>
         if isNotFound err then State_Monad.return (noRequeue, None)
         else State_Monad.return (noRequeue, Some (ErrWrap (''get cocoonset '' @ ns @ ''/'' @ name) err))
     | Inr cs \<Rightarrow> do {
         putCS cs;
         if csDeletionTimestamp cs \<noteq> None then reconcileDelete r
         else
           let (added, finalizers) = AddFinalizer (kube r) (csFinalizers cs) finalizerName
           in if added then do {
                (err, cs') \<leftarrow> updateSet r (cs\<lparr>csFinalizers := finalizers\<rparr>);
                putCS cs';
                (case err of
                   Some e \<Rightarrow> State_Monad.return (noRequeue, Some (ErrWrap ''add finalizer'' e))
                 | None \<Rightarrow> State_Monad.return (requeueIn requeueAfterWrite, None))
              } else reconcileOwned r
       }
   }"


section \<open>Watch predicates\<close>

text \<open>
  An event's object is the watched kind or another (\<open>None\<close>): the type assertion that fails.
\<close>

definition podRelevantUpdate :: "metaPkg \<Rightarrow> pod option \<Rightarrow> pod option \<Rightarrow> bool" where
  "podRelevantUpdate M oldObj newObj =
     (case (oldObj, newObj) of
        (Some old, Some new) \<Rightarrow>
          (podDeletionTimestamp old = None \<and> podDeletionTimestamp new \<noteq> None) \<or>
          podPhase old \<noteq> podPhase new \<or>
          IsPodReady M old \<noteq> IsPodReady M new \<or>
          \<not> mapsEqual (podLabels old) (podLabels new) \<or>
          \<not> mapsEqual (podAnnotations old) (podAnnotations new)
      | _ \<Rightarrow> True)"

datatype watchEvent =
    CreateEvent pod
  | DeleteEvent pod
  | GenericEvent pod
  | UpdateEvent "pod option" "pod option"

fun podRelevantChange :: "metaPkg \<Rightarrow> watchEvent \<Rightarrow> bool" where
  "podRelevantChange M (CreateEvent _) = True"
| "podRelevantChange M (DeleteEvent _) = True"
| "podRelevantChange M (GenericEvent _) = False"
| "podRelevantChange M (UpdateEvent old new) = podRelevantUpdate M old new"

definition setStatusChanged :: "kubePkg \<Rightarrow> cocoonSet option \<Rightarrow> cocoonSet option \<Rightarrow> bool" where
  "setStatusChanged K oldObj newObj =
     (case (oldObj, newObj) of
        (Some old, Some new) \<Rightarrow> \<not> DeepEqualStatus K (csStatus old) (csStatus new)
      | _ \<Rightarrow> True)"

text \<open>
  \<open>setRelevantChange\<close> on an update of a CocoonSet: controller-runtime's
  \<open>GenerationChangedPredicate\<close> or a changed status.
\<close>

definition setRelevantUpdate :: "kubePkg \<Rightarrow> cocoonSet \<Rightarrow> cocoonSet \<Rightarrow> bool" where
  "setRelevantUpdate K old new \<longleftrightarrow>
     csGeneration new \<noteq> csGeneration old \<or> setStatusChanged K (Some old) (Some new)"

end
