(* ===== verification/SetFootprint.thy ===== *)
theory SetFootprint
  imports SetReconciler
begin

text \<open>
  What a whole pass of the CocoonSet reconciler can do to the outside world. \<open>setEvent\<close> lists the
  calls of the package; \<open>emits\<close> is composed over every stage of the pass, from the goroutines of
  the scale-up to \<open>Reconcile\<close>.
\<close>

fun setEvent :: "env \<Rightarrow> event \<Rightarrow> bool" where
  "setEvent r (EvGetHib _ _ _) = False"
| "setEvent r (EvListHibsByPodRef _ _ _) = False"
| "setEvent r (EvUpdateHib _ _) = False"
| "setEvent r (EvPatchHibStatus _ _ _) = False"
| "setEvent r (EvLock _) = False"
| "setEvent r (EvUnlock _) = False"
| "setEvent r (EvDeleteManifest _ tag _) = (tag = HibernateSnapshotTag (meta r) \<or> tag = DefaultSnapshotTag (meta r))"
| "setEvent r (EvHasManifest _ tag _) = (tag = HibernateSnapshotTag (meta r) \<or> tag = DefaultSnapshotTag (meta r))"
| "setEvent r (EvGetManifest _ tag _) = (tag = HibernateSnapshotTag (meta r))"
| "setEvent r (EvListPods _ key _ _) = (key = LabelCocoonSet (meta r))"
| "setEvent r (EvMetric c ls _) = labelled c ls"
| "setEvent r _ = True"


section \<open>Deletion, suspend and release\<close>

lemma deleteTags_set: "emits (setEvent r) (deleteTags r names)"
  by (induction names) (auto intro!: emits_intros)

lemma reconcileDelete_set: "emits (setEvent r) (reconcileDelete r)"
  unfolding reconcileDelete_def deleteOwned_def finishDelete_def removeFinalizer_def updateSet_def
  by (intro emits_intros deleteTags_set) simp_all

lemma allHibernated_set: "emits (setEvent r) (allHibernated r ps)"
  by (induction ps) (auto intro!: emits_intros simp: ctxCheck_def)

lemma reconcileSuspend_set: "emits (setEvent r) (reconcileSuspend r c)"
  unfolding reconcileSuspend_def allOwnedPodsHibernated_def
  by (intro emits_intros allHibernated_set) simp_all

lemma reconcileSuspendRelease_set: "emits (setEvent r) (reconcileSuspendRelease r c)"
  unfolding reconcileSuspendRelease_def allOwnedPodsHibernated_def
  by (intro emits_intros allHibernated_set) simp_all


section \<open>Wake and migration\<close>

lemma reconcileWake_set: "emits (setEvent r) (reconcileWake r c)"
  unfolding reconcileWake_def startReleasedWake_def createWoken_def skipReleasedWake_def awaitSeat_def
    finishWake_def confirmReleasedDelete_def call_defs
  by (intro emits_intros) simp_all

lemma reconcileMigration_set: "emits (setEvent r) (reconcileMigration r c)"
  unfolding reconcileMigration_def probeMigration_def advanceMigration_def recreateMain_def createPod_def
  by (intro emits_intros) simp_all


section \<open>Sub-agents and toolboxes\<close>

lemma goStep_set: "emits (setEvent r) (goStep r mainVM mainNode intent slot st)"
  by (cases st) (auto intro!: emits_intros simp: deleteManifest_def createPod_def)

lemma runSchedule_set: "emits (setEvent r) (runSchedule r mainVM mainNode intent slots is g)"
  by (induction "is" arbitrary: g) (auto intro!: emits_intros goStep_set simp: stepGroup_def)

lemma createSubAgents_set: "emits (setEvent r) (createSubAgents r missing mainVM mainNode intent)"
  unfolding createSubAgents_def runGroup_def by (intro emits_intros runSchedule_set) simp_all

lemma triagePod_set: "emits (setEvent r) (triagePod r i b)"
  by (intro emits_intros) simp_all

lemma sweepSlots_set: "emits (setEvent r) (sweepSlots r c slot w)"
proof (induction r c slot w rule: sweepSlots.induct)
  case (1 r c slot w)
  then show ?case
    by (subst sweepSlots.simps) (intro emits_intros triagePod_set; simp)
qed

lemma stash_set: "emits (setEvent r) (stashDeleteVMNames r ps)"
  by (intro emits_intros) simp_all

lemma trimSlots_set: "emits (setEvent r) (trimSlots r c slots changed)"
  by (induction slots arbitrary: changed) (auto intro!: emits_intros stash_set simp: deletePod_def)

lemma ensureSubAgents_set: "emits (setEvent r) (ensureSubAgents r c mainVM mainNode intent)"
  unfolding ensureSubAgents_def reclaimUnrestoredForks_def
  by (intro emits_intros sweepSlots_set createSubAgents_set trimSlots_set) simp_all

lemma createToolbox_set: "emits (setEvent r) (createToolbox r tb intent)"
  unfolding createToolbox_def checkToolboxCollision_def call_defs by (intro emits_intros) simp_all

lemma sweepToolboxes_set: "emits (setEvent r) (sweepToolboxes r c intent tbs changed requeue)"
  by (induction tbs arbitrary: changed requeue)
    (auto intro!: emits_intros createToolbox_set triagePod_set)

lemma trimToolboxes_set: "emits (setEvent r) (trimToolboxes r c desired names changed)"
  by (induction names arbitrary: changed) (auto intro!: emits_intros stash_set simp: deletePod_def)

lemma ensureToolboxes_set: "emits (setEvent r) (ensureToolboxes r c intent)"
  unfolding ensureToolboxes_def by (intro emits_intros sweepToolboxes_set trimToolboxes_set)


section \<open>The pass\<close>

lemma createOrEnsure_set: "emits (setEvent r) (createOrEnsure r c)"
  unfolding createOrEnsure_def ensureRest_def
  by (intro emits_intros ensureSubAgents_set ensureToolboxes_set) simp_all

lemma reconcileActive_set: "emits (setEvent r) (reconcileActive r c)"
  unfolding reconcileActive_def
  by (intro emits_intros reconcileMigration_set reconcileWake_set createOrEnsure_set) simp_all

lemma reconcileUnsuspended_set: "emits (setEvent r) (reconcileUnsuspended r c)"
  unfolding reconcileUnsuspended_def handleFailedMainAgent_def
  by (intro emits_intros reconcileActive_set) simp_all

lemma reconcileOwned_set: "emits (setEvent r) (reconcileOwned r)"
  unfolding reconcileOwned_def
  by (intro emits_intros reconcileSuspend_set reconcileSuspendRelease_set reconcileUnsuspended_set) simp_all

lemma reconcileSet_set: "emits (setEvent r) (reconcileSet r ns name)"
  unfolding reconcileSet_def getSet_def updateSet_def
  by (intro emits_intros reconcileDelete_set reconcileOwned_set) simp_all


section \<open>Adoption before action\<close>

fun createsPod :: "event \<Rightarrow> bool" where
  "createsPod (EvCreatePod _ _) = True"
| "createsPod _ = False"

text \<open>The calls that change a pod or a snapshot.\<close>

fun acts :: "event \<Rightarrow> bool" where
  "acts (EvCreatePod _ _) = True"
| "acts (EvDeletePod _ _) = True"
| "acts (EvPatchPod _ _ _) = True"
| "acts (EvAnnotatePod _ _ _ _) = True"
| "acts (EvDeleteManifest _ _ _) = True"
| "acts _ = False"

lemma deleteTags_creates_none: "emits (\<lambda>e. \<not> createsPod e) (deleteTags r names)"
  by (induction names) (auto intro!: emits_intros)

lemma reconcileDelete_creates_none: "emits (\<lambda>e. \<not> createsPod e) (reconcileDelete r)"
  unfolding reconcileDelete_def deleteOwned_def finishDelete_def removeFinalizer_def updateSet_def
  by (intro emits_intros deleteTags_creates_none) simp_all

definition adopted :: "env \<Rightarrow> string \<Rightarrow> string \<Rightarrow> history \<Rightarrow> bool" where
  "adopted r ns name es \<longleftrightarrow>
     (list_ex acts es \<longrightarrow> (\<exists>cs. EvGetSet ns name (Inr cs) \<in> set es \<and>
        (csDeletionTimestamp cs \<noteq> None \<or> \<not> fst (AddFinalizer (kube r) (csFinalizers cs) finalizerName)))) \<and>
     (list_ex createsPod es \<longrightarrow> (\<exists>cs. EvGetSet ns name (Inr cs) \<in> set es \<and> csDeletionTimestamp cs = None))"

lemma adopted_fetched:
  assumes "hist t = fs @ EvGetSet ns name (Inr cs) # h"
    and "csDeletionTimestamp cs \<noteq> None \<or> \<not> fst (AddFinalizer (kube r) (csFinalizers cs) finalizerName)"
    and "list_ex createsPod fs \<Longrightarrow> csDeletionTimestamp cs = None"
  shows "\<exists>es. hist t = es @ h \<and> adopted r ns name es"
  unfolding adopted_def using assms
  by (intro exI [of _ "fs @ [EvGetSet ns name (Inr cs)]"] conjI impI exI [of _ cs]) (simp_all add: list_ex_iff)

text \<open>
  C18: a set is adopted before it is acted on. A pass creates, deletes or patches a pod, or
  deletes a snapshot, only for the set it fetched, and only when that set carries the finalizer already or is being
  deleted; a pass that adds the finalizer does nothing else. And for a set being deleted no pod is ever created.
\<close>

theorem adopted_before_action:
  "\<exists>es. hist (final (reconcileSet r ns name) s) = es @ hist s \<and>
     (list_ex acts es \<longrightarrow> (\<exists>cs. EvGetSet ns name (Inr cs) \<in> set es \<and>
        (csDeletionTimestamp cs \<noteq> None \<or> \<not> fst (AddFinalizer (kube r) (csFinalizers cs) finalizerName)))) \<and>
     (list_ex createsPod es \<longrightarrow> (\<exists>cs. EvGetSet ns name (Inr cs) \<in> set es \<and> csDeletionTimestamp cs = None))"
proof -
  let ?got = "cliGetSet (cli r) (hist s) ns name"
  let ?Q = "\<lambda>_ t. \<exists>es. hist t = es @ hist s \<and> adopted r ns name es"
  have "wp (reconcileSet r ns name) ?Q s"
  proof (cases ?got)
    case (Inl e)
    then show ?thesis by (simp add: reconcileSet_def wp_simps adopted_def)
  next
    case (Inr cs)
    let ?t = "s\<lparr>hist := EvGetSet ns name (Inr cs) # hist s, theSet := cs\<rparr>"
    have del: "wp (reconcileDelete r) ?Q ?t" if "csDeletionTimestamp cs \<noteq> None"
      by (rule wp_mono [OF emits_wp [OF reconcileDelete_creates_none]])
        (elim exE conjE, rule adopted_fetched, use that in \<open>auto simp: list_all_iff list_ex_iff\<close>)
    have go: "wp (reconcileOwned r) ?Q ?t" if "csDeletionTimestamp cs = None"
      "\<not> fst (AddFinalizer (kube r) (csFinalizers cs) finalizerName)"
      by (rule wp_mono [OF emits_wp [OF reconcileOwned_set]]) (elim exE conjE, rule adopted_fetched, use that in auto)
    show ?thesis
      unfolding reconcileSet_def getSet_def wp_bind [of "ask _ _"] wp_ask Inr sum.case wp_bind [of "putCS _"] wp_putCS
      using del go by (auto simp: wp_simps Inr adopted_def split_def split: option.split)
  qed
  then show ?thesis by (simp only: wp_result_final adopted_def)
qed

definition demoServed :: env where
  "demoServed = (demoEnv [demoMain] [] [] 0)\<lparr>cli := (demoClient [demoMain] [])
     \<lparr>cliGetSet := \<lambda>_ _ _. Inr (demoSet\<lparr>csDeletionTimestamp := Some 1\<rparr>)\<rparr>\<rparr>"

lemma demo_acted: "list_ex acts (hist (final (reconcileSet demoServed ''ns'' ''s'') (demoWorld demoSet [])))"
  by code_simp

theorem adopted_before_action_witness:
  "\<exists>es cs. list_ex acts es \<and> EvGetSet ''ns'' ''s'' (Inr cs) \<in> set es \<and>
     (csDeletionTimestamp cs \<noteq> None \<or> \<not> fst (AddFinalizer (kube demoServed) (csFinalizers cs) finalizerName))"
  using adopted_before_action [of demoServed "''ns''" "''s''" "demoWorld demoSet []"] demo_acted
  by (fastforce simp: demoWorld_def)

end
