(* ===== verification/AgentGroup.thy ===== *)
theory AgentGroup
  imports Agents
begin

text \<open>
  The error group of \<open>createSubAgents\<close> under every interleaving. \<open>reach\<close> is the step relation
  of the group: some goroutine that may run takes its next step. The lemmas: the stepwise
  goroutine run alone is the sequential body of the code; the scheduler of \<open>runGroup\<close> only visits
  reachable states and ends with every goroutine returned; and by rule induction on \<open>reach\<close>, the
  concurrency limit holds at every moment, and each slot is created at most once, as the pod
  built for it.
\<close>


section \<open>The goroutine and its sequential body\<close>

text \<open>From the decided drop to the end: the tail of the body with the discarded name \<open>vm\<close>.\<close>

definition markAndCreate ::
    "env \<Rightarrow> restoreIntent \<Rightarrow> int \<Rightarrow> string \<Rightarrow> pod \<Rightarrow> (gerr option \<times> string \<times> bool) setIO" where
  "markAndCreate r intent slot vm p = do {
     (err, p) \<leftarrow> markRestoreFromIntent r p intent;
     case err of
       Some e \<Rightarrow> State_Monad.return
         (Some (ErrWrap (''mark restore sub-agent slot '' @ formatInt slot) e), vm, False)
     | None \<Rightarrow> do {
         err \<leftarrow> createPod r p;
         State_Monad.return (case err of
             None \<Rightarrow> (None, vm, True)
           | Some e \<Rightarrow>
               if isAlreadyExists e then (None, vm, False)
               else (Some (ErrWrap (''create sub-agent slot '' @ formatInt slot) e), vm, False))
       }
   }"

text \<open>The body of the closure in \<open>createSubAgents\<close>: its error, the discarded VM, and whether it created.\<close>

definition subAgentBody ::
    "env \<Rightarrow> string \<Rightarrow> string \<Rightarrow> restoreIntent \<Rightarrow> int \<Rightarrow> (gerr option \<times> string \<times> bool) setIO" where
  "subAgentBody r mainVM mainNode intent slot = do {
     cs \<leftarrow> theCS;
     case buildAgentPod r cs slot mainVM mainNode of
       Inl err \<Rightarrow> State_Monad.return (Some (ErrWrap (''build sub-agent slot '' @ formatInt slot) err), [], False)
     | Inr p \<Rightarrow> do {
         (dropped, err) \<leftarrow> dropImageConflict r p;
         case err of
           Some e \<Rightarrow> State_Monad.return (Some (ErrWrap (''sub-agent slot '' @ formatInt slot) e), [], False)
         | None \<Rightarrow> markAndCreate r intent slot (if dropped then vmName (ParseVMSpec (meta r) p) else []) p
       }
   }"

text \<open>A goroutine scheduled alone for \<open>n\<close> steps, with what it discarded and whether it created.\<close>

fun goRun ::
    "env \<Rightarrow> string \<Rightarrow> string \<Rightarrow> restoreIntent \<Rightarrow> int \<Rightarrow> nat \<Rightarrow> goroutine \<Rightarrow> (goroutine \<times> string \<times> bool) setIO" where
  "goRun r mainVM mainNode intent slot 0 st = State_Monad.return (st, [], False)"
| "goRun r mainVM mainNode intent slot (Suc n) st = do {
     (st, vm, created) \<leftarrow> goStep r mainVM mainNode intent slot st;
     (st, vm', created') \<leftarrow> goRun r mainVM mainNode intent slot n st;
     State_Monad.return (st, if vm' = [] then vm else vm', created \<or> created')
   }"

lemma goRun_done [simp]:
  "goRun r mainVM mainNode intent slot n (GDone e) = State_Monad.return (GDone e, [], False)"
  by (induction n) simp_all

lemma goRun_slotErr [simp]:
  "goRun r mainVM mainNode intent slot n (slotErr w k e) = State_Monad.return (slotErr w k e, [], False)"
  by (simp add: slotErr_def)

declare goRun.simps [simp del]

lemma goRun_create:
  "goRun r mainVM mainNode intent slot (Suc n) (GCreate p) = do {
     err \<leftarrow> createPod r p;
     State_Monad.return (case err of
         None \<Rightarrow> (GDone None, [], True)
       | Some e \<Rightarrow> if isAlreadyExists e then (GDone None, [], False)
           else (slotErr ''create sub-agent'' slot e, [], False))
   }"
  by (rule wp_eqI) (simp add: goRun.simps wp_simps split: option.split)

text \<open>Weakest preconditions under a binder, where the state is not yet applied.\<close>

lemma wp_fun:
  "wp (State_Monad.return a) Q = Q a"
  "wp (State_Monad.bind m f) Q = wp m (\<lambda>a. wp (f a) Q)"
  "wp (if b then m1 else m2) Q = (if b then wp m1 Q else wp m2 Q)"
  "wp (case x of Inl e \<Rightarrow> g e | Inr a \<Rightarrow> k a) Q = (case x of Inl e \<Rightarrow> wp (g e) Q | Inr a \<Rightarrow> wp (k a) Q)"
  "wp (case y of None \<Rightarrow> m1 | Some b \<Rightarrow> h b) Q = (case y of None \<Rightarrow> wp m1 Q | Some b \<Rightarrow> wp (h b) Q)"
  by (auto simp: wp_simps split: sum.split option.split)

lemma wp_cong: "(\<And>a t. Q a t = R a t) \<Longrightarrow> wp m Q s = wp m R s"
  by (simp add: wp_result_final)

lemma goRun_tidy:
  "m \<bind> (\<lambda>(st, vm', created). State_Monad.return (st, if vm' = [] then [] else vm', created)) = m"
proof -
  have "(\<lambda>(st, vm', created). State_Monad.return (st, if vm' = [] then [] else vm', created)) = State_Monad.return"
    by auto
  then show ?thesis by simp
qed

lemma goRun_step:
  assumes "goStep r mainVM mainNode intent slot st = k \<bind> (\<lambda>x. State_Monad.return (f x, [], False))"
  shows "goRun r mainVM mainNode intent slot (Suc n) st = k \<bind> (\<lambda>x. goRun r mainVM mainNode intent slot n (f x))"
  unfolding goRun.simps(2) assms by (simp add: goRun_tidy)

lemma goRun_probe:
  "goRun r mainVM mainNode intent slot (Suc n) (GProbe p) = do {
     (err, q) \<leftarrow> markRestoreIfHibernated r p True;
     case err of
       Some e \<Rightarrow> State_Monad.return (slotErr ''mark restore sub-agent'' slot e, [], False)
     | None \<Rightarrow> goRun r mainVM mainNode intent slot n (GCreate q)
   }"
proof -
  have "goStep r mainVM mainNode intent slot (GProbe p) =
    HasHibernateSnapshot r (vmName (ParseVMSpec (meta r) p)) \<bind> (\<lambda>got. State_Monad.return
      ((case got of Inl err \<Rightarrow> slotErr ''mark restore sub-agent'' slot err
        | Inr present \<Rightarrow> GCreate (if present then MarkRestoreFromHibernate (meta r) p else p)), [], False))"
    by (rule wp_eqI) (simp add: wp_simps Let_def split: sum.split)
  from goRun_step [OF this] show ?thesis
    by (intro wp_eqI) (simp add: wp_simps Let_def split: sum.split)
qed

lemma goRun_mark:
  "goRun r mainVM mainNode intent slot (Suc (Suc (Suc n))) (GMark p) = do {
     (err, q) \<leftarrow> markRestoreFromIntent r p intent;
     case err of
       Some e \<Rightarrow> State_Monad.return (slotErr ''mark restore sub-agent'' slot e, [], False)
     | None \<Rightarrow> goRun r mainVM mainNode intent slot (Suc n) (GCreate q)
   }"
proof (rule wp_eqI)
  fix Q s
  let ?st = "\<lambda>got. case got of Inl err \<Rightarrow> slotErr ''mark restore sub-agent'' slot err
      | Inr restorable \<Rightarrow> if podName p \<in> set restorable then GProbe p else GCreate p"
  let ?vm = "vmName (ParseVMSpec (meta r) p)"
  have pairs: "(case got of Inl err \<Rightarrow> (slotErr ''mark restore sub-agent'' slot err, [], False)
      | Inr restorable \<Rightarrow> if podName p \<in> set restorable then (GProbe p, [], False) else (GCreate p, [], False)) =
      (?st got, [], False)" for got
    by (simp split: sum.split)
  have step: "goStep r mainVM mainNode intent slot (GMark p) =
    (theCS \<bind> (\<lambda>cs. if ?vm \<in> set (rcRestore (readHibernateReclaim cs))
       then State_Monad.return (GProbe p) else runIntent r intent \<bind> (\<lambda>got. State_Monad.return (?st got))))
     \<bind> (\<lambda>st. State_Monad.return (st, [], False))"
    by (rule wp_eqI) (simp add: wp_fun wp_theCS pairs)
  have rest: "wp (goRun r mainVM mainNode intent slot (Suc (Suc n)) (?st got)) Q =
      wp (case got of Inl err \<Rightarrow> State_Monad.return (Some err, p)
        | Inr restorable \<Rightarrow> markRestoreIfHibernated r p (podName p \<in> set restorable))
       (\<lambda>a. wp (case fst a of
           Some e \<Rightarrow> State_Monad.return (slotErr ''mark restore sub-agent'' slot e, [], False)
         | None \<Rightarrow> goRun r mainVM mainNode intent slot (Suc n) (GCreate (snd a))) Q)" for got
    by (cases got) (auto simp: wp_fun goRun_probe goRun_create markRestoreIfHibernated_def split_def)
  show "wp (goRun r mainVM mainNode intent slot (Suc (Suc (Suc n))) (GMark p)) Q s = wp (do {
     (err, q) \<leftarrow> markRestoreFromIntent r p intent;
     case err of
       Some e \<Rightarrow> State_Monad.return (slotErr ''mark restore sub-agent'' slot e, [], False)
     | None \<Rightarrow> goRun r mainVM mainNode intent slot (Suc n) (GCreate q)
   }) Q s"
    unfolding goRun_step [OF step] markRestoreFromIntent_def
    by (simp add: wp_fun(1,2,3) wp_theCS rest goRun_probe split_def)
qed

lemma goRun_drop:
  "goRun r mainVM mainNode intent slot (Suc n) (GDrop p) = do {
     let vm = vmName (ParseVMSpec (meta r) p);
     err \<leftarrow> deleteManifest r vm (HibernateSnapshotTag (meta r));
     case err of
       Some e \<Rightarrow> State_Monad.return
         (slotErr ''sub-agent'' slot (ErrWrap (''drop hibernate snapshot '' @ vm) e), [], False)
     | None \<Rightarrow> do {
         (st, vm', created) \<leftarrow> goRun r mainVM mainNode intent slot n (GMark p);
         State_Monad.return (st, if vm' = [] then vm else vm', created)
       }
   }"
  by (rule wp_eqI) (simp add: goRun.simps(2) Let_def wp_fun deleteManifest_def wp_ask split_def split: option.split cong: if_cong)

lemma goRun_image:
  "goRun r mainVM mainNode intent slot (Suc n) (GImage p) =
     HibernateSnapshotImage r (vmName (ParseVMSpec (meta r) p)) \<bind> (\<lambda>got. goRun r mainVM mainNode intent slot n
       (case got of Inl err \<Rightarrow> slotErr ''sub-agent'' slot err
         | Inr pushed \<Rightarrow> if pushed = [] \<or> pushed = vmImage (ParseVMSpec (meta r) p) then GMark p else GDrop p))"
proof -
  have pairs: "(case got of Inl err \<Rightarrow> (slotErr ''sub-agent'' slot err, [], False)
      | Inr pushed \<Rightarrow> if pushed = [] \<or> pushed = vmImage (ParseVMSpec (meta r) p) then (GMark p, [], False)
          else (GDrop p, [], False)) =
      (case got of Inl err \<Rightarrow> slotErr ''sub-agent'' slot err
         | Inr pushed \<Rightarrow> if pushed = [] \<or> pushed = vmImage (ParseVMSpec (meta r) p) then GMark p else GDrop p,
       [], False)" for got
    by (simp split: sum.split)
  show ?thesis by (rule goRun_step) (simp add: pairs)
qed

lemma goRun_build:
  "goRun r mainVM mainNode intent slot (Suc n) GBuild =
     theCS \<bind> (\<lambda>cs. goRun r mainVM mainNode intent slot n (case buildAgentPod r cs slot mainVM mainNode of
         Inl err \<Rightarrow> slotErr ''build sub-agent'' slot err
       | Inr p \<Rightarrow> if vmManaged (ParseVMSpec (meta r) p) then GImage p else GMark p))"
proof -
  have pairs: "(case got of Inl err \<Rightarrow> (slotErr ''build sub-agent'' slot err, [], False)
      | Inr p \<Rightarrow> if vmManaged (ParseVMSpec (meta r) p) then (GImage p, [], False) else (GMark p, [], False)) =
      (case got of Inl err \<Rightarrow> slotErr ''build sub-agent'' slot err
         | Inr p \<Rightarrow> if vmManaged (ParseVMSpec (meta r) p) then GImage p else GMark p, [], False)" for got
    by (simp split: sum.split)
  show ?thesis by (rule goRun_step) (simp add: pairs)
qed

lemma goRun_mark_body:
  "goRun r mainVM mainNode intent slot (Suc (Suc (Suc n))) (GMark p) \<bind>
     (\<lambda>(st, vm', created). State_Monad.return (st, if vm' = [] then vm else vm', created)) =
   markAndCreate r intent slot vm p \<bind> (\<lambda>(err, vm, created). State_Monad.return (GDone err, vm, created))"
  by (rule wp_eqI) (auto simp: goRun_mark goRun_create markAndCreate_def wp_fun slotErr_def createPod_def wp_ask
      split_def fun_eq_iff intro!: arg_cong2 [where f = "wp (markRestoreFromIntent r p intent)"] split: option.split)

lemma goRun_image_body:
  assumes "vmManaged (ParseVMSpec (meta r) p)"
  shows "goRun r mainVM mainNode intent slot (Suc (Suc (Suc (Suc (Suc n))))) (GImage p) =
     dropImageConflict r p \<bind> (\<lambda>(dropped, err). case err of
         Some e \<Rightarrow> State_Monad.return (slotErr ''sub-agent'' slot e, [], False)
       | None \<Rightarrow> markAndCreate r intent slot (if dropped then vmName (ParseVMSpec (meta r) p) else []) p \<bind>
           (\<lambda>(err, vm, created). State_Monad.return (GDone err, vm, created)))"
proof (rule wp_eqI)
  fix Q s
  let ?run = "goRun r mainVM mainNode intent slot"
  have kept: "?run (Suc (Suc (Suc (Suc n)))) (GMark p) = markAndCreate r intent slot [] p \<bind>
      (\<lambda>(err, vm, created). State_Monad.return (GDone err, vm, created))"
    unfolding goRun_mark_body [where n = "Suc n" and mainVM = mainVM and mainNode = mainNode, symmetric] goRun_tidy ..
  let ?vm = "vmName (ParseVMSpec (meta r) p)"
  let ?k = "\<lambda>(dropped, err). case err of
         Some e \<Rightarrow> State_Monad.return (slotErr ''sub-agent'' slot e, [], False)
       | None \<Rightarrow> markAndCreate r intent slot (if dropped then ?vm else []) p \<bind>
           (\<lambda>(err, vm, created). State_Monad.return (GDone err, vm, created))"
  have rest: "wp (?run (Suc (Suc (Suc (Suc n)))) (case got of Inl err \<Rightarrow> slotErr ''sub-agent'' slot err
      | Inr pushed \<Rightarrow> if pushed = [] \<or> pushed = vmImage (ParseVMSpec (meta r) p) then GMark p else GDrop p)) Q =
     wp (case got of Inl err \<Rightarrow> State_Monad.return (False, Some err)
       | Inr pushed \<Rightarrow> if pushed = [] \<or> pushed = vmImage (ParseVMSpec (meta r) p) then State_Monad.return (False, None)
           else deleteManifest r ?vm (HibernateSnapshotTag (meta r)) \<bind> (\<lambda>err. case err of
               Some e \<Rightarrow> State_Monad.return (False, Some (ErrWrap (''drop hibernate snapshot '' @ ?vm) e))
             | None \<Rightarrow> State_Monad.return (True, None))) (\<lambda>a. wp (?k a) Q)" for got
    by (rule ext, cases got) (auto simp: kept goRun_drop [where n = "Suc (Suc (Suc n))"] goRun_mark_body deleteManifest_def
        wp_bind wp_ask wp_return Let_def split: option.split)
  show "wp (?run (Suc (Suc (Suc (Suc (Suc n))))) (GImage p)) Q s = wp (dropImageConflict r p \<bind> ?k) Q s"
    unfolding goRun_image dropImageConflict_def Let_def using assms by (simp add: wp_fun(2) rest)
qed



section \<open>Reachable groups\<close>

inductive reach ::
    "env \<Rightarrow> string \<Rightarrow> string \<Rightarrow> restoreIntent \<Rightarrow> int list \<Rightarrow> setWorld \<Rightarrow> group \<Rightarrow> setWorld \<Rightarrow> bool"
  for r mainVM mainNode intent slots s where
  start: "reach r mainVM mainNode intent slots s (newGroup (length slots)) s"
| step: "reach r mainVM mainNode intent slots s g t \<Longrightarrow> mayRun g i \<Longrightarrow>
    run_state (goStep r mainVM mainNode intent (slots ! i) (grRoutines g ! i)) t = (out, u) \<Longrightarrow>
    reach r mainVM mainNode intent slots s (groupAfter g i out) u"

lemma stepGroup_reach:
  assumes "reach r mainVM mainNode intent slots s g t"
  shows "wp (stepGroup r mainVM mainNode intent slots g i) (reach r mainVM mainNode intent slots s) t"
proof (cases "mayRun g i")
  case True
  obtain out u where run: "run_state (goStep r mainVM mainNode intent (slots ! i) (grRoutines g ! i)) t = (out, u)"
    by fastforce
  from reach.step [OF assms True run] True show ?thesis
    by (simp add: stepGroup_def wp_bind wp_return wp_def run)
next
  case False
  with assms show ?thesis by (simp add: stepGroup_def wp_return)
qed

lemma runSchedule_reach:
  "reach r mainVM mainNode intent slots s g t \<Longrightarrow>
     wp (runSchedule r mainVM mainNode intent slots is g) (reach r mainVM mainNode intent slots s) t"
proof (induction "is" arbitrary: g t)
  case Nil
  then show ?case by (simp add: wp_return)
next
  case (Cons i "is")
  from stepGroup_reach [OF Cons.prems, of i] show ?case
    unfolding runSchedule.simps wp_bind by (rule wp_mono) (rule Cons.IH)
qed

text \<open>The frame of a step: the set and the pods of the pass are left alone.\<close>

lemma wp_goStep_frame:
  "wp (goStep r mainVM mainNode intent slot st) (\<lambda>_ t. theSet t = theSet s \<and> podHeap t = podHeap s) s"
proof (cases st)
  case (GMark p)
  have "wp (runIntent r intent) (\<lambda>_ t. theSet t = theSet s \<and> podHeap t = podHeap s) s"
    by (rule wp_mono [OF wp_runIntent]) simp
  with GMark show ?thesis by (simp add: wp_bind wp_theCS wp_return wp_fun)
qed (auto simp: wp_simps HibernateSnapshotImage_def split: sum.split)

lemma reach_frame: "reach r mainVM mainNode intent slots s g t \<Longrightarrow>
    theSet t = theSet s \<and> podHeap t = podHeap s \<and> length (grRoutines g) = length slots"
proof (induction rule: reach.induct)
  case start
  then show ?case by (simp add: newGroup_def)
next
  case (step g t i out u)
  from wpD [OF wp_goStep_frame step.hyps(3)] step.IH show ?case
    by (simp add: groupAfter_def split_def)
qed


section \<open>The concurrency limit\<close>

definition started :: "goroutine \<Rightarrow> bool" where
  "started st \<longleftrightarrow> running st \<and> st \<noteq> GBuild"

lemma filter_update_le:
  "(i < length xs \<Longrightarrow> P (xs ! i)) \<Longrightarrow> length (filter P (xs[i := y])) \<le> length (filter P xs)"
proof (induction xs arbitrary: i)
  case (Cons x xs)
  show ?case
  proof (cases i)
    case 0
    with Cons.prems show ?thesis by simp
  next
    case (Suc k)
    with Cons show ?thesis by simp
  qed
qed simp

lemma started_bound:
  assumes "\<forall>j<length xs. started (xs ! j) \<longrightarrow> length (filter running (take j xs)) < k"
  shows "length (filter started xs) \<le> k"
  using assms
proof (induction xs rule: rev_induct)
  case (snoc x xs)
  have "length (filter started xs) \<le> length (filter running xs)"
    by (induction xs) (auto simp: started_def)
  moreover have "length (filter started xs) \<le> k"
  proof (rule snoc.IH, intro allI impI)
    fix j
    assume "j < length xs" "started (xs ! j)"
    with snoc.prems [rule_format, of j] show "length (filter running (take j xs)) < k"
      by (simp add: nth_append)
  qed
  ultimately show ?case using snoc.prems [rule_format, of "length xs"] by auto
qed simp

lemma reach_limited:
  "reach r mainVM mainNode intent slots s g t \<Longrightarrow> j < length (grRoutines g) \<Longrightarrow> started (grRoutines g ! j) \<Longrightarrow>
     length (filter running (take j (grRoutines g))) < subAgentCreateConcurrency"
proof (induction arbitrary: j rule: reach.induct)
  case start
  then show ?case by (simp add: newGroup_def started_def)
next
  case (step g t i out u)
  let ?xs = "grRoutines g" and ?next = "fst out"
  have xs: "grRoutines (groupAfter g i out) = ?xs[i := ?next]" by (simp add: groupAfter_def split_def)
  have "length (filter running (take j (?xs[i := ?next]))) \<le> length (filter running (take j ?xs))"
    unfolding take_update_swap using step.hyps(2) by (intro filter_update_le) (auto simp: mayRun_def)
  moreover have "length (filter running (take j ?xs)) < subAgentCreateConcurrency"
  proof (cases "j = i")
    case True
    with step.hyps(2) show ?thesis by (simp add: mayRun_def)
  next
    case False
    with step.prems show ?thesis unfolding xs by (intro step.IH) simp_all
  qed
  ultimately show ?case unfolding xs by simp
qed



section \<open>Every goroutine returns\<close>

fun rank :: "goroutine \<Rightarrow> nat" where
  "rank GBuild = 6"
| "rank (GImage _) = 5"
| "rank (GDrop _) = 4"
| "rank (GMark _) = 3"
| "rank (GProbe _) = 2"
| "rank (GCreate _) = 1"
| "rank (GDone _) = 0"

lemma rank_running: "running st \<longleftrightarrow> 0 < rank st"
  by (cases st) auto

lemma rank_le: "rank st \<le> goSteps"
  by (cases st) (auto simp: goSteps_def)

lemma rank_slotErr [simp]: "rank (slotErr w k e) = 0"
  by (simp add: slotErr_def)

lemma wp_goStep_rank:
  "running st \<Longrightarrow> wp (goStep r mainVM mainNode intent slot st) (\<lambda>out _. rank (fst out) < rank st) s"
proof (cases st)
  case (GMark p)
  have "wp (runIntent r intent) (\<lambda>got t. rank (fst (case got of
       Inl err \<Rightarrow> (slotErr ''mark restore sub-agent'' slot err, [] :: string, False)
     | Inr restorable \<Rightarrow> if podName p \<in> set restorable then (GProbe p, [], False) else (GCreate p, [], False))) < 3) s"
    by (rule wp_mono [OF wp_runIntent]) (simp split: sum.split)
  with GMark show ?thesis by (simp add: wp_bind wp_theCS wp_return wp_fun)
qed (auto simp: wp_simps HibernateSnapshotImage_def split: sum.split option.split)

lemma runSchedule_append:
  "runSchedule r mainVM mainNode intent slots (is @ js) g =
     runSchedule r mainVM mainNode intent slots is g \<bind> runSchedule r mainVM mainNode intent slots js"
proof (induction "is" arbitrary: g)
  case (Cons i "is")
  then have "runSchedule r mainVM mainNode intent slots (is @ js) =
      (\<lambda>g. runSchedule r mainVM mainNode intent slots is g \<bind> runSchedule r mainVM mainNode intent slots js)"
    by (rule ext)
  then show ?case by simp
qed simp

lemma wp_schedule_one:
  assumes "i < length (grRoutines g)" and "\<forall>j<i. \<not> running (grRoutines g ! j)" and "rank (grRoutines g ! i) \<le> n"
  shows "wp (runSchedule r mainVM mainNode intent slots (replicate n i) g)
    (\<lambda>g' _. length (grRoutines g') = length (grRoutines g) \<and> (\<forall>j\<le>i. \<not> running (grRoutines g' ! j))) t"
  using assms
proof (induction n arbitrary: g t)
  case 0
  then show ?case by (auto simp: wp_return rank_running le_less)
next
  case (Suc n g t)
  let ?xs = "grRoutines g"
  show ?case
  proof (cases "running (?xs ! i)")
    case True
    have "filter running (take i ?xs) = []"
      using Suc.prems(1,2) by (auto simp: filter_empty_conv in_set_conv_nth)
    with True Suc.prems(1) have may: "mayRun g i" by (simp add: mayRun_def subAgentCreateConcurrency_def)
    have "wp (goStep r mainVM mainNode intent (slots ! i) (?xs ! i)) (\<lambda>out. wp (runSchedule r mainVM mainNode intent slots
        (replicate n i) (groupAfter g i out)) (\<lambda>g' _. length (grRoutines g') = length ?xs \<and>
          (\<forall>j\<le>i. \<not> running (grRoutines g' ! j)))) t"
    proof (rule wp_mono [OF wp_goStep_rank [OF True]])
      fix out :: "goroutine \<times> string \<times> bool" and u :: setWorld
      assume "rank (fst out) < rank (?xs ! i)"
      with Suc.prems show "wp (runSchedule r mainVM mainNode intent slots (replicate n i) (groupAfter g i out))
          (\<lambda>g' _. length (grRoutines g') = length ?xs \<and> (\<forall>j\<le>i. \<not> running (grRoutines g' ! j))) u"
        using Suc.IH [of "groupAfter g i out" u] by (simp add: groupAfter_def split_def)
    qed
    with may show ?thesis by (simp add: stepGroup_def wp_bind wp_return wp_fun)
  next
    case False
    then have "\<not> mayRun g i" by (simp add: mayRun_def)
    moreover have "rank (?xs ! i) \<le> n" using False by (simp add: rank_running)
    ultimately show ?thesis using Suc by (simp add: stepGroup_def)
  qed
qed

lemma wp_finishAll:
  "k \<le> length (grRoutines g) \<Longrightarrow>
     wp (runSchedule r mainVM mainNode intent slots (finishAll k) g)
       (\<lambda>g' _. length (grRoutines g') = length (grRoutines g) \<and> (\<forall>j<k. \<not> running (grRoutines g' ! j))) t"
proof (induction k)
  case 0
  show ?case by (simp add: finishAll_def wp_return)
next
  case (Suc k)
  have "finishAll (Suc k) = finishAll k @ replicate goSteps k" by (simp add: finishAll_def)
  moreover have "wp (runSchedule r mainVM mainNode intent slots (finishAll k) g)
      (\<lambda>g'. wp (runSchedule r mainVM mainNode intent slots (replicate goSteps k) g')
        (\<lambda>g' _. length (grRoutines g') = length (grRoutines g) \<and> (\<forall>j<Suc k. \<not> running (grRoutines g' ! j)))) t"
  proof (rule wp_mono [OF Suc.IH])
    fix g' :: group and u :: setWorld
    assume g': "length (grRoutines g') = length (grRoutines g) \<and> (\<forall>j<k. \<not> running (grRoutines g' ! j))"
    have "wp (runSchedule r mainVM mainNode intent slots (replicate goSteps k) g')
        (\<lambda>g'' _. length (grRoutines g'') = length (grRoutines g') \<and> (\<forall>j\<le>k. \<not> running (grRoutines g'' ! j))) u"
      using g' Suc.prems by (intro wp_schedule_one) (simp_all add: rank_le)
    then show "wp (runSchedule r mainVM mainNode intent slots (replicate goSteps k) g')
        (\<lambda>g' _. length (grRoutines g') = length (grRoutines g) \<and> (\<forall>j<Suc k. \<not> running (grRoutines g' ! j))) u"
      by (rule wp_mono) (use g' in \<open>simp add: less_Suc_eq_le\<close>)
  qed (use Suc.prems in simp)
  ultimately show ?case by (simp add: runSchedule_append wp_bind)
qed

lemma group_ends:
  "\<exists>g t. run_state (runGroup r mainVM mainNode intent slots) s = (g, t) \<and>
     reach r mainVM mainNode intent slots s g t \<and> length (grRoutines g) = length slots \<and>
     list_all (\<lambda>st. \<not> running st) (grRoutines g)"
proof -
  let ?run = "runSchedule r mainVM mainNode intent slots"
  have "wp (?run (sched r (hist s)) (newGroup (length slots))) (\<lambda>g. wp (?run (finishAll (length slots)) g)
      (\<lambda>g' t. reach r mainVM mainNode intent slots s g' t \<and> list_all (\<lambda>st. \<not> running st) (grRoutines g'))) s"
  proof (rule wp_mono [OF runSchedule_reach [OF reach.start]])
    fix g t
    assume g: "reach r mainVM mainNode intent slots s g t"
    then have len: "length (grRoutines g) = length slots" by (simp add: reach_frame)
    have "wp (?run (finishAll (length slots)) g) (\<lambda>g' t. reach r mainVM mainNode intent slots s g' t \<and>
        (length (grRoutines g') = length (grRoutines g) \<and> (\<forall>j<length slots. \<not> running (grRoutines g' ! j)))) t"
      by (rule wp_conj [OF runSchedule_reach [OF g] wp_finishAll]) (simp add: len)
    then show "wp (?run (finishAll (length slots)) g)
        (\<lambda>g' t. reach r mainVM mainNode intent slots s g' t \<and> list_all (\<lambda>st. \<not> running st) (grRoutines g')) t"
      by (rule wp_mono) (simp add: len list_all_length)
  qed
  then have "wp (runGroup r mainVM mainNode intent slots)
      (\<lambda>g t. reach r mainVM mainNode intent slots s g t \<and> list_all (\<lambda>st. \<not> running st) (grRoutines g)) s"
    by (simp add: runGroup_def wp_bind wp_get runSchedule_append)
  then show ?thesis by (auto simp: wp_def reach_frame split: prod.splits)
qed

text \<open>
  C22: \<open>Wait\<close> returns. Whatever the scheduler chooses and the outside world answers, the group ends
  in a reachable state in which every goroutine has returned.
\<close>

theorem group_finishes:
  "\<exists>g t. run_state (runGroup r mainVM mainNode intent slots) s = (g, t) \<and>
     reach r mainVM mainNode intent slots s g t \<and> length (grRoutines g) = length slots \<and>
     list_all (\<lambda>st. \<not> running st) (grRoutines g)"
  by (rule group_ends)


section \<open>One create per slot\<close>

text \<open>The names of the pods asked for, latest first; and the pod a goroutine carries.\<close>

fun createdNames :: "history \<Rightarrow> string list" where
  "createdNames [] = []"
| "createdNames (EvCreatePod p x # h) = podName p # createdNames h"
| "createdNames (_ # h) = createdNames h"

fun carries :: "goroutine \<Rightarrow> string \<Rightarrow> bool" where
  "carries (GImage p) n = (podName p = n)"
| "carries (GDrop p) n = (podName p = n)"
| "carries (GMark p) n = (podName p = n)"
| "carries (GProbe p) n = (podName p = n)"
| "carries (GCreate p) n = (podName p = n)"
| "carries _ n = True"

lemma carries_slotErr [simp]: "carries (slotErr w k e) n" "\<not> running (slotErr w k e)"
  by (simp_all add: slotErr_def)

lemma createdNames_append [simp]: "createdNames (es @ fs) = createdNames es @ createdNames fs"
  by (induction es rule: createdNames.induct) auto

lemma podName_built:
  assumes "buildLaws r" and "buildAgentPod r cs slot mainVM bindNode = Inr p"
  shows "podName p = agentPodName (csName cs) slot"
  using buildAgentPod_Inr [OF assms] by (auto simp: managedPod_def Let_def)

lemma wp_goStep_once:
  assumes laws: "buildLaws r" and keeps: "\<And>p. podName (MarkRestoreFromHibernate (meta r) p) = podName p"
    and n: "n = agentPodName (csName (theSet s)) slot" and st: "carries st n"
  shows "wp (goStep r mainVM mainNode intent slot st) (\<lambda>out t. carries (fst out) n \<and>
    (\<exists>es. hist t = es @ hist s \<and> (createdNames es = [] \<or> createdNames es = [n] \<and> \<not> running (fst out)))) s"
proof (cases st)
  case GBuild
  with laws n show ?thesis
    by (auto simp: wp_bind wp_theCS wp_return podName_built split: sum.split)
next
  case (GMark p)
  have "wp (runIntent r intent) (\<lambda>got t. (\<exists>es. hist t = es @ hist s \<and> createdNames es = [])) s"
    by (rule wp_mono [OF wp_runIntent]) (force intro: exI [of _ "[_]"])
  then have "wp (runIntent r intent) (\<lambda>got t. carries (fst (case got of
       Inl err \<Rightarrow> (slotErr ''mark restore sub-agent'' slot err, [] :: string, False)
     | Inr restorable \<Rightarrow> if podName p \<in> set restorable then (GProbe p, [], False) else (GCreate p, [], False))) n \<and>
     (\<exists>es. hist t = es @ hist s \<and> (createdNames es = [] \<or> createdNames es = [n] \<and> \<not> running (fst (case got of
       Inl err \<Rightarrow> (slotErr ''mark restore sub-agent'' slot err, [] :: string, False)
     | Inr restorable \<Rightarrow> if podName p \<in> set restorable then (GProbe p, [], False) else (GCreate p, [], False)))))) s"
    by (rule wp_mono) (use st GMark in \<open>auto split: sum.split\<close>)
  with GMark st show ?thesis by (simp add: wp_bind wp_theCS wp_return wp_fun)
qed (use st keeps in \<open>auto simp: wp_simps HibernateSnapshotImage_def
      intro: exI [of _ "[_]"] split: sum.split option.split\<close>)

text \<open>The invariant: the names asked for so far are those of goroutines that have returned, once each.\<close>

definition createdOnce :: "string list \<Rightarrow> group \<Rightarrow> history \<Rightarrow> bool" where
  "createdOnce names g es \<longleftrightarrow> distinct (createdNames es) \<and>
     (\<forall>x\<in>set (createdNames es). \<exists>i<length names. x = names ! i \<and> \<not> running (grRoutines g ! i)) \<and>
     (\<forall>i<length names. carries (grRoutines g ! i) (names ! i))"

lemma createdOnce_step:
  assumes inv: "createdOnce names g es" and "distinct names" and len: "length (grRoutines g) = length names"
    and i: "i < length names" "running (grRoutines g ! i)"
    and out: "carries (fst out) (names ! i)"
      "createdNames fs = [] \<or> createdNames fs = [names ! i] \<and> \<not> running (fst out)"
  shows "createdOnce names (groupAfter g i out) (fs @ es)"
proof -
  let ?xs = "grRoutines g"
  have xs: "grRoutines (groupAfter g i out) = ?xs[i := fst out]" by (simp add: groupAfter_def split_def)
  have fresh: "names ! i \<notin> set (createdNames es)"
    using inv i \<open>distinct names\<close> by (auto simp: createdOnce_def nth_eq_iff_index_eq)
  have old: "\<exists>j<length names. x = names ! j \<and> \<not> running (?xs[i := fst out] ! j)" if "x \<in> set (createdNames es)" for x
  proof -
    from that inv obtain j where j: "j < length names" "x = names ! j" "\<not> running (?xs ! j)"
      by (auto simp: createdOnce_def)
    with i have "j \<noteq> i" by auto
    with j show ?thesis by (intro exI [of _ j]) simp
  qed
  have new: "x = names ! i \<and> \<not> running (?xs[i := fst out] ! i)" if "x \<in> set (createdNames fs)" for x
    using that out(2) i len by auto
  have "carries (?xs[i := fst out] ! j) (names ! j)" if "j < length names" for j
    using that inv out(1) len i by (cases "j = i") (auto simp: createdOnce_def)
  moreover have "distinct (createdNames (fs @ es))" using inv fresh out(2) by (auto simp: createdOnce_def)
  moreover have "\<exists>j<length names. x = names ! j \<and> \<not> running (?xs[i := fst out] ! j)"
    if "x \<in> set (createdNames (fs @ es))" for x
    using that old new i by auto
  ultimately show ?thesis unfolding createdOnce_def xs by blast
qed

lemma reach_createdOnce:
  assumes laws: "buildLaws r" and keeps: "\<And>p. podName (MarkRestoreFromHibernate (meta r) p) = podName p"
    and "distinct slots" and "reach r mainVM mainNode intent slots s g t"
  shows "\<exists>es. hist t = es @ hist s \<and> createdOnce (map (agentPodName (csName (theSet s))) slots) g es"
  using assms(4)
proof (induction rule: reach.induct)
  case start
  show ?case by (rule exI [of _ "[]"]) (simp add: createdOnce_def newGroup_def)
next
  case (step g t i out u)
  let ?name = "agentPodName (csName (theSet s))"
  let ?names = "map ?name slots"
  from step.IH obtain es where es: "hist t = es @ hist s" "createdOnce ?names g es" by blast
  from reach_frame [OF step.hyps(1)] have t: "theSet t = theSet s" "length (grRoutines g) = length slots" by auto
  have i: "i < length slots" "running (grRoutines g ! i)" using step.hyps(2) t(2) by (auto simp: mayRun_def)
  have "wp (goStep r mainVM mainNode intent (slots ! i) (grRoutines g ! i)) (\<lambda>out u. carries (fst out) (?name (slots ! i)) \<and>
      (\<exists>fs. hist u = fs @ hist t \<and> (createdNames fs = [] \<or> createdNames fs = [?name (slots ! i)] \<and> \<not> running (fst out)))) t"
    using es(2) i(1) by (intro wp_goStep_once laws keeps) (auto simp: t createdOnce_def)
  from wpD [OF this step.hyps(3)] obtain fs where fs: "hist u = fs @ hist t" "carries (fst out) (?name (slots ! i))"
      "createdNames fs = [] \<or> createdNames fs = [?name (slots ! i)] \<and> \<not> running (fst out)" by blast
  have "distinct ?names"
    using \<open>distinct slots\<close> by (simp add: distinct_map inj_on_def agentPodName_def)
  with es(2) fs i t(2) have "createdOnce ?names (groupAfter g i out) (fs @ es)"
    by (intro createdOnce_step) simp_all
  with es(1) fs(1) show ?case by (intro exI [of _ "fs @ es"]) simp
qed

text \<open>
  C9: a slot is created at most once. Whatever the interleaving of the goroutines and the answers
  of the outside world, for distinct slots the pods asked for at any moment of the group have
  distinct names, each the name of one of the missing slots, whose goroutine has returned by then:
  the bounded parallel creation never races itself into a second pod for a slot.
\<close>

theorem group_creates_once:
  assumes "buildLaws r" and "\<And>p. podName (MarkRestoreFromHibernate (meta r) p) = podName p"
    and "distinct slots" and "reach r mainVM mainNode intent slots s g t"
  shows "\<exists>es. hist t = es @ hist s \<and> distinct (createdNames es) \<and>
    (\<forall>n\<in>set (createdNames es). \<exists>i<length slots.
       n = agentPodName (csName (theSet s)) (slots ! i) \<and> \<not> running (grRoutines g ! i))"
proof -
  from reach_createdOnce [OF assms] obtain es where
    es: "hist t = es @ hist s" "createdOnce (map (agentPodName (csName (theSet s))) slots) g es" by blast
  from es(2) have "\<exists>i<length slots. n = agentPodName (csName (theSet s)) (slots ! i) \<and> \<not> running (grRoutines g ! i)"
    if "n \<in> set (createdNames es)" for n
    using that by (fastforce simp: createdOnce_def)
  with es show ?thesis by (auto simp: createdOnce_def)
qed


section \<open>No slot is lost\<close>

text \<open>The pod of name \<open>n\<close> was asked for, and now exists: created, or there already.\<close>

definition present :: "string \<Rightarrow> history \<Rightarrow> bool" where
  "present n es \<longleftrightarrow> (\<exists>p x. EvCreatePod p x \<in> set es \<and> podName p = n \<and> (case x of None \<Rightarrow> True | Some e \<Rightarrow> isAlreadyExists e))"

definition accepted :: "history \<Rightarrow> bool" where
  "accepted es \<longleftrightarrow> (\<exists>p. EvCreatePod p None \<in> set es)"

lemma present_append [simp]: "present n (es @ fs) \<longleftrightarrow> present n es \<or> present n fs"
  by (auto simp: present_def)

lemma accepted_append [simp]: "accepted (es @ fs) \<longleftrightarrow> accepted es \<or> accepted fs"
  by (auto simp: accepted_def)

lemma accepted_none: "list_all (\<lambda>e. \<forall>p x. e \<noteq> EvCreatePod p x) es \<Longrightarrow> \<not> accepted es"
  by (auto simp: accepted_def list_all_iff)

lemma slotErr_not_None [simp]: "slotErr w k e \<noteq> GDone None"
  by (simp add: slotErr_def)

definition stepReport :: "string \<Rightarrow> goroutine \<times> string \<times> bool \<Rightarrow> history \<Rightarrow> bool" where
  "stepReport n out es \<longleftrightarrow> carries (fst out) n \<and> (fst out = GDone None \<longrightarrow> present n es) \<and> snd (snd out) = accepted es"

lemma wp_goStep_report:
  assumes laws: "buildLaws r" and keeps: "\<And>p. podName (MarkRestoreFromHibernate (meta r) p) = podName p"
    and n: "n = agentPodName (csName (theSet s)) slot" and st: "carries st n" "running st"
  shows "wp (goStep r mainVM mainNode intent slot st) (\<lambda>out t. \<exists>es. hist t = es @ hist s \<and> stepReport n out es) s"
proof (cases st)
  case GBuild
  with laws n show ?thesis
    by (auto simp: wp_bind wp_theCS wp_return podName_built stepReport_def accepted_def split: sum.split)
next
  case (GMark p)
  have "wp (runIntent r intent) (\<lambda>got t. (\<exists>es. hist t = es @ hist s \<and> \<not> accepted es)) s"
    by (rule wp_mono [OF wp_runIntent]) (force simp: accepted_def intro: exI [of _ "[_]"])
  then have "wp (runIntent r intent) (\<lambda>got t. \<exists>es. hist t = es @ hist s \<and> stepReport n (case got of
       Inl err \<Rightarrow> (slotErr ''mark restore sub-agent'' slot err, [], False)
     | Inr restorable \<Rightarrow> if podName p \<in> set restorable then (GProbe p, [], False) else (GCreate p, [], False)) es) s"
    by (rule wp_mono) (use st GMark in \<open>auto simp: stepReport_def split: sum.split\<close>)
  moreover have "stepReport n (GProbe p, [], False) []"
    using st GMark by (simp add: stepReport_def accepted_def)
  ultimately show ?thesis using GMark by (simp add: wp_bind wp_theCS wp_return wp_fun)
qed (use st keeps in \<open>auto simp: wp_simps HibernateSnapshotImage_def stepReport_def accepted_def present_def
      intro: exI [of _ "[_]"] split: sum.split option.split\<close>)

definition allPresent :: "string list \<Rightarrow> group \<Rightarrow> history \<Rightarrow> bool" where
  "allPresent names g es \<longleftrightarrow> grCreated g = accepted es \<and>
     (\<forall>i<length names. carries (grRoutines g ! i) (names ! i) \<and>
        (case grRoutines g ! i of GDone None \<Rightarrow> present (names ! i) es | GDone (Some _) \<Rightarrow> grErr g \<noteq> None | _ \<Rightarrow> True))"

lemma allPresent_step:
  assumes "allPresent names g es" and "stepReport (names ! i) out fs"
    and "length (grRoutines g) = length names" and "i < length names"
  shows "allPresent names (groupAfter g i out) (fs @ es)"
  using assms unfolding allPresent_def stepReport_def groupAfter_def
  by (auto simp: split_def nth_list_update split: goroutine.split option.split)

lemma reach_allPresent:
  assumes laws: "buildLaws r" and keeps: "\<And>p. podName (MarkRestoreFromHibernate (meta r) p) = podName p"
    and "reach r mainVM mainNode intent slots s g t"
  shows "\<exists>es. hist t = es @ hist s \<and> allPresent (map (agentPodName (csName (theSet s))) slots) g es"
  using assms(3)
proof (induction rule: reach.induct)
  case start
  show ?case by (rule exI [of _ "[]"]) (simp add: allPresent_def newGroup_def accepted_def)
next
  case (step g t i out u)
  let ?name = "agentPodName (csName (theSet s))"
  let ?names = "map ?name slots"
  from step.IH obtain es where es: "hist t = es @ hist s" "allPresent ?names g es" by blast
  from reach_frame [OF step.hyps(1)] have t: "theSet t = theSet s" "length (grRoutines g) = length slots" by auto
  have i: "i < length slots" "running (grRoutines g ! i)" using step.hyps(2) t(2) by (auto simp: mayRun_def)
  have "wp (goStep r mainVM mainNode intent (slots ! i) (grRoutines g ! i))
      (\<lambda>out u. \<exists>fs. hist u = fs @ hist t \<and> stepReport (?name (slots ! i)) out fs) t"
    using es(2) i by (intro wp_goStep_report laws keeps) (auto simp: t allPresent_def)
  from wpD [OF this step.hyps(3)] obtain fs where fs: "hist u = fs @ hist t" "stepReport (?name (slots ! i)) out fs" by blast
  with es(2) i(1) t(2) have "allPresent ?names (groupAfter g i out) (fs @ es)"
    by (intro allPresent_step) simp_all
  with es(1) fs(1) show ?case by (intro exI [of _ "fs @ es"]) simp
qed

text \<open>
  C10: a scale-up that reports no error is complete. Whatever the interleaving of the goroutines and the answers of the
  outside world, when \<open>createSubAgents\<close> returns without an error every missing slot has its pod: a create of
  this call was accepted for it, or the API server said that the pod exists already. And it reports a
  change exactly when a create was accepted, whether it ended in an error or not.
\<close>

theorem scale_up_complete:
  assumes "buildLaws r" and "\<And>p. podName (MarkRestoreFromHibernate (meta r) p) = podName p"
    and "run_state (createSubAgents r missing mainVM mainNode intent) s = ((created, err), t)"
  shows "\<exists>es. hist t = es @ hist s \<and> created = accepted es \<and>
    (err = None \<longrightarrow> (\<forall>slot\<in>set missing. present (agentPodName (csName (theSet s)) slot) es))"
proof (cases "missing = []")
  case True
  with assms(3) show ?thesis by (simp add: createSubAgents_def accepted_def)
next
  case False
  let ?names = "map (agentPodName (csName (theSet s))) missing"
  obtain g u where g: "run_state (runGroup r mainVM mainNode intent missing) s = (g, u)"
    "reach r mainVM mainNode intent missing s g u" "length (grRoutines g) = length missing"
    "list_all (\<lambda>st. \<not> running st) (grRoutines g)"
    using group_ends [of r mainVM mainNode intent missing s] by blast
  from reach_allPresent [OF assms(1,2) g(2)] obtain es where es: "hist u = es @ hist s" "allPresent ?names g es" by blast
  obtain err' where run: "run_state (forgetReclaim r (grDiscarded g)) u = (err', t)"
    and res: "created = grCreated g" "err = joinErrs [grErr g, err']"
    using assms(3) False g(1) by (auto simp: createSubAgents_def split: prod.splits)
  have "emits (\<lambda>e. \<forall>p x. e \<noteq> EvCreatePod p x) (forgetReclaim r (grDiscarded g))" by (intro emits_intros) simp_all
  from emitsE [OF this, of u] run obtain fs where fs: "hist t = fs @ hist u" "list_all (\<lambda>e. \<forall>p x. e \<noteq> EvCreatePod p x) fs"
    by (auto simp: final_def)
  have "present (?names ! i) es" if "err = None" "i < length missing" for i
  proof -
    have "grErr g = None" using that(1) res by (simp add: joinErrs_None)
    moreover have "\<not> running (grRoutines g ! i)" using g(3,4) that by (simp add: list_all_length)
    ultimately show ?thesis using es(2) that
      by (cases "grRoutines g ! i") (fastforce simp: allPresent_def split: option.splits)+
  qed
  then have "\<forall>slot\<in>set missing. present (agentPodName (csName (theSet s)) slot) (fs @ es)" if "err = None"
    using that by (fastforce simp: in_set_conv_nth)
  moreover have "created = accepted (fs @ es)"
    using es(2) accepted_none [OF fs(2)] res by (simp add: allPresent_def)
  ultimately show ?thesis using es(1) fs(1) by (intro exI [of _ "fs @ es"]) simp
qed


section \<open>Concrete runs\<close>

text \<open>Two slots, each goroutine scheduled once: both have started.\<close>

definition demoBurst :: "group \<times> setWorld" where
  "demoBurst = run_state (runSchedule (demoEnv [] [] [] 0) ''vm'' ''n1'' (IntentOnce ''ns'') (slotsFrom 1 2) [0, 1]
     (newGroup (length (slotsFrom 1 2)))) (demoWorld demoSet [])"

text \<open>Two slots interleaved step by step until both have returned.\<close>

definition demoPair :: "group \<times> setWorld" where
  "demoPair = run_state (runSchedule (demoEnv [] [] [] 0) ''vm'' ''n1'' (IntentOnce ''ns'') [1, 2]
     [0, 1, 0, 1, 1, 0, 1, 0, 0, 1] (newGroup (length [1, 2 :: int]))) (demoWorld demoSet [])"

lemma demo_reach:
  "reach r mainVM mainNode intent slots s (fst (run_state (runSchedule r mainVM mainNode intent slots is (newGroup (length slots))) s))
     (snd (run_state (runSchedule r mainVM mainNode intent slots is (newGroup (length slots))) s))"
  by (rule wpD [OF runSchedule_reach [OF reach.start]]) simp

lemma demo_burst: "length (filter started (grRoutines (fst demoBurst))) = 2"
  by code_simp

lemma demo_pair: "createdNames (hist (snd demoPair)) = [''s-1'', ''s-2'']"
  by code_simp


theorem group_creates_once_witness:
  "createdNames (hist (snd demoPair)) = [''s-1'', ''s-2''] \<and>
     (\<exists>es. hist (snd demoPair) = es @ [] \<and> distinct (createdNames es) \<and>
       (\<forall>n\<in>set (createdNames es). \<exists>i<length [1, 2 :: int].
          n = agentPodName ''s'' ([1, 2] ! i) \<and> \<not> running (grRoutines (fst demoPair) ! i)))"
proof
  have s: "hist (demoWorld demoSet []) = []" "csName (theSet (demoWorld demoSet [])) = ''s''"
    by (simp_all add: demoWorld_def demoSet_def)
  show "\<exists>es. hist (snd demoPair) = es @ [] \<and> distinct (createdNames es) \<and>
       (\<forall>n\<in>set (createdNames es). \<exists>i<length [1, 2 :: int].
          n = agentPodName ''s'' ([1, 2] ! i) \<and> \<not> running (grRoutines (fst demoPair) ! i))"
    using group_creates_once [OF demo_buildLaws [of "[]" "[]" "[]" 0] _ _
      demo_reach [of "demoEnv [] [] [] 0" "''vm''" "''n1''" "IntentOnce ''ns''" "[1, 2]" "demoWorld demoSet []"
        "[0, 1, 0, 1, 1, 0, 1, 0, 0, 1]"]]
    unfolding demoPair_def [symmetric] s by (simp add: demo_simps)
qed (rule demo_pair)

text \<open>A whole scale-up by slot 2 under the schedule of the fixture.\<close>

definition demoScaleUp :: "(bool \<times> gerr option) \<times> setWorld" where
  "demoScaleUp = run_state (createSubAgents (demoEnv [] [] [] 0) [2] ''vm'' ''n1'' (IntentOnce ''ns'')) (demoWorld demoSet [])"

lemma demo_slots: "formatInt 2 = ''2''"
  by code_simp

lemma demo_scaled: "fst demoScaleUp = (True, None)"
  by code_simp

theorem scale_up_complete_witness:
  "\<exists>es. hist (snd demoScaleUp) = es @ [] \<and> accepted es \<and> present ''s-2'' es"
proof -
  have s: "hist (demoWorld demoSet []) = []" "csName (theSet (demoWorld demoSet [])) = ''s''"
    by (simp_all add: demoWorld_def demoSet_def)
  have "run_state (createSubAgents (demoEnv [] [] [] 0) [2] ''vm'' ''n1'' (IntentOnce ''ns'')) (demoWorld demoSet []) =
      ((True, None), snd demoScaleUp)"
    unfolding demo_scaled [symmetric] by (simp add: demoScaleUp_def)
  from scale_up_complete [OF demo_buildLaws _ this] show ?thesis
    unfolding s by (simp add: demo_simps agentPodName_def demo_slots)
qed

end
