(* ===== verification/Hibernation.thy ===== *)
theory Hibernation
  imports Snapshot Podpatch
begin

text \<open>
  The \<open>hibernation\<close> package (\<open>reconciler.go\<close>, \<open>hibernate.go\<close>, \<open>wake.go\<close>): driving one pod
  through hibernate and wake for a CocoonHibernation. The state extends the history with the
  CocoonHibernation, its target pod and the \<open>observed\<close> table, which outlives a pass.
\<close>


section \<open>State and constants\<close>

record hibWorld = world +
  theHib :: cocoonHibernation
  hibPod :: pod
  observed :: "(string, int) gomap"

type_synonym 'a hibIO = "(hibWorld, 'a) state"
type_synonym hibOutcome = "ctrlResult \<times> gerr option"

definition hibInterval :: duration where
  "hibInterval = 5 * second"

definition hibAfterWrite :: duration where
  "hibAfterWrite = second"

definition hibernateTimeout :: duration where
  "hibernateTimeout = 3 * minute"

definition wakeTimeout :: duration where
  "wakeTimeout = 5 * minute"

definition hibFinalizerName :: string where
  "hibFinalizerName = ''cocoonhibernation.cocoonset.cocoonstack.io/finalizer''"

definition vmLockStripes :: nat where
  "vmLockStripes = 64"

definition theHB :: "cocoonHibernation hibIO" where
  "theHB = do { s \<leftarrow> State_Monad.get; State_Monad.return (theHib s) }"

definition putHB :: "cocoonHibernation \<Rightarrow> unit hibIO" where
  "putHB h = State_Monad.update (\<lambda>s. s\<lparr>theHib := h\<rparr>)"

definition thePod :: "pod hibIO" where
  "thePod = do { s \<leftarrow> State_Monad.get; State_Monad.return (hibPod s) }"

definition putHibPod :: "pod \<Rightarrow> unit hibIO" where
  "putHibPod p = State_Monad.update (\<lambda>s. s\<lparr>hibPod := p\<rparr>)"

definition vmStripe :: "env \<Rightarrow> string \<Rightarrow> nat" where
  "vmStripe r vm = vmHash r vm mod vmLockStripes"

text \<open>\<open>defer r.lockVM(vm)()\<close> around the rest of the function.\<close>

definition withVMLock :: "env \<Rightarrow> string \<Rightarrow> 'a hibIO \<Rightarrow> 'a hibIO" where
  "withVMLock r vm m = do {
     emit (EvLock (vmStripe r vm));
     a \<leftarrow> m;
     emit (EvUnlock (vmStripe r vm));
     State_Monad.return a
   }"


section \<open>Phases\<close>

definition readyCondition :: "kubePkg \<Rightarrow> hibPhase \<Rightarrow> int \<Rightarrow> condition" where
  "readyCondition K phase generation =
     (if phase = HPHibernated \<or> phase = HPActive
      then NewReadyCondition K generation ''True'' ''Done'' (hibPhaseText phase)
      else if phase = HPFailed
      then NewReadyCondition K generation ''False'' ''Failed'' (hibPhaseText phase)
      else NewReadyCondition K generation ''False'' ''Pending'' (hibPhaseText phase))"

text \<open>The Ready condition and its non-zero transition time.\<close>

definition readyOf :: "kubePkg \<Rightarrow> cocoonHibernation \<Rightarrow> condition option" where
  "readyOf K h =
     map_option ((!) (hsConditions (hbStatus h)))
       (FindStatusCondition K (hsConditions (hbStatus h)) (ConditionTypeReady K))"

definition readySince :: "kubePkg \<Rightarrow> cocoonHibernation \<Rightarrow> int option" where
  "readySince K h = Option.bind (readyOf K h) cdLastTransition"

definition refreshReady :: "env \<Rightarrow> condition list \<Rightarrow> condition list hibIO" where
  "refreshReady r conds =
     (case FindStatusCondition (kube r) conds (ConditionTypeReady (kube r)) of
        None \<Rightarrow> State_Monad.return conds
      | Some k \<Rightarrow> do {
          t \<leftarrow> now r;
          State_Monad.return (conds[k := (conds ! k)\<lparr>cdLastTransition := Some t\<rparr>])
        })"

definition setPhase :: "env \<Rightarrow> hibPhase \<Rightarrow> string \<Rightarrow> gerr option hibIO" where
  "setPhase r phase vm = do {
     h \<leftarrow> theHB;
     let st = hbStatus h;
     if hsPhase st = phase \<and> hsVMName st = vm \<and> hsObservedGeneration st = hbGeneration h
     then State_Monad.return None
     else do {
       let refreshDeadline = (hsPhase st \<noteq> phase \<and> (phase = HPHibernating \<or> phase = HPWaking));
       t \<leftarrow> now r;
       let conds = SetStatusCondition (kube r) t (hsConditions st)
         (readyCondition (kube r) phase (hbGeneration h));
       conds \<leftarrow> (if refreshDeadline then refreshReady r conds else State_Monad.return conds);
       (err, h') \<leftarrow> patchHibStatus r h (\<lambda>h. h\<lparr>hbStatus :=
         \<lparr>hsObservedGeneration = hbGeneration h, hsPhase = phase, hsVMName = vm, hsConditions = conds\<rparr>\<rparr>);
       putHB h';
       State_Monad.return (map_option (ErrWrap ''patch hibernation status'') err)
     }
   }"

definition patchNotReady :: "env \<Rightarrow> hibPhase \<Rightarrow> string \<Rightarrow> string \<Rightarrow> gerr option hibIO" where
  "patchNotReady r phase reason msg = do {
     h \<leftarrow> theHB;
     t \<leftarrow> now r;
     (err, h') \<leftarrow> patchHibStatus r h (\<lambda>h. h\<lparr>hbStatus := (hbStatus h)
       \<lparr>hsObservedGeneration := hbGeneration h, hsPhase := phase,
        hsConditions := SetStatusCondition (kube r) t (hsConditions (hbStatus h))
          (NewReadyCondition (kube r) (hbGeneration h) ''False'' reason msg)\<rparr>\<rparr>);
     putHB h';
     State_Monad.return (map_option (ErrWrap (''patch '' @ hibPhaseText phase @ '' status'')) err)
   }"

definition markFailed :: "env \<Rightarrow> string \<Rightarrow> gerr option hibIO" where
  "markFailed r msg = patchNotReady r HPFailed ''Failed'' msg"

definition markPending :: "env \<Rightarrow> string \<Rightarrow> gerr option hibIO" where
  "markPending r msg = do {
     h \<leftarrow> theHB;
     if hsPhase (hbStatus h) = HPHibernated \<or> hsPhase (hbStatus h) = HPWaking
     then State_Monad.return None
     else if hsPhase (hbStatus h) = HPPending \<and> hsObservedGeneration (hbStatus h) = hbGeneration h \<and>
       (case readyOf (kube r) h of None \<Rightarrow> False | Some ready \<Rightarrow> cdMessage ready = msg)
     then State_Monad.return None
     else patchNotReady r HPPending ''Pending'' msg
   }"

definition phaseDeadlineExceeded :: "env \<Rightarrow> hibPhase \<Rightarrow> duration \<Rightarrow> bool hibIO" where
  "phaseDeadlineExceeded r phase timeout = do {
     h \<leftarrow> theHB;
     if hsPhase (hbStatus h) \<noteq> phase then State_Monad.return False
     else (case readySince (kube r) h of
         None \<Rightarrow> State_Monad.return False
       | Some u \<Rightarrow> do {
           t \<leftarrow> now r;
           State_Monad.return (timeout < timeSub t u)
         })
   }"


section \<open>Announcements\<close>

definition firstTransitionAt :: "env \<Rightarrow> bool hibIO" where
  "firstTransitionAt r = do {
     h \<leftarrow> theHB;
     case readySince (kube r) h of
       None \<Rightarrow> State_Monad.return False
     | Some t \<Rightarrow> do {
         s \<leftarrow> State_Monad.get;
         let store = State_Monad.update (\<lambda>s. s\<lparr>observed := AList.update (hbUID h) t (observed s)\<rparr>);
         case map_of (observed s) (hbUID h) of
           None \<Rightarrow> do { store; State_Monad.return True }
         | Some got \<Rightarrow>
             if got < t then do { store; State_Monad.return True } else State_Monad.return False
       }
   }"

text \<open>The histogram observation carries the elapsed nanoseconds.\<close>

definition observePhaseExit :: "env \<Rightarrow> string \<Rightarrow> unit hibIO" where
  "observePhaseExit r res = do {
     h \<leftarrow> theHB;
     case readySince (kube r) h of
       None \<Rightarrow> State_Monad.return ()
     | Some u \<Rightarrow> do {
         t \<leftarrow> now r;
         case hsPhase (hbStatus h) of
           HPHibernating \<Rightarrow>
             emit (EvMetric HibernatePhaseDurationSeconds [res] (timeSub t u))
         | HPWaking \<Rightarrow>
             emit (EvMetric WakePhaseDurationSeconds [res] (timeSub t u))
         | _ \<Rightarrow> State_Monad.return ()
       }
   }"

definition announcePhaseExit :: "env \<Rightarrow> string \<Rightarrow> string \<Rightarrow> string \<Rightarrow> string \<Rightarrow> unit hibIO" where
  "announcePhaseExit r res eventType reason msg = do {
     first \<leftarrow> firstTransitionAt r;
     if \<not> first then State_Monad.return ()
     else do {
       observePhaseExit r res;
       emit (EvRecord eventType reason msg)
     }
   }"

definition announceRetryFromFailed :: "env \<Rightarrow> desire \<Rightarrow> unit hibIO" where
  "announceRetryFromFailed r d = do {
     h \<leftarrow> theHB;
     if hsPhase (hbStatus h) \<noteq> HPFailed then State_Monad.return ()
     else emit (EvRecord ''Normal'' ''RetryRequested''
       (''retrying '' @ desireText d @ '' after prior failure''))
   }"


section \<open>Hibernate\<close>

text \<open>The pod's annotation, through the pointer the pass holds.\<close>

definition patchHibernate :: "env \<Rightarrow> bool \<Rightarrow> gerr option hibIO" where
  "patchHibernate r st = do {
     p \<leftarrow> thePod;
     (err, p') \<leftarrow> podpatchHibernateState r st p;
     putHibPod p';
     State_Monad.return err
   }"

text \<open>vk-cocoon's completion signal for the generation it was stamped with.\<close>

definition hibernatedSignal :: "metaPkg \<Rightarrow> pod \<Rightarrow> bool" where
  "hibernatedSignal M p =
     (let st = ReadLifecycleStatus M p
      in lsState st = LifecycleStateHibernated M \<and> ReadCocoonSetGeneration M p \<le> lsObservedGeneration st)"

definition awaitHibernate :: "env \<Rightarrow> string \<Rightarrow> hibOutcome hibIO" where
  "awaitHibernate r vm = do {
     exceeded \<leftarrow> phaseDeadlineExceeded r HPHibernating hibernateTimeout;
     if exceeded then do {
       announcePhaseExit r ''timeout'' ''Warning'' ''HibernateTimedOut''
         (''snapshot '' @ vm @ '' not confirmed in the registry within 3m0s'');
       err \<leftarrow> markFailed r ''hibernate not confirmed within 3m0s'';
       State_Monad.return (noRequeue, err)
     } else do {
       err \<leftarrow> setPhase r HPHibernating vm;
       case err of
         Some e \<Rightarrow> State_Monad.return (noRequeue, Some e)
       | None \<Rightarrow> State_Monad.return (requeueIn hibInterval, None)
     }
   }"

definition confirmHibernate :: "env \<Rightarrow> string \<Rightarrow> hibOutcome hibIO" where
  "confirmHibernate r vm = do {
     got \<leftarrow> HasHibernateSnapshot r vm;
     case got of
       Inl err \<Rightarrow> do {
         exceeded \<leftarrow> phaseDeadlineExceeded r HPHibernating hibernateTimeout;
         if exceeded then awaitHibernate r vm
         else do {
           updateErr \<leftarrow> setPhase r HPHibernating vm;
           case updateErr of
             Some e \<Rightarrow> State_Monad.return (noRequeue, Some e)
           | None \<Rightarrow> State_Monad.return (noRequeue, Some err)
         }
       }
     | Inr present \<Rightarrow>
         if present then do {
           announcePhaseExit r ''ok'' ''Normal'' ''Hibernated'' (''snapshot '' @ vm @ '' pushed to the registry'');
           err \<leftarrow> setPhase r HPHibernated vm;
           State_Monad.return (noRequeue, err)
         } else awaitHibernate r vm
   }"

definition checkHibernate :: "env \<Rightarrow> string \<Rightarrow> hibOutcome hibIO" where
  "checkHibernate r vm = do {
     p \<leftarrow> thePod;
     if hibernatedSignal (meta r) p then confirmHibernate r vm else awaitHibernate r vm
   }"

definition reconcileHibernate :: "env \<Rightarrow> string \<Rightarrow> hibOutcome hibIO" where
  "reconcileHibernate r vm = do {
     announceRetryFromFailed r DesireHibernate;
     err \<leftarrow> patchHibernate r True;
     case err of
       Some e \<Rightarrow> State_Monad.return (noRequeue, Some (ErrWrap ''patch hibernate annotation'' e))
     | None \<Rightarrow> checkHibernate r vm
   }"


section \<open>Wake\<close>

definition markActive :: "env \<Rightarrow> string \<Rightarrow> gerr option hibIO" where
  "markActive r vm = do {
     p \<leftarrow> thePod;
     announcePhaseExit r ''ok'' ''Normal'' ''WokenActive''
       (''pod '' @ podNamespace p @ ''/'' @ podName p @ '' is running'');
     setPhase r HPActive vm
   }"

definition dropWokenTag :: "env \<Rightarrow> string \<Rightarrow> hibOutcome hibIO" where
  "dropWokenTag r vm = do {
     err \<leftarrow> DeleteManifestIfPresent r vm (HibernateSnapshotTag (meta r));
     State_Monad.return (noRequeue, map_option (ErrWrap (''delete hibernation snapshot '' @ vm)) err)
   }"

definition finishHibWake :: "env \<Rightarrow> string \<Rightarrow> bool \<Rightarrow> hibOutcome hibIO" where
  "finishHibWake r vm settled = do {
     err \<leftarrow> (if settled then State_Monad.return None else markActive r vm);
     case err of
       Some e \<Rightarrow> State_Monad.return (noRequeue, Some e)
     | None \<Rightarrow> dropWokenTag r vm
   }"

definition awaitHibWake :: "env \<Rightarrow> string \<Rightarrow> hibOutcome hibIO" where
  "awaitHibWake r vm = do {
     exceeded \<leftarrow> phaseDeadlineExceeded r HPWaking wakeTimeout;
     if exceeded then do {
       announcePhaseExit r ''timeout'' ''Warning'' ''WakeTimedOut''
         ''vk-cocoon did not report the container running within 5m0s'';
       err \<leftarrow> markFailed r ''wake timed out after 5m0s; vk-cocoon never reported the container running'';
       State_Monad.return (noRequeue, err)
     } else do {
       err \<leftarrow> setPhase r HPWaking vm;
       case err of
         Some e \<Rightarrow> State_Monad.return (noRequeue, Some e)
       | None \<Rightarrow> State_Monad.return (requeueIn hibInterval, None)
     }
   }"

definition startHibWake :: "env \<Rightarrow> bool \<Rightarrow> gerr option hibIO" where
  "startHibWake r settled =
     (if settled then State_Monad.return None
      else do {
        announceRetryFromFailed r DesireWake;
        p \<leftarrow> thePod;
        if ReadHibernateState (meta r) p then patchHibernate r False else State_Monad.return None
      })"

definition checkHibWake :: "env \<Rightarrow> string \<Rightarrow> bool \<Rightarrow> hibOutcome hibIO" where
  "checkHibWake r vm settled = do {
     p \<leftarrow> thePod;
     if VMLive (meta r) p then finishHibWake r vm settled
     else if settled then State_Monad.return (noRequeue, None)
     else awaitHibWake r vm
   }"

definition reconcileHibWake :: "env \<Rightarrow> string \<Rightarrow> hibOutcome hibIO" where
  "reconcileHibWake r vm = do {
     h \<leftarrow> theHB;
     p \<leftarrow> thePod;
     let settled = (hsPhase (hbStatus h) = HPActive \<and> hsObservedGeneration (hbStatus h) = hbGeneration h);
     if settled \<and> ReadHibernateState (meta r) p then State_Monad.return (noRequeue, None)
     else do {
       err \<leftarrow> startHibWake r settled;
       case err of
         Some e \<Rightarrow> State_Monad.return (noRequeue, Some (ErrWrap ''clear hibernate annotation'' e))
       | None \<Rightarrow> checkHibWake r vm settled
     }
   }"


section \<open>Delete\<close>

definition holdsSameVM :: "cocoonHibernation \<Rightarrow> cocoonHibernation \<Rightarrow> bool" where
  "holdsSameVM h other =
     (if hbUID other = hbUID h \<or> hbDeletionTimestamp other \<noteq> None then False
      else hsVMName (hbStatus other) = hsVMName (hbStatus h) \<or> hbPodRef other = hbPodRef h)"

definition vmHeldByAnotherCR :: "env \<Rightarrow> cocoonHibernation \<Rightarrow> (gerr + bool) hibIO" where
  "vmHeldByAnotherCR r h = do {
     got \<leftarrow> listHibs r (hbNamespace h);
     case got of
       Inl err \<Rightarrow> State_Monad.return (Inl (ErrWrap (''list cocoonhibernations in '' @ hbNamespace h) err))
     | Inr items \<Rightarrow> State_Monad.return (Inr (list_ex (holdsSameVM h) items))
   }"

definition releaseHib :: "env \<Rightarrow> gerr option hibIO" where
  "releaseHib r = do {
     h \<leftarrow> theHB;
     State_Monad.update (\<lambda>s. s\<lparr>observed := AList.delete (hbUID h) (observed s)\<rparr>);
     let (changed, finalizers) = RemoveFinalizer (kube r) (hbFinalizers h) hibFinalizerName;
     if \<not> changed then State_Monad.return None
     else do {
       (err, h') \<leftarrow> updateHib r (h\<lparr>hbFinalizers := finalizers\<rparr>);
       putHB h';
       State_Monad.return (map_option (ErrWrap ''remove finalizer'') err)
     }
   }"

definition deleteOwnedVM :: "env \<Rightarrow> cocoonHibernation \<Rightarrow> gerr option hibIO" where
  "deleteOwnedVM r h = do {
     got \<leftarrow> vmHeldByAnotherCR r h;
     case got of
       Inl err \<Rightarrow> State_Monad.return (Some err)
     | Inr held \<Rightarrow> do {
         _ \<leftarrow> (if held then State_Monad.return None
              else DeleteManifestIfPresent r (hsVMName (hbStatus h)) (HibernateSnapshotTag (meta r)));
         releaseHib r
       }
   }"

definition reconcileHibDelete :: "env \<Rightarrow> gerr option hibIO" where
  "reconcileHibDelete r = do {
     h \<leftarrow> theHB;
     if hsVMName (hbStatus h) = [] then releaseHib r
     else withVMLock r (hsVMName (hbStatus h)) (deleteOwnedVM r h)
   }"


section \<open>Reconcile\<close>

definition transition :: "env \<Rightarrow> string \<Rightarrow> hibOutcome hibIO" where
  "transition r vm = do {
     h \<leftarrow> theHB;
     case hbDesire h of
       DesireHibernate \<Rightarrow>
         if hsPhase (hbStatus h) = HPWaking then reconcileHibWake r vm else reconcileHibernate r vm
     | DesireWake \<Rightarrow>
         if hsPhase (hbStatus h) = HPHibernating then reconcileHibernate r vm else reconcileHibWake r vm
     | DesireOther d \<Rightarrow> do {
         err \<leftarrow> markFailed r (''unknown desire '' @ [CHR 0x22] @ d @ [CHR 0x22]);
         State_Monad.return (noRequeue, err)
       }
   }"

definition reconcileTarget :: "env \<Rightarrow> hibOutcome hibIO" where
  "reconcileTarget r = do {
     h \<leftarrow> theHB;
     got \<leftarrow> getPod r (hbNamespace h) (hbPodRef h);
     case got of
       Inl err \<Rightarrow>
         if isNotFound err then do {
           e \<leftarrow> markPending r (''pod '' @ hbNamespace h @ ''/'' @ hbPodRef h @ '' not yet present'');
           State_Monad.return (requeueIn hibInterval, e)
         } else State_Monad.return (noRequeue, Some (ErrWrap ''get target pod'' err))
     | Inr p \<Rightarrow> do {
         putHibPod p;
         let vm = vmName (ParseVMSpec (meta r) p);
         if vm = [] then do {
           e \<leftarrow> markPending r (''pod '' @ podNamespace p @ ''/'' @ podName p @ '' has no '' @
             AnnotationVMName (meta r) @ '' annotation yet'');
           State_Monad.return (requeueIn hibInterval, e)
         } else withVMLock r vm (transition r vm)
       }
   }"

definition reconcileHib :: "env \<Rightarrow> string \<Rightarrow> string \<Rightarrow> hibOutcome hibIO" where
  "reconcileHib r ns name = do {
     got \<leftarrow> getHib r ns name;
     case got of
       Inl err \<Rightarrow>
         if isNotFound err then State_Monad.return (noRequeue, None)
         else State_Monad.return (noRequeue, Some (ErrWrap (''get hibernation '' @ ns @ ''/'' @ name) err))
     | Inr h \<Rightarrow> do {
         putHB h;
         if hbDeletionTimestamp h \<noteq> None then do {
           err \<leftarrow> reconcileHibDelete r;
           State_Monad.return (noRequeue, err)
         } else
           let (added, finalizers) = AddFinalizer (kube r) (hbFinalizers h) hibFinalizerName
           in if added then do {
                (err, h') \<leftarrow> updateHib r (h\<lparr>hbFinalizers := finalizers\<rparr>);
                putHB h';
                (case err of
                   Some e \<Rightarrow> State_Monad.return (noRequeue, Some (ErrWrap ''add finalizer'' e))
                 | None \<Rightarrow> State_Monad.return (requeueIn hibAfterWrite, None))
              } else reconcileTarget r
       }
   }"

text \<open>The requests a pod event fans out to.\<close>

definition hibernationsTargetingPod :: "env \<Rightarrow> string \<Rightarrow> string \<Rightarrow> (string \<times> string) list hibIO" where
  "hibernationsTargetingPod r ns name = do {
     got \<leftarrow> listHibsByPodRef r ns name;
     case got of
       Inl err \<Rightarrow> State_Monad.return []
     | Inr items \<Rightarrow> State_Monad.return (map (\<lambda>h. (hbNamespace h, hbName h)) items)
   }"

end
