(* ===== verification/HibSafety.thy ===== *)
theory HibSafety
  imports Hibernation
begin

text \<open>
  What the hibernation reconciler guarantees. The phases a CocoonHibernation may move through are an
  abstract transition system, \<open>hibStep\<close>; every status write of a pass is one of its steps. The
  effects a phase stands for are guarded histories: \<open>Hibernated\<close> only after the completion signal
  and a probe that saw the tag, the tag dropped only under a live VM or by its last holder.
\<close>


section \<open>Primitive steps of the state\<close>

lemma wp_hib_state [wp_simps]:
  "wp theHB Q1 s = Q1 (theHib s) s" "wp (putHB h) Q2 s = Q2 () (s\<lparr>theHib := h\<rparr>)"
  "wp thePod Q3 s = Q3 (hibPod s) s" "wp (putHibPod p) Q2 s = Q2 () (s\<lparr>hibPod := p\<rparr>)"
  by (simp_all add: theHB_def putHB_def thePod_def putHibPod_def wp_simps)

lemma emits_hib_state [emits_intros]:
  "emits K theHB" "emits K (putHB h)" "emits K thePod" "emits K (putHibPod p)"
  unfolding theHB_def putHB_def thePod_def putHibPod_def by (intro emits_intros; simp)+

lemma final_theHB: "final (theHB \<bind> f) s = final (f (theHib s)) s"
  by (simp add: theHB_def final_def)


section \<open>Footprints\<close>

lemma setPhase_emits [emits_intros]:
  assumes "\<And>t. K (EvNow t)"
    and "\<And>h h' x. hsPhase (hbStatus h') = phase \<Longrightarrow> hsVMName (hbStatus h') = vm \<Longrightarrow> K (EvPatchHibStatus h h' x)"
  shows "emits K (setPhase r phase vm)"
  unfolding setPhase_def refreshReady_def now_def patchHibStatus_def by (intro emits_intros assms) simp_all

lemma patchNotReady_emits [emits_intros]:
  assumes "\<And>t. K (EvNow t)" and "\<And>h h' x. hsPhase (hbStatus h') = phase \<Longrightarrow> K (EvPatchHibStatus h h' x)"
  shows "emits K (patchNotReady r phase reason msg)"
  unfolding patchNotReady_def now_def patchHibStatus_def by (intro emits_intros assms) simp_all

lemma mark_emits [emits_intros]:
  assumes "\<And>t. K (EvNow t)"
  shows "(\<And>h h' x. hsPhase (hbStatus h') = HPFailed \<Longrightarrow> K (EvPatchHibStatus h h' x)) \<Longrightarrow> emits K (markFailed r msg)"
    and "(\<And>h h' x. hsPhase (hbStatus h') = HPPending \<Longrightarrow> K (EvPatchHibStatus h h' x)) \<Longrightarrow> emits K (markPending r msg)"
  unfolding markFailed_def markPending_def by (intro emits_intros assms; assumption)+

lemma phaseDeadlineExceeded_emits [emits_intros]:
  "(\<And>t. K (EvNow t)) \<Longrightarrow> emits K (phaseDeadlineExceeded r phase timeout)"
  unfolding phaseDeadlineExceeded_def now_def by (intro emits_intros)

lemma observePhaseExit_emits [emits_intros]:
  assumes "\<And>t. K (EvNow t)" and "\<And>c ls d. labelled c ls \<Longrightarrow> K (EvMetric c ls d)"
  shows "emits K (observePhaseExit r res)"
  unfolding observePhaseExit_def now_def
  by (intro emits_intros assms) (auto intro!: emits_intros assms split: hibPhase.split)

lemma announce_emits [emits_intros]:
  assumes "\<And>t. K (EvNow t)" and "\<And>c ls d. labelled c ls \<Longrightarrow> K (EvMetric c ls d)" and "\<And>a b c. K (EvRecord a b c)"
  shows "emits K (announcePhaseExit r res eventType reason msg)"
  unfolding announcePhaseExit_def firstTransitionAt_def Let_def by (intro emits_intros assms) simp_all

lemma announceRetry_emits [emits_intros]:
  "(\<And>a b c. K (EvRecord a b c)) \<Longrightarrow> emits K (announceRetryFromFailed r d)"
  unfolding announceRetryFromFailed_def by (intro emits_intros)

lemma patchHibernate_emits [emits_intros]:
  "(\<And>p q e. K (EvPatchPod p q e)) \<Longrightarrow> emits K (patchHibernate r st)"
  unfolding patchHibernate_def by (intro emits_intros)


section \<open>Phases as a transition system\<close>

text \<open>
  The steps a CocoonHibernation may take. A reversed desire does not interrupt a transition in
  flight: a waking CR finishes waking although hibernation is desired, a hibernating one finishes
  hibernating although wake is. Only a transition in flight can time out, and \<open>Pending\<close> is never
  entered from the two phases that carry a restore intent.
\<close>

inductive hibStep :: "desire \<Rightarrow> hibPhase \<Rightarrow> hibPhase \<Rightarrow> bool" where
  hibernate: "d = DesireHibernate \<and> p \<noteq> HPWaking \<or> d = DesireWake \<and> p = HPHibernating \<Longrightarrow>
    q = HPHibernating \<or> q = HPHibernated \<or> q = HPFailed \<and> p = HPHibernating \<Longrightarrow> hibStep d p q"
| wake: "d = DesireWake \<and> p \<noteq> HPHibernating \<or> d = DesireHibernate \<and> p = HPWaking \<Longrightarrow>
    q = HPWaking \<or> q = HPActive \<or> q = HPFailed \<and> p = HPWaking \<Longrightarrow> hibStep d p q"
| reject: "hibStep (DesireOther d) p HPFailed"
| await: "p \<noteq> HPHibernated \<Longrightarrow> p \<noteq> HPWaking \<Longrightarrow> hibStep d p HPPending"

inductive_simps hibStep_from:
  "hibStep d HPWaking q" "hibStep d HPHibernating q" "hibStep d HPHibernated q"

text \<open>The status writes of a history, latest first.\<close>

fun statusWrites :: "history \<Rightarrow> (cocoonHibernation \<times> cocoonHibernation) list" where
  "statusWrites [] = []"
| "statusWrites (EvPatchHibStatus h h' x # es) = (h, h') # statusWrites es"
| "statusWrites (_ # es) = statusWrites es"

lemma statusWrites_append [simp]: "statusWrites (es @ fs) = statusWrites es @ statusWrites fs"
  by (induction es rule: statusWrites.induct) auto

lemma statusWrites_none: "list_all (\<lambda>e. \<forall>h h' x. e \<noteq> EvPatchHibStatus h h' x) es \<Longrightarrow> statusWrites es = []"
  by (induction es rule: statusWrites.induct) auto

text \<open>
  \<open>wrote P s t\<close>: between \<open>s\<close> and \<open>t\<close> either nothing was written to the status and the CR in hand is the
  same, or one write took it to a phase in \<open>P\<close>.
\<close>

definition wrote :: "hibPhase set \<Rightarrow> hibWorld \<Rightarrow> hibWorld \<Rightarrow> bool" where
  "wrote P s t \<longleftrightarrow> (\<exists>es. hist t = es @ hist s \<and>
     (statusWrites es = [] \<and> theHib t = theHib s \<or>
      (\<exists>h'. statusWrites es = [(theHib s, h')] \<and> hsPhase (hbStatus h') \<in> P)))"

lemma wrote_refl [simp]: "wrote P s s"
  by (simp add: wrote_def)

lemma wrote_mono: "wrote P s t \<Longrightarrow> P \<subseteq> Q \<Longrightarrow> wrote Q s t"
  by (fastforce simp: wrote_def)

lemma wrote_after: "wrote {} s t \<Longrightarrow> wrote P t u \<Longrightarrow> wrote P s u"
  unfolding wrote_def by (elim exE conjE disjE) (force intro: exI [of _ "_ @ _"])+

lemma wrote_frame: "theHib t = theHib s \<Longrightarrow> hist t = es @ hist s \<Longrightarrow> statusWrites es = [] \<Longrightarrow> wrote P s t"
  by (auto simp: wrote_def)

text \<open>A program that touches neither the status nor the CR in hand may follow a write.\<close>

definition still :: "'a hibIO \<Rightarrow> bool" where
  "still m \<longleftrightarrow> (\<forall>s. theHib (final m s) = theHib s \<and> (\<exists>es. hist (final m s) = es @ hist s \<and> statusWrites es = []))"

lemma stillI:
  assumes "\<And>s. wp m (\<lambda>_ t. theHib t = theHib s) s" and "emits (\<lambda>e. \<forall>h h' x. e \<noteq> EvPatchHibStatus h h' x) m"
  shows "still m"
  unfolding still_def
proof
  fix s
  from emitsD [OF assms(2)] assms(1) [of s] statusWrites_none
  show "theHib (final m s) = theHib s \<and> (\<exists>es. hist (final m s) = es @ hist s \<and> statusWrites es = [])"
    unfolding wp_result_final by blast
qed

lemma still_calls:
  "still (phaseDeadlineExceeded r phase timeout)" "still (announcePhaseExit r res eventType reason msg)"
  "still (announceRetryFromFailed r d)" "still (patchHibernate r st)" "still (HasHibernateSnapshot r vm)"
  "still (DeleteManifestIfPresent r vm tag)" "still (emit (EvLock n))" "still (emit (EvUnlock n))"
  "still thePod" "still (putHibPod p)" "still (getPod r ns name)" "still (listHibs r ns)"
  by (rule stillI; (intro emits_intros; simp)?;
      auto simp: phaseDeadlineExceeded_def announcePhaseExit_def firstTransitionAt_def observePhaseExit_def
        announceRetryFromFailed_def patchHibernate_def wp_simps Let_def
        intro!: emits_intros split: option.split sum.split bool.split prod.split hibPhase.split)+

lemma still_return: "still (State_Monad.return a)"
  by (simp add: still_def)

lemma still_bind:
  assumes "still m" and "\<And>a. still (f a)"
  shows "still (m \<bind> f)"
  unfolding still_def final_bind
proof
  fix s
  from assms(1) obtain es where "hist (final m s) = es @ hist s" "statusWrites es = []" "theHib (final m s) = theHib s"
    by (auto simp: still_def)
  moreover from assms(2) obtain fs where "hist (final (f (result m s)) (final m s)) = fs @ hist (final m s)"
      "statusWrites fs = []" "theHib (final (f (result m s)) (final m s)) = theHib (final m s)"
    unfolding still_def by meson
  ultimately show "theHib (final (f (result m s)) (final m s)) = theHib s \<and>
      (\<exists>es. hist (final (f (result m s)) (final m s)) = es @ hist s \<and> statusWrites es = [])"
    by (intro conjI exI [of _ "fs @ es"]) simp_all
qed

lemma still_cases:
  "still m \<Longrightarrow> still n \<Longrightarrow> still (if b then m else n)"
  "still m \<Longrightarrow> (\<And>a. still (f a)) \<Longrightarrow> still (case x of None \<Rightarrow> m | Some a \<Rightarrow> f a)"
  by (simp_all split: option.split)

lemmas still_rules = still_calls still_return still_bind still_cases

text \<open>\<open>writes P h m\<close>: with the CR \<open>h\<close> in hand, \<open>m\<close> writes at most one status, of a phase in \<open>P\<close>.\<close>

definition writes :: "hibPhase set \<Rightarrow> cocoonHibernation \<Rightarrow> 'a hibIO \<Rightarrow> bool" where
  "writes P h m \<longleftrightarrow> (\<forall>s. theHib s = h \<longrightarrow> wrote P s (final m s))"

lemma writes_still: "still m \<Longrightarrow> writes P h m"
  by (auto simp: still_def writes_def intro: wrote_frame)

lemma writes_bind:
  assumes "still m" and "\<And>a. writes P h (f a)"
  shows "writes P h (m \<bind> f)"
  unfolding writes_def final_bind
proof (intro allI impI)
  fix s :: hibWorld
  assume h: "theHib s = h"
  with assms(1) have "wrote {} s (final m s)" "theHib (final m s) = h"
    using writes_still [OF assms(1), of "{}" h] by (auto simp: still_def writes_def)
  with assms(2) show "wrote P s (final (f (result m s)) (final m s))"
    unfolding writes_def by (blast intro: wrote_after)
qed

lemma writes_then:
  assumes "writes P h m" and "\<And>a. still (f a)"
  shows "writes P h (m \<bind> f)"
  unfolding writes_def final_bind
proof (intro allI impI)
  fix s :: hibWorld
  assume "theHib s = h"
  with assms(1) have w: "wrote P s (final m s)" by (simp add: writes_def)
  from assms(2) obtain es where es: "hist (final (f (result m s)) (final m s)) = es @ hist (final m s)"
      "statusWrites es = []" "theHib (final (f (result m s)) (final m s)) = theHib (final m s)"
    unfolding still_def by meson
  from w es show "wrote P s (final (f (result m s)) (final m s))"
    unfolding wrote_def by (elim exE conjE disjE) (force intro: exI [of _ "_ @ _"])+
qed

lemma writes_theHB: "writes P h (f h) \<Longrightarrow> writes P h (theHB \<bind> f)"
  by (simp add: writes_def final_theHB)

lemma writes_deadline:
  assumes "hsPhase (hbStatus h) = phase \<Longrightarrow> writes P h m" and "writes P h n"
  shows "writes P h (phaseDeadlineExceeded r phase timeout \<bind> (\<lambda>b. if b then m else n))"
proof (cases "hsPhase (hbStatus h) = phase")
  case True
  with assms show ?thesis by (intro writes_bind still_calls) simp
next
  case False
  then have "writes P h (if result (phaseDeadlineExceeded r phase timeout) s then m else n)" if "theHib s = h" for s
    using that assms(2) by (simp add: phaseDeadlineExceeded_def theHB_def result_def)
  moreover have "final (phaseDeadlineExceeded r phase timeout) s = s" if "theHib s = h" for s
    using that False by (simp add: phaseDeadlineExceeded_def theHB_def final_def)
  ultimately show ?thesis unfolding writes_def final_bind by metis
qed

lemma writes_cases:
  "(b \<Longrightarrow> writes P h m) \<Longrightarrow> (\<not> b \<Longrightarrow> writes P h n) \<Longrightarrow> writes P h (if b then m else n)"
  "writes P h m \<Longrightarrow> (\<And>a. writes P h (f a)) \<Longrightarrow> writes P h (case x of None \<Rightarrow> m | Some a \<Rightarrow> f a)"
  "(\<And>e. writes P h (k e)) \<Longrightarrow> (\<And>a. writes P h (f a)) \<Longrightarrow> writes P h (case y of Inl e \<Rightarrow> k e | Inr a \<Rightarrow> f a)"
  "(\<And>a b. writes P h (g a b)) \<Longrightarrow> writes P h (case z of (a, b) \<Rightarrow> g a b)"
  by (simp_all split: option.split sum.split prod.split)

lemma writes_wp: "(\<And>s. theHib s = h \<Longrightarrow> wp m (\<lambda>_ t. wrote P s t) s) \<Longrightarrow> writes P h m"
  by (simp add: writes_def wp_result_final)

lemma writes_setPhase: "phase \<in> P \<Longrightarrow> writes P h (setPhase r phase vm)"
proof (rule writes_wp)
  fix s
  assume phase: "phase \<in> P"
  have one: "wrote P s (t\<lparr>hist := EvPatchHibStatus (theHib s) h' x # es @ hist s, theHib := h''\<rparr>)"
    if "hsPhase (hbStatus h') \<in> P" "statusWrites es = []" for t h' h'' x es
    using that unfolding wrote_def by (intro exI [of _ "EvPatchHibStatus (theHib s) h' x # es"]) simp
  show "wp (setPhase r phase vm) (\<lambda>_ t. wrote P s t) s"
    using phase one [of _ "[EvNow _]"] one [of _ "[EvNow _, EvNow _]"]
    by (auto simp: setPhase_def refreshReady_def wp_simps Let_def split_def split: option.split)
qed

lemma writes_patchNotReady: "phase \<in> P \<Longrightarrow> writes P h (patchNotReady r phase reason msg)"
  by (rule writes_wp) (auto simp: patchNotReady_def wp_simps Let_def split_def wrote_def
      intro!: exI [of _ "[EvPatchHibStatus _ _ _, EvNow _]"])


section \<open>Each handler is a step\<close>

lemmas writes_call = still_calls(2-12) [THEN writes_bind]
lemmas writes_last = writes_setPhase [THEN writes_then] writes_patchNotReady [THEN writes_then]
lemmas writes_rules = writes_theHB writes_deadline writes_call writes_last writes_cases writes_setPhase
  writes_patchNotReady still_return still_cases

lemma writes_awaitHibernate:
  assumes "{HPHibernating} \<union> (if hsPhase (hbStatus h) = HPHibernating then {HPFailed} else {}) \<subseteq> P"
  shows "writes P h (awaitHibernate r vm)"
  unfolding awaitHibernate_def markFailed_def by (intro writes_rules) (use assms in auto)

lemma writes_confirmHibernate:
  assumes "{HPHibernating, HPHibernated} \<union> (if hsPhase (hbStatus h) = HPHibernating then {HPFailed} else {}) \<subseteq> P"
  shows "writes P h (confirmHibernate r vm)"
  unfolding confirmHibernate_def by (intro writes_rules writes_awaitHibernate) (use assms in auto)

lemma writes_reconcileHibernate:
  assumes "{HPHibernating, HPHibernated} \<union> (if hsPhase (hbStatus h) = HPHibernating then {HPFailed} else {}) \<subseteq> P"
  shows "writes P h (reconcileHibernate r vm)"
  unfolding reconcileHibernate_def checkHibernate_def
  by (intro writes_rules writes_still [OF still_return] writes_awaitHibernate writes_confirmHibernate) (use assms in auto)

lemma writes_awaitHibWake:
  assumes "{HPWaking} \<union> (if hsPhase (hbStatus h) = HPWaking then {HPFailed} else {}) \<subseteq> P"
  shows "writes P h (awaitHibWake r vm)"
  unfolding awaitHibWake_def markFailed_def by (intro writes_rules) (use assms in auto)

lemma writes_finishHibWake: "HPActive \<in> P \<Longrightarrow> writes P h (finishHibWake r vm settled)"
  unfolding finishHibWake_def markActive_def dropWokenTag_def
  by (intro writes_then) (intro writes_rules writes_still [OF still_return] still_rules; simp)+

lemma writes_reconcileHibWake:
  assumes "{HPWaking, HPActive} \<union> (if hsPhase (hbStatus h) = HPWaking then {HPFailed} else {}) \<subseteq> P"
  shows "writes P h (reconcileHibWake r vm)"
proof -
  have start: "still (startHibWake r settled)" for settled
    unfolding startHibWake_def by (intro still_rules)
  show ?thesis
    unfolding reconcileHibWake_def checkHibWake_def Let_def
    by (intro writes_theHB writes_call(8) writes_cases writes_bind [OF start] writes_still [OF still_return]
        writes_finishHibWake writes_awaitHibWake) (use assms in auto)
qed

lemma writes_transition: "writes {q. hibStep (hbDesire h) (hsPhase (hbStatus h)) q} h (transition r vm)"
  unfolding transition_def markFailed_def
  by (rule writes_theHB) (auto simp: hibStep.simps split: desire.split
      intro!: writes_reconcileHibernate writes_reconcileHibWake writes_last still_return)

lemma writes_markPending:
  "writes {q. hibStep d (hsPhase (hbStatus h)) q} h (markPending r msg)"
  unfolding markPending_def
  by (intro writes_rules writes_still [OF still_return]) (auto simp: hibStep.simps)

lemma writes_lock:
  assumes "writes P h m"
  shows "writes P h (withVMLock r vm m)"
  unfolding withVMLock_def by (intro writes_call writes_then assms still_rules)

lemma writes_reconcileTarget: "writes {q. hibStep (hbDesire h) (hsPhase (hbStatus h)) q} h (reconcileTarget r)"
  unfolding reconcileTarget_def Let_def
  by (intro writes_theHB writes_call(9,10) writes_cases writes_still [OF still_return]
      writes_then [OF writes_markPending still_return] writes_lock writes_transition)

lemma reconcileHibDelete_emits [emits_intros]:
  assumes "\<And>ns a. K (EvListHibs ns a)" and "\<And>vm a. K (EvHasManifest vm (HibernateSnapshotTag (meta r)) a)"
    and "\<And>vm a. K (EvDeleteManifest vm (HibernateSnapshotTag (meta r)) a)" and "\<And>h x. K (EvUpdateHib h x)"
    and "\<And>n. K (EvLock n)" and "\<And>n. K (EvUnlock n)"
  shows "emits K (reconcileHibDelete r)"
  unfolding reconcileHibDelete_def deleteOwnedVM_def withVMLock_def vmHeldByAnotherCR_def releaseHib_def listHibs_def updateHib_def
  by (intro emits_intros assms) simp_all

text \<open>
  C2: the reconciler implements the transition system. Whatever the API server, the registry
  and the clock answer, a pass writes the status of the CR it fetched at most once, and that write is a step
  of \<open>hibStep\<close> from the fetched phase under the fetched desire; a CR being deleted has its status left
  alone. So a reversed desire never interrupts a hibernate or a wake in flight, only such a transition
  can time out, and a hibernated or waking CR is never demoted to \<open>Pending\<close>.
\<close>

theorem hib_pass_refines:
  "\<exists>es. hist (final (reconcileHib r ns name) s) = es @ hist s \<and>
     (statusWrites es = [] \<or>
      (\<exists>h h'. statusWrites es = [(h, h')] \<and> EvGetHib ns name (Inr h) \<in> set es \<and> hbDeletionTimestamp h = None \<and>
         hibStep (hbDesire h) (hsPhase (hbStatus h)) (hsPhase (hbStatus h'))))"
proof -
  let ?got = "cliGetHib (cli r) (hist s) ns name"
  let ?s = "s\<lparr>hist := EvGetHib ns name ?got # hist s\<rparr>"
  let ?fin = "\<lambda>t. \<exists>es. hist t = es @ hist s \<and>
     (statusWrites es = [] \<or>
      (\<exists>h h'. statusWrites es = [(h, h')] \<and> EvGetHib ns name (Inr h) \<in> set es \<and> hbDeletionTimestamp h = None \<and>
         hibStep (hbDesire h) (hsPhase (hbStatus h)) (hsPhase (hbStatus h'))))"
  have quiet: "?fin t" if "hist t = fs @ EvGetHib ns name ?got # hist s" "statusWrites fs = []" for t :: hibWorld and fs
    using that by (intro exI [of _ "fs @ [EvGetHib ns name ?got]"]) simp
  show "?fin (final (reconcileHib r ns name) s)"
  proof (cases ?got)
    case (Inl e)
    with quiet [of ?s "[]"] have "wp (reconcileHib r ns name) (\<lambda>_ t. ?fin t) s"
      by (simp add: reconcileHib_def wp_simps)
    then show ?thesis by (simp add: wp_result_final)
  next
    case (Inr h)
    let ?t = "?s\<lparr>theHib := h\<rparr>"
    have del: "?fin (final (reconcileHibDelete r) ?t)"
    proof -
      have "emits (\<lambda>e. \<forall>h h' x. e \<noteq> EvPatchHibStatus h h' x) (reconcileHibDelete r)"
        by (intro emits_intros) simp_all
      from emitsD [OF this, of ?t] statusWrites_none obtain fs where
        "hist (final (reconcileHibDelete r) ?t) = fs @ hist ?t" "statusWrites fs = []" by blast
      then show ?thesis by (intro quiet) simp_all
    qed
    have target: "?fin (final (reconcileTarget r) ?t)" if "hbDeletionTimestamp h = None"
    proof -
      have "wrote {q. hibStep (hbDesire h) (hsPhase (hbStatus h)) q} ?t (final (reconcileTarget r) ?t)"
        using writes_reconcileTarget [of h r] by (simp add: writes_def)
      then obtain fs where fs: "hist (final (reconcileTarget r) ?t) = fs @ hist ?t" "statusWrites fs = [] \<or>
          (\<exists>h'. statusWrites fs = [(h, h')] \<and> hibStep (hbDesire h) (hsPhase (hbStatus h)) (hsPhase (hbStatus h')))"
        by (auto simp: wrote_def)
      with that Inr show ?thesis by (intro exI [of _ "fs @ [EvGetHib ns name ?got]"]) auto
    qed
    have "wp (reconcileHib r ns name) (\<lambda>_ t. ?fin t) s"
      unfolding reconcileHib_def getHib_def wp_bind [of "ask _ _"] wp_ask Inr sum.case wp_bind [of "putHB _"] wp_hib_state
      using del target quiet [of _ "[EvUpdateHib _ _]"]
      by (auto simp: wp_simps wp_result_final [of "reconcileHibDelete r"] wp_result_final [of "reconcileTarget r"]
          Inr split_def split: option.split)
    then show ?thesis by (simp add: wp_result_final)
  qed
qed


section \<open>What a pass can do\<close>

fun hibEvent :: "env \<Rightarrow> event \<Rightarrow> bool" where
  "hibEvent r (EvGetHib _ _ _) = True"
| "hibEvent r (EvGetPod _ _ _) = True"
| "hibEvent r (EvListHibs _ _) = True"
| "hibEvent r (EvPatchPod _ _ _) = True"
| "hibEvent r (EvUpdateHib _ _) = True"
| "hibEvent r (EvPatchHibStatus _ _ _) = True"
| "hibEvent r (EvHasManifest _ tag _) = (tag = HibernateSnapshotTag (meta r))"
| "hibEvent r (EvDeleteManifest _ tag _) = (tag = HibernateSnapshotTag (meta r))"
| "hibEvent r (EvNow _) = True"
| "hibEvent r (EvRecord _ _ _) = True"
| "hibEvent r (EvMetric c ls _) = labelled c ls"
| "hibEvent r (EvLock _) = True"
| "hibEvent r (EvUnlock _) = True"
| "hibEvent r _ = False"

lemma transition_hib: "emits (hibEvent r) (transition r vm)"
proof -
  have hibernate: "emits (hibEvent r) (reconcileHibernate r vm)"
    unfolding reconcileHibernate_def checkHibernate_def confirmHibernate_def awaitHibernate_def
    by (intro emits_intros) simp_all
  have wake: "emits (hibEvent r) (reconcileHibWake r vm)"
    unfolding reconcileHibWake_def startHibWake_def checkHibWake_def finishHibWake_def markActive_def dropWokenTag_def
      awaitHibWake_def
    by (intro emits_intros) simp_all
  have failed: "emits (hibEvent r) (markFailed r msg)" for msg by (intro emits_intros) simp_all
  show ?thesis unfolding transition_def
    by (intro emits_intros) (auto split: desire.split intro!: hibernate wake emits_bind [OF failed emits_return])
qed

lemma reconcileHib_hib: "emits (hibEvent r) (reconcileHib r ns name)"
  unfolding reconcileHib_def reconcileTarget_def withVMLock_def getHib_def getPod_def updateHib_def
  by (intro emits_intros transition_hib) simp_all

end
