(* ===== verification/HibEvidence.thy ===== *)
theory HibEvidence
  imports HibSafety
begin

text \<open>
  The evidence behind the effects of a hibernation pass: when \<open>Hibernated\<close> is written, when a
  \<open>:hibernate\<close> tag is dropped, and that an announcement is made once per transition.
\<close>


section \<open>The target pod\<close>

text \<open>Only the annotation patch replaces the pod in hand.\<close>

definition podStill :: "'a hibIO \<Rightarrow> bool" where
  "podStill m \<longleftrightarrow> (\<forall>s. hibPod (final m s) = hibPod s)"

lemma podStillI: "(\<And>s. wp m (\<lambda>_ t. hibPod t = hibPod s) s) \<Longrightarrow> podStill m"
  by (simp add: podStill_def wp_result_final)

lemma podStill_calls:
  "podStill (phaseDeadlineExceeded r phase timeout)" "podStill (announcePhaseExit r res eventType reason msg)"
  "podStill (HasHibernateSnapshot r vm)" "podStill (DeleteManifestIfPresent r vm tag)" "podStill thePod" "podStill theHB"
  "podStill (setPhase r phase vm)" "podStill (patchNotReady r phase reason msg)"
  by (rule podStillI;
      auto simp: phaseDeadlineExceeded_def announcePhaseExit_def firstTransitionAt_def observePhaseExit_def
        setPhase_def refreshReady_def patchNotReady_def wp_simps Let_def
        split: option.split sum.split bool.split prod.split hibPhase.split)+

lemma podStill_bind: "podStill m \<Longrightarrow> (\<And>a. podStill (f a)) \<Longrightarrow> podStill (m \<bind> f)"
  by (simp add: podStill_def final_bind)

lemma podStill_cases:
  "podStill (State_Monad.return a)"
  "podStill m \<Longrightarrow> podStill n \<Longrightarrow> podStill (if b then m else n)"
  "podStill m \<Longrightarrow> (\<And>a. podStill (f a)) \<Longrightarrow> podStill (case x of None \<Rightarrow> m | Some a \<Rightarrow> f a)"
  "(\<And>e. podStill (k e)) \<Longrightarrow> (\<And>a. podStill (g a)) \<Longrightarrow> podStill (case y of Inl e \<Rightarrow> k e | Inr a \<Rightarrow> g a)"
  by (simp_all add: podStill_def split: option.split sum.split)

lemmas podStill_rules = podStill_calls podStill_bind podStill_cases

lemma podStill_handlers:
  "podStill (awaitHibernate r vm)" "podStill (awaitHibWake r vm)" "podStill (finishHibWake r vm settled)"
  unfolding awaitHibernate_def awaitHibWake_def finishHibWake_def markActive_def dropWokenTag_def markFailed_def by (intro podStill_rules)+

lemma podStill_confirm: "podStill (confirmHibernate r vm)"
  unfolding confirmHibernate_def by (intro podStill_rules podStill_handlers)


section \<open>Hibernated\<close>

text \<open>Only the write of \<open>Hibernated\<close> needs evidence: a probe of this VM's tag that saw it.\<close>

definition hibOk :: "env \<Rightarrow> string \<Rightarrow> history \<Rightarrow> event \<Rightarrow> bool" where
  "hibOk r vm pre e \<longleftrightarrow> (\<forall>h h' x. e = EvPatchHibStatus h h' x \<longrightarrow> hsPhase (hbStatus h') = HPHibernated \<longrightarrow>
     hsVMName (hbStatus h') = vm \<and> EvHasManifest vm (HibernateSnapshotTag (meta r)) (Inr True) \<in> set pre)"

interpretation hibernated: local_evidence "hibOk r vm" for r vm
  by unfold_locales (auto simp: hibOk_def)

fun marksHibernated :: "event \<Rightarrow> bool" where
  "marksHibernated (EvPatchHibStatus h h' x) = (hsPhase (hbStatus h') = HPHibernated)"
| "marksHibernated _ = False"

lemma hibOk_unmarked: "\<not> marksHibernated e \<Longrightarrow> hibOk r vm pre e"
  by (auto simp: hibOk_def)

lemma quiet_handlers:
  "emits (\<lambda>e. \<not> marksHibernated e) (awaitHibernate r vm)"
  "emits (\<lambda>e. \<not> marksHibernated e) (reconcileHibWake r vm)"
  "emits (\<lambda>e. \<not> marksHibernated e) (markFailed r msg)"
  unfolding awaitHibernate_def reconcileHibWake_def startHibWake_def checkHibWake_def finishHibWake_def awaitHibWake_def markActive_def dropWokenTag_def
  by (intro emits_intros; simp)+

lemma confirm_keeps: "keeps (hibOk r vm) (confirmHibernate r vm)"
proof -
  let ?ev = "\<lambda>s. EvHasManifest vm (HibernateSnapshotTag (meta r)) (regHasManifest (registry r) (hist s) vm (HibernateSnapshotTag (meta r)))"
  have probe: "result (HasHibernateSnapshot r vm) s = (case regHasManifest (registry r) (hist s) vm (HibernateSnapshotTag (meta r)) of
        Inl err \<Rightarrow> Inl (ErrWrap (''probe hibernate snapshot '' @ vm) err) | Inr present \<Rightarrow> Inr present) \<and>
      hist (final (HasHibernateSnapshot r vm) s) = ?ev s # hist s" for s :: hibWorld
  proof -
    have "wp (HasHibernateSnapshot r vm) (\<lambda>got t. got = (case regHasManifest (registry r) (hist s) vm (HibernateSnapshotTag (meta r)) of
        Inl err \<Rightarrow> Inl (ErrWrap (''probe hibernate snapshot '' @ vm) err) | Inr present \<Rightarrow> Inr present) \<and>
      hist t = ?ev s # hist s) s" by (simp add: wp_simps Let_def split: sum.split)
    then show ?thesis by (simp add: wp_result_final)
  qed
  have await: "emits (hibOk r vm pre) (awaitHibernate r vm)" for pre
    by (rule emits_mono [OF quiet_handlers(1)]) (rule hibOk_unmarked)
  show ?thesis
    unfolding confirmHibernate_def
  proof (rule hibernated.keeps_call, rule exI, intro conjI)
    fix s :: hibWorld and fs
    show "hist (final (HasHibernateSnapshot r vm) s) = ?ev s # hist s" by (rule conjunct2 [OF probe])
    show "hibOk r vm fs (?ev s)" by (simp add: hibOk_def)
  qed (auto simp: probe hibOk_def split: sum.split intro!: emits_intros await)
qed

lemma hibernate_keeps: "keeps (hibOk r vm) (reconcileHibernate r vm)"
proof -
  have await: "keeps (hibOk r vm) (awaitHibernate r vm)"
    by (rule hibernated.keeps_emits [OF emits_mono [OF quiet_handlers(1)]]) (rule hibOk_unmarked)
  have pod: "keeps (hibOk r vm) thePod" by (intro hibernated.keeps_emits emits_intros)
  have pre: "keeps (hibOk r vm) (announceRetryFromFailed r d)" "keeps (hibOk r vm) (patchHibernate r st)" for d st
    by (intro hibernated.keeps_emits emits_intros; simp add: hibOk_def)+
  show ?thesis unfolding reconcileHibernate_def checkHibernate_def
    by (intro keeps_bind [OF pre(1)] keeps_bind [OF pre(2)] keeps_bind [OF pod] keeps_cases confirm_keeps await)
qed

text \<open>And the pod carries vk-cocoon's signal when \<open>Hibernated\<close> is written.\<close>

lemma hibernate_signal:
  "wp (reconcileHibernate r vm) (\<lambda>_ t. hibernatedSignal (meta r) (hibPod t) \<or>
     (\<exists>es. hist t = es @ hist s \<and> list_all (\<lambda>e. \<not> marksHibernated e) es)) s"
proof -
  let ?Q = "\<lambda>_ t. hibernatedSignal (meta r) (hibPod t) \<or> (\<exists>es. hist t = es @ hist s \<and> list_all (\<lambda>e. \<not> marksHibernated e) es)"
  have confirm: "wp (confirmHibernate r vm) ?Q t" if "hibernatedSignal (meta r) (hibPod t)" for t
    using that podStill_confirm [of r vm] by (simp add: podStill_def wp_result_final)
  have await: "wp (awaitHibernate r vm) ?Q t"
    if "hist t = fs @ hist s" "list_all (\<lambda>e. \<not> marksHibernated e) fs" for t fs
    by (rule wp_mono [OF emits_after [OF quiet_handlers(1) that]]) blast
  have pre: "emits (\<lambda>e. \<not> marksHibernated e) (announceRetryFromFailed r DesireHibernate)"
    "emits (\<lambda>e. \<not> marksHibernated e) (patchHibernate r True)"
    by (intro emits_intros; simp)+
  show ?thesis
    unfolding reconcileHibernate_def wp_bind
  proof (rule wp_mono [OF emits_wp [OF pre(1)]], elim exE conjE)
    fix t :: hibWorld and fs
    assume "hist t = fs @ hist s" "list_all (\<lambda>e. \<not> marksHibernated e) fs"
    from emits_after [OF pre(2) this]
    show "wp (patchHibernate r True) (\<lambda>err. wp (case err of None \<Rightarrow> checkHibernate r vm
        | Some e \<Rightarrow> State_Monad.return (noRequeue, Some (ErrWrap ''patch hibernate annotation'' e))) ?Q) t"
      by (rule wp_mono) (auto simp: checkHibernate_def wp_bind wp_hib_state wp_if wp_return intro: confirm await split: option.split)
  qed
qed

lemma transition_keeps: "keeps (hibOk r vm) (transition r vm)"
proof -
  have quiet: "keeps (hibOk r vm) m" if "emits (\<lambda>e. \<not> marksHibernated e) m" for m :: "'a hibIO"
    by (rule hibernated.keeps_emits [OF emits_mono [OF that]]) (rule hibOk_unmarked)
  have "keeps (hibOk r vm) theHB" by (intro hibernated.keeps_emits emits_intros)
  then show ?thesis unfolding transition_def
    by (rule keeps_bind) (auto split: desire.split
        intro!: keeps_cases(1) hibernate_keeps quiet quiet_handlers emits_bind [OF quiet_handlers(3) emits_return])
qed

lemma transition_signal:
  "wp (transition r vm) (\<lambda>_ t. hibernatedSignal (meta r) (hibPod t) \<or>
     (\<exists>es. hist t = es @ hist s \<and> list_all (\<lambda>e. \<not> marksHibernated e) es)) s"
proof -
  have quiet: "wp m (\<lambda>_ t. hibernatedSignal (meta r) (hibPod t) \<or>
     (\<exists>es. hist t = es @ hist s \<and> list_all (\<lambda>e. \<not> marksHibernated e) es)) s"
    if "emits (\<lambda>e. \<not> marksHibernated e) m" for m :: "hibOutcome hibIO"
    by (rule wp_mono [OF emits_wp [OF that]]) blast
  show ?thesis unfolding transition_def wp_bind [of theHB] wp_hib_state
    by (auto simp: hibernate_signal split: desire.split intro!: quiet quiet_handlers emits_bind [OF quiet_handlers(3) emits_return])
qed

text \<open>
  C7: \<open>Hibernated\<close> is the truth. Under the VM's lock, a pass writes phase \<open>Hibernated\<close> only for this
  VM, only after a probe in the same pass saw its \<open>:hibernate\<close> tag in the registry, and only while the
  pod it holds carries vk-cocoon's completion signal for the pod's own generation: neither a stale tag of an
  earlier cycle nor a stale signal is enough.
\<close>

theorem hibernated_evidence:
  "\<exists>es. hist (final (transition r vm) s) = es @ hist s \<and>
     (\<forall>post h h' x pre. es = post @ EvPatchHibStatus h h' x # pre \<longrightarrow> hsPhase (hbStatus h') = HPHibernated \<longrightarrow>
        hsVMName (hbStatus h') = vm \<and> EvHasManifest vm (HibernateSnapshotTag (meta r)) (Inr True) \<in> set pre \<and>
        hibernatedSignal (meta r) (hibPod (final (transition r vm) s)))"
proof -
  let ?t = "final (transition r vm) s"
  obtain es where es: "hist ?t = es @ hist s" "guarded (hibOk r vm) es"
    using keepsD [OF transition_keeps] by blast
  have "hibernatedSignal (meta r) (hibPod ?t)" if "list_ex marksHibernated es"
    using transition_signal [of r vm s] that es(1) by (auto simp: wp_result_final list_ex_iff list_all_iff)
  with es show ?thesis by (intro exI [of _ es]) (auto simp: guarded_iff hibOk_def)
qed


section \<open>Dropping the tag after a wake\<close>

definition settledWake :: "cocoonHibernation \<Rightarrow> bool" where
  "settledWake h \<longleftrightarrow> hsPhase (hbStatus h) = HPActive \<and> hsObservedGeneration (hbStatus h) = hbGeneration h"

definition dropOk :: "env \<Rightarrow> cocoonHibernation \<Rightarrow> string \<Rightarrow> history \<Rightarrow> event \<Rightarrow> bool" where
  "dropOk r h vm pre e \<longleftrightarrow> (\<forall>n u x. e = EvDeleteManifest n u x \<longrightarrow>
     n = vm \<and> u = HibernateSnapshotTag (meta r) \<and> EvHasManifest n u (Inr True) \<in> set pre \<and>
     (settledWake h \<or> (\<exists>h'. EvPatchHibStatus h h' None \<in> set pre \<and> hsPhase (hbStatus h') = HPActive)))"

interpretation dropped: local_evidence "dropOk r h vm" for r h vm
  by unfold_locales (simp_all add: dropOk_def, blast+)

fun dropsHibTag :: "event \<Rightarrow> bool" where
  "dropsHibTag (EvDeleteManifest _ _ _) = True"
| "dropsHibTag _ = False"

lemma dropOk_other: "\<not> dropsHibTag e \<Longrightarrow> dropOk r h vm pre e"
  by (auto simp: dropOk_def)

lemma setPhase_written:
  assumes "hsPhase (hbStatus (theHib s)) \<noteq> phase \<or> hsObservedGeneration (hbStatus (theHib s)) \<noteq> hbGeneration (theHib s)"
  shows "wp (setPhase r phase vm) (\<lambda>err t. \<exists>es. hist t = es @ hist s \<and> list_all (\<lambda>e. \<not> dropsHibTag e) es \<and>
    (err = None \<longrightarrow> (\<exists>h'. EvPatchHibStatus (theHib s) h' None \<in> set es \<and> hsPhase (hbStatus h') = phase))) s"
  using assms
  by (auto simp: setPhase_def refreshReady_def wp_simps Let_def split_def split: option.split)

lemma drop_emits: "emits (\<lambda>e. \<not> dropsHibTag e) (announcePhaseExit r a b c d)"
  by (intro emits_intros) simp_all

lemma markActive_written:
  assumes "\<not> settledWake (theHib s)"
  shows "wp (markActive r vm) (\<lambda>err t. \<exists>es. hist t = es @ hist s \<and> list_all (\<lambda>e. \<not> dropsHibTag e) es \<and>
    (err = None \<longrightarrow> (\<exists>h'. EvPatchHibStatus (theHib s) h' None \<in> set es \<and> hsPhase (hbStatus h') = HPActive))) s"
proof -
  let ?Q = "\<lambda>err t. \<exists>es. hist t = es @ hist s \<and> list_all (\<lambda>e. \<not> dropsHibTag e) es \<and>
    (err = None \<longrightarrow> (\<exists>h'. EvPatchHibStatus (theHib s) h' None \<in> set es \<and> hsPhase (hbStatus h') = HPActive))"
  have "wp (announcePhaseExit r a b c d) (\<lambda>_. wp (setPhase r HPActive vm) ?Q) s" for a b c d
  proof -
    have same: "wp (announcePhaseExit r a b c d) (\<lambda>_ t. theHib t = theHib s) s"
      using still_calls(2) [of r a b c d] by (simp add: still_def wp_result_final)
    show ?thesis
    proof (rule wp_mono [OF wp_conj [OF same emits_wp [OF drop_emits]]], elim conjE exE)
      fix t :: hibWorld and fs
      assume t: "theHib t = theHib s" "hist t = fs @ hist s" "list_all (\<lambda>e. \<not> dropsHibTag e) fs"
      with assms have "hsPhase (hbStatus (theHib t)) \<noteq> HPActive \<or>
          hsObservedGeneration (hbStatus (theHib t)) \<noteq> hbGeneration (theHib t)" by (simp add: settledWake_def)
      from setPhase_written [OF this] show "wp (setPhase r HPActive vm) ?Q t"
      proof (rule wp_mono, elim exE conjE)
        fix err :: "gerr option" and u :: hibWorld and es
        assume "hist u = es @ hist t" "list_all (\<lambda>e. \<not> dropsHibTag e) es"
          "err = None \<longrightarrow> (\<exists>h'. EvPatchHibStatus (theHib t) h' None \<in> set es \<and> hsPhase (hbStatus h') = HPActive)"
        with t show "?Q err u" by (intro exI [of _ "es @ fs"]) auto
      qed
    qed
  qed
  then show ?thesis by (simp add: markActive_def wp_bind wp_hib_state)
qed

lemma drop_probed:
  assumes "hist t = fs @ hist s" and "list_all (\<lambda>e. \<not> dropsHibTag e) fs"
    and "settledWake h \<or> (\<exists>h'. EvPatchHibStatus h h' None \<in> set fs \<and> hsPhase (hbStatus h') = HPActive)"
  shows "wp (dropWokenTag r vm) (\<lambda>_ u. \<exists>es. hist u = es @ hist s \<and> guarded (dropOk r h vm) es) t"
proof -
  let ?tag = "HibernateSnapshotTag (meta r)"
  have fs: "guarded (dropOk r h vm) fs"
    using assms(2) by (intro dropped.guarded_start) (auto simp: list_all_iff dropOk_other)
  have "guarded (dropOk r h vm) (EvHasManifest vm ?tag a # fs)" for a
    using fs by (simp add: dropOk_other)
  moreover have "guarded (dropOk r h vm) (EvDeleteManifest vm ?tag x # EvHasManifest vm ?tag (Inr True) # fs)" for x
    using fs assms(3) by (auto simp: dropOk_def)
  ultimately show ?thesis
    using assms(1)
    by (auto simp: dropWokenTag_def wp_simps Let_def split: sum.split bool.split
        intro: exI [of _ "_ # fs"] exI [of _ "_ # _ # fs"])
qed

lemma finish_drops:
  assumes "settled = settledWake (theHib s)"
  shows "wp (finishHibWake r vm settled) (\<lambda>_ t. \<exists>es. hist t = es @ hist s \<and> guarded (dropOk r (theHib s) vm) es) s"
proof (cases settled)
  case True
  with assms drop_probed [of s "[]" s "theHib s" r vm] show ?thesis
    by (simp add: finishHibWake_def wp_simps)
next
  case False
  with assms have "\<not> settledWake (theHib s)" by simp
  then have "wp (markActive r vm) (\<lambda>err. wp (case err of Some e \<Rightarrow> State_Monad.return (noRequeue, Some e)
     | None \<Rightarrow> dropWokenTag r vm) (\<lambda>_ t. \<exists>es. hist t = es @ hist s \<and> guarded (dropOk r (theHib s) vm) es)) s"
  proof (rule wp_mono [OF markActive_written], elim exE conjE)
    fix err :: "gerr option" and t :: hibWorld and fs
    assume t: "hist t = fs @ hist s" "list_all (\<lambda>e. \<not> dropsHibTag e) fs"
      "err = None \<longrightarrow> (\<exists>h'. EvPatchHibStatus (theHib s) h' None \<in> set fs \<and> hsPhase (hbStatus h') = HPActive)"
    have "guarded (dropOk r (theHib s) vm) fs"
      using t(2) by (intro dropped.guarded_start) (auto simp: list_all_iff dropOk_other)
    with t drop_probed [OF t(1,2), of "theHib s" r vm]
    show "wp (case err of Some e \<Rightarrow> State_Monad.return (noRequeue, Some e) | None \<Rightarrow> dropWokenTag r vm)
        (\<lambda>_ t. \<exists>es. hist t = es @ hist s \<and> guarded (dropOk r (theHib s) vm) es) t"
      by (cases err) (auto simp: wp_return)
  qed
  with False show ?thesis by (simp add: finishHibWake_def wp_bind)
qed

text \<open>A tag is dropped only while the pod in hand shows a live VM.\<close>

definition dropsLive :: "env \<Rightarrow> cocoonHibernation \<Rightarrow> string \<Rightarrow> history \<Rightarrow> hibWorld \<Rightarrow> bool" where
  "dropsLive r h vm base t \<longleftrightarrow> (\<exists>es. hist t = es @ base \<and> guarded (dropOk r h vm) es \<and>
     (list_ex dropsHibTag es \<longrightarrow> VMLive (meta r) (hibPod t)))"

lemma dropsLive_quiet:
  assumes "hist t = fs @ base" and "list_all (\<lambda>e. \<not> dropsHibTag e) fs"
  shows "dropsLive r h vm base t"
  unfolding dropsLive_def using assms
  by (intro exI [of _ fs] conjI dropped.guarded_start) (auto simp: list_all_iff list_ex_iff dropOk_other)

lemma checkHibWake_drops:
  assumes t: "hist t = fs @ base" "list_all (\<lambda>e. \<not> dropsHibTag e) fs" and settled: "settled = settledWake (theHib t)"
  shows "wp (checkHibWake r vm settled) (\<lambda>_. dropsLive r (theHib t) vm base) t"
proof -
  have fs: "guarded (dropOk r (theHib t) vm) fs"
    using t(2) by (auto intro!: dropped.guarded_start simp: list_all_iff dropOk_other)
  have "wp (finishHibWake r vm settled) (\<lambda>_ u. (\<exists>es. hist u = es @ hist t \<and> guarded (dropOk r (theHib t) vm) es) \<and>
      hibPod u = hibPod t) t"
    using podStill_handlers(3) by (intro wp_conj finish_drops settled) (simp add: podStill_def wp_result_final)
  from dropped.wp_continue [OF this t(1) fs]
  have live: "wp (finishHibWake r vm settled) (\<lambda>_. dropsLive r (theHib t) vm base) t" if "VMLive (meta r) (hibPod t)"
    by (rule wp_mono) (use that in \<open>auto simp: dropsLive_def\<close>)
  have "emits (\<lambda>e. \<not> dropsHibTag e) (awaitHibWake r vm)"
    unfolding awaitHibWake_def by (intro emits_intros) simp_all
  from emits_after [OF this t] have "wp (awaitHibWake r vm) (\<lambda>_. dropsLive r (theHib t) vm base) t"
    by (rule wp_mono) (auto intro: dropsLive_quiet)
  with live dropsLive_quiet [OF t] show ?thesis
    by (simp add: checkHibWake_def wp_bind wp_hib_state wp_if wp_return)
qed

lemma wake_drops: "wp (reconcileHibWake r vm) (\<lambda>_. dropsLive r (theHib s) vm (hist s)) s"
proof -
  let ?settled = "settledWake (theHib s)"
  have start: "wp (startHibWake r ?settled) (\<lambda>_ t. theHib t = theHib s \<and>
      (\<exists>fs. hist t = fs @ hist s \<and> list_all (\<lambda>e. \<not> dropsHibTag e) fs)) s"
  proof (rule wp_conj)
    have "still (startHibWake r ?settled)" unfolding startHibWake_def by (intro still_rules)
    then show "wp (startHibWake r ?settled) (\<lambda>_ t. theHib t = theHib s) s" by (simp add: still_def wp_result_final)
    have "emits (\<lambda>e. \<not> dropsHibTag e) (startHibWake r ?settled)"
      unfolding startHibWake_def by (intro emits_intros) simp_all
    then show "wp (startHibWake r ?settled) (\<lambda>_ t. \<exists>fs. hist t = fs @ hist s \<and> list_all (\<lambda>e. \<not> dropsHibTag e) fs) s"
      by (rule emits_wp)
  qed
  have "wp (startHibWake r ?settled) (\<lambda>err. wp (case err of
         Some e \<Rightarrow> State_Monad.return (noRequeue, Some (ErrWrap ''clear hibernate annotation'' e))
       | None \<Rightarrow> checkHibWake r vm ?settled) (\<lambda>_. dropsLive r (theHib s) vm (hist s))) s"
    using start
  proof (rule wp_mono, elim conjE exE)
    fix err :: "gerr option" and t :: hibWorld and fs
    assume t: "theHib t = theHib s" "hist t = fs @ hist s" "list_all (\<lambda>e. \<not> dropsHibTag e) fs"
    with checkHibWake_drops [OF t(2,3), of ?settled r vm] dropsLive_quiet [OF t(2,3)]
    show "wp (case err of
         Some e \<Rightarrow> State_Monad.return (noRequeue, Some (ErrWrap ''clear hibernate annotation'' e))
       | None \<Rightarrow> checkHibWake r vm ?settled) (\<lambda>_. dropsLive r (theHib s) vm (hist s)) t"
      by (simp add: wp_return split: option.split)
  qed
  moreover have "dropsLive r (theHib s) vm (hist s) s" by (rule dropsLive_quiet [of s "[]"]) simp_all
  ultimately show ?thesis
    by (simp add: reconcileHibWake_def settledWake_def [symmetric] wp_bind wp_hib_state wp_if wp_return Let_def)
qed

lemma hibernate_drops_nothing: "emits (\<lambda>e. \<not> dropsHibTag e) (reconcileHibernate r vm)"
  unfolding reconcileHibernate_def checkHibernate_def confirmHibernate_def awaitHibernate_def
  by (intro emits_intros) simp_all



section \<open>The last holder\<close>

definition lastOk :: "env \<Rightarrow> cocoonHibernation \<Rightarrow> history \<Rightarrow> event \<Rightarrow> bool" where
  "lastOk r h pre e \<longleftrightarrow>
     (\<forall>n u x. e = EvDeleteManifest n u x \<longrightarrow> n = hsVMName (hbStatus h) \<and> u = HibernateSnapshotTag (meta r) \<and>
        (\<exists>items. EvListHibs (hbNamespace h) (Inr items) \<in> set pre \<and> \<not> list_ex (holdsSameVM h) items)) \<and>
     (\<forall>h' x. e = EvUpdateHib h' x \<longrightarrow> hsVMName (hbStatus h) \<noteq> [] \<longrightarrow>
        (\<exists>items. EvListHibs (hbNamespace h) (Inr items) \<in> set pre))"

interpretation lastHolder: local_evidence "lastOk r h" for r h
  by unfold_locales (simp_all add: lastOk_def, blast+)

lemma releaseHib_emits: "(\<And>h' x. K (EvUpdateHib h' x)) \<Longrightarrow> emits K (releaseHib r)"
  unfolding releaseHib_def updateHib_def by (intro emits_intros) simp_all

lemma held_keeps: "keeps (lastOk r h) (deleteOwnedVM r h)"
  unfolding deleteOwnedVM_def
proof (rule lastHolder.keeps_call, rule exI, intro conjI)
  fix s :: hibWorld and fs
  let ?a = "cliListHibs (cli r) (hist s) (hbNamespace h)"
  have call: "result (vmHeldByAnotherCR r h) s = (case ?a of
        Inl err \<Rightarrow> Inl (ErrWrap (''list cocoonhibernations in '' @ hbNamespace h) err)
      | Inr items \<Rightarrow> Inr (list_ex (holdsSameVM h) items)) \<and>
      hist (final (vmHeldByAnotherCR r h) s) = EvListHibs (hbNamespace h) ?a # hist s"
  proof -
    have "wp (vmHeldByAnotherCR r h) (\<lambda>got t. got = (case ?a of
        Inl err \<Rightarrow> Inl (ErrWrap (''list cocoonhibernations in '' @ hbNamespace h) err)
      | Inr items \<Rightarrow> Inr (list_ex (holdsSameVM h) items)) \<and> hist t = EvListHibs (hbNamespace h) ?a # hist s) s"
      by (simp add: vmHeldByAnotherCR_def wp_simps split: sum.split)
    then show ?thesis by (simp add: wp_result_final)
  qed
  then show "hist (final (vmHeldByAnotherCR r h) s) = EvListHibs (hbNamespace h) ?a # hist s" ..
  show "lastOk r h fs (EvListHibs (hbNamespace h) ?a)" by (simp add: lastOk_def)
  show "emits (lastOk r h (EvListHibs (hbNamespace h) ?a # fs)) (case result (vmHeldByAnotherCR r h) s of
       Inl err \<Rightarrow> State_Monad.return (Some err)
     | Inr held \<Rightarrow> do {
         _ \<leftarrow> (if held then State_Monad.return None
              else DeleteManifestIfPresent r (hsVMName (hbStatus h)) (HibernateSnapshotTag (meta r)));
         releaseHib r
       })"
    using call by (cases ?a) (auto intro!: emits_intros releaseHib_emits simp: lastOk_def)
qed

lemma reconcileHibDelete_keeps:
  "\<exists>es. hist (final (reconcileHibDelete r) s) = es @ hist s \<and> guarded (lastOk r (theHib s)) es"
proof (cases "hsVMName (hbStatus (theHib s)) = []")
  case True
  then have "keeps (lastOk r (theHib s)) (releaseHib r)"
    by (intro lastHolder.keeps_emits releaseHib_emits) (simp add: lastOk_def)
  with True show ?thesis using keepsD by (fastforce simp: reconcileHibDelete_def final_theHB)
next
  case False
  let ?h = "theHib s"
  have "keeps (lastOk r ?h) (emit (EvLock k))" "keeps (lastOk r ?h) (emit (EvUnlock k))" for k
    by (intro lastHolder.keeps_emits emits_intros; simp add: lastOk_def)+
  then have "keeps (lastOk r ?h) (withVMLock r vm m)" if "keeps (lastOk r ?h) m" for vm and m :: "gerr option hibIO"
    unfolding withVMLock_def using that by (intro keeps_bind keeps_cases(5))
  from keepsD [OF this [OF held_keeps]] False show ?thesis
    by (simp add: reconcileHibDelete_def final_theHB)
qed

text \<open>
  C17: deleting a CR keeps a shared snapshot. When a CocoonHibernation is deleted, its VM's \<open>:hibernate\<close> tag
  is deleted only after the CRs of the namespace were listed and none but this one, live and of another identity,
  tracks the same VM or names the same pod; and the finalizer of a CR that owns a VM goes only after that listing
  succeeded, so a failed listing is retried.
\<close>

theorem last_holder_deletes:
  "\<exists>es. hist (final (reconcileHibDelete r) s) = es @ hist s \<and>
     (\<forall>post n u x pre. es = post @ EvDeleteManifest n u x # pre \<longrightarrow>
        n = hsVMName (hbStatus (theHib s)) \<and> u = HibernateSnapshotTag (meta r) \<and>
        (\<exists>items. EvListHibs (hbNamespace (theHib s)) (Inr items) \<in> set pre \<and>
           (\<forall>other\<in>set items. hbUID other \<noteq> hbUID (theHib s) \<longrightarrow> hbDeletionTimestamp other = None \<longrightarrow>
              hsVMName (hbStatus other) \<noteq> n \<and> hbPodRef other \<noteq> hbPodRef (theHib s)))) \<and>
     (\<forall>post h x pre. es = post @ EvUpdateHib h x # pre \<longrightarrow> hsVMName (hbStatus (theHib s)) \<noteq> [] \<longrightarrow>
        (\<exists>items. EvListHibs (hbNamespace (theHib s)) (Inr items) \<in> set pre))"
proof -
  obtain es where es: "hist (final (reconcileHibDelete r) s) = es @ hist s" "guarded (lastOk r (theHib s)) es"
    using reconcileHibDelete_keeps by blast
  then show ?thesis
    by (intro exI [of _ es]) (fastforce simp: guarded_iff lastOk_def holdsSameVM_def list_ex_iff)
qed


section \<open>Announcements\<close>

text \<open>
  C36: a transition is announced once. Once a phase exit was announced for a CR whose Ready condition is at
  instant \<open>at\<close>, announcing again for the same CR at the same or an older instant does nothing at all, however
  many passes and other CRs came between: a pass that reads a stale copy of the CR from the cache neither
  repeats the event nor observes the histogram twice.
\<close>

theorem announce_once:
  assumes "readySince (kube r) (theHib s) = Some at"
    and "map_of (observed u) (hbUID (theHib s)) =
      map_of (observed (final (announcePhaseExit r res ty reason msg) s)) (hbUID (theHib s))"
    and "hbUID (theHib u) = hbUID (theHib s)" and "readySince (kube r) (theHib u) = Some at'" and "at' \<le> at"
  shows "run_state (announcePhaseExit r res' ty' reason' msg') u = ((), u)"
proof -
  let ?uid = "hbUID (theHib s)"
  have "wp (announcePhaseExit r res ty reason msg) (\<lambda>_ t. \<exists>got. map_of (observed t) ?uid = Some got \<and> at \<le> got) s"
    using assms(1)
    by (auto simp: announcePhaseExit_def firstTransitionAt_def observePhaseExit_def wp_simps Let_def update_conv
        split: option.split hibPhase.split)
  then obtain got where "map_of (observed u) ?uid = Some got" "at \<le> got"
    using assms(2) by (auto simp: wp_result_final)
  with assms(3-5) have "wp (announcePhaseExit r res' ty' reason' msg') (\<lambda>a t. t = u) u"
    by (simp add: announcePhaseExit_def firstTransitionAt_def wp_simps Let_def)
  then show ?thesis by (simp add: wp_def split: prod.splits)
qed


section \<open>Concrete passes\<close>

definition demoHib :: "desire \<Rightarrow> hibPhase \<Rightarrow> cocoonHibernation" where
  "demoHib d p = \<lparr>hbName = ''h'', hbNamespace = ''ns'', hbUID = ''u2'', hbGeneration = 1,
     hbDeletionTimestamp = None, hbFinalizers = [hibFinalizerName], hbPodRef = ''s-0'', hbDesire = d,
     hbStatus = \<lparr>hsObservedGeneration = 1, hsPhase = p, hsVMName = ''vk-ns-s-0'', hsConditions =
       [\<lparr>cdType = ''Ready'', cdStatus = ''False'', cdReason = ''Pending'', cdMessage = [], cdObservedGeneration = 1,
         cdLastTransition = Some 0\<rparr>]\<rparr>\<rparr>"

definition demoTarget :: "string \<Rightarrow> string \<Rightarrow> pod" where
  "demoTarget hib vmid = demoPod ''s-0'' ''main'' ''0'' ''n1'' [(''vm'', ''vk-ns-s-0''), (''managed'', ''true''),
     (''hibernate'', hib), (''state'', ''hibernated''), (''observed'', ''3''), (''generation'', ''3''), (''vmid'', vmid)]"

definition demoHibWorld :: "cocoonHibernation \<Rightarrow> pod \<Rightarrow> hibWorld" where
  "demoHibWorld h p = \<lparr>hist = [], theHib = h, hibPod = p, observed = []\<rparr>"

definition demoHibEnv :: env where
  "demoHibEnv = demoEnv [] [] [((''vk-ns-s-0'', ''hibernate''), ''img:1'')] 5"

fun indexOf :: "(event \<Rightarrow> bool) \<Rightarrow> history \<Rightarrow> nat option" where
  "indexOf P [] = None"
| "indexOf P (e # es) = (if P e then Some 0 else map_option Suc (indexOf P es))"

lemma indexOf_split: "indexOf P es = Some k \<Longrightarrow> es = take k es @ es ! k # drop (Suc k) es \<and> P (es ! k)"
  by (induction es arbitrary: k) (auto split: if_splits)

lemma demo_hibernated:
  "indexOf marksHibernated (hist (final (transition demoHibEnv ''vk-ns-s-0'')
     (demoHibWorld (demoHib DesireHibernate HPHibernating) (demoTarget ''true'' [])))) = Some 0"
  by code_simp

lemma demo_woken:
  "indexOf dropsHibTag (hist (final (transition demoHibEnv ''vk-ns-s-0'')
     (demoHibWorld (demoHib DesireWake HPWaking) (demoTarget ''false'' ''id'')))) = Some 0"
  by code_simp

lemma demo_last:
  "indexOf dropsHibTag (hist (final (reconcileHibDelete demoHibEnv)
     (demoHibWorld (demoHib DesireWake HPHibernated) (demoTarget ''true'' [])))) = Some 2"
  by code_simp

theorem hibernated_evidence_witness:
  "\<exists>t. hibernatedSignal demoMeta (hibPod (t :: hibWorld)) \<and>
     (\<exists>e pre. hist t = e # pre \<and> marksHibernated e \<and> EvHasManifest ''vk-ns-s-0'' ''hibernate'' (Inr True) \<in> set pre)"
proof -
  let ?s = "demoHibWorld (demoHib DesireHibernate HPHibernating) (demoTarget ''true'' [])"
  let ?t = "final (transition demoHibEnv ''vk-ns-s-0'') ?s"
  obtain es where es: "hist ?t = es @ hist ?s" "\<forall>post h h' x pre. es = post @ EvPatchHibStatus h h' x # pre \<longrightarrow>
      hsPhase (hbStatus h') = HPHibernated \<longrightarrow> hsVMName (hbStatus h') = ''vk-ns-s-0'' \<and>
      EvHasManifest ''vk-ns-s-0'' (HibernateSnapshotTag (meta demoHibEnv)) (Inr True) \<in> set pre \<and>
      hibernatedSignal (meta demoHibEnv) (hibPod ?t)"
    using hibernated_evidence [of demoHibEnv "''vk-ns-s-0''" ?s] by blast
  obtain e pre where e: "es = e # pre" "marksHibernated e"
    using indexOf_split [OF demo_hibernated] es(1) by (auto simp: demoHibWorld_def)
  then obtain h h' x where "e = EvPatchHibStatus h h' x" "hsPhase (hbStatus h') = HPHibernated"
    by (cases e rule: marksHibernated.cases) auto
  with es(2) [rule_format, of "[]"] e es(1) show ?thesis
    by (intro exI [of _ ?t]) (auto simp: demoHibEnv_def demo_simps demoHibWorld_def)
qed


theorem last_holder_deletes_witness:
  "\<exists>t. \<exists>post x pre items. hist (t :: hibWorld) = post @ EvDeleteManifest ''vk-ns-s-0'' ''hibernate'' x # pre \<and>
     EvListHibs ''ns'' (Inr items) \<in> set pre"
proof -
  let ?s = "demoHibWorld (demoHib DesireWake HPHibernated) (demoTarget ''true'' [])"
  let ?t = "final (reconcileHibDelete demoHibEnv) ?s"
  have h: "hsVMName (hbStatus (theHib ?s)) = ''vk-ns-s-0''" "hbNamespace (theHib ?s) = ''ns''" "hist ?s = []"
    by (simp_all add: demoHibWorld_def demoHib_def)
  obtain es where es: "hist ?t = es @ hist ?s" and
    del: "\<And>post n u x pre. es = post @ EvDeleteManifest n u x # pre \<Longrightarrow>
        n = ''vk-ns-s-0'' \<and> u = HibernateSnapshotTag (meta demoHibEnv) \<and>
        (\<exists>items. EvListHibs ''ns'' (Inr items) \<in> set pre)"
    using last_holder_deletes [of demoHibEnv ?s] unfolding h by metis
  obtain post e pre where e: "es = post @ e # pre" "dropsHibTag e"
    using indexOf_split [OF demo_last] es h(3) by auto
  then obtain n u x where x: "e = EvDeleteManifest n u x" by (cases e rule: dropsHibTag.cases) auto
  have "HibernateSnapshotTag (meta demoHibEnv) = ''hibernate''" by (simp add: demoHibEnv_def demo_simps)
  with del [of post n u x pre] e(1) es h(3) show ?thesis
    unfolding x by (intro exI [of _ ?t] exI [of _ post] exI [of _ x] exI [of _ pre]) auto
qed

lemma demo_announced:
  "map_of (observed (final (announcePhaseExit demoHibEnv ''ok'' ''Normal'' ''Hibernated'' [])
     (demoHibWorld (demoHib DesireHibernate HPHibernating) (demoTarget ''true'' [])))) ''u2'' = Some 0"
  by code_simp

theorem announce_once_witness:
  "run_state (announcePhaseExit demoHibEnv ''ok'' ''Normal'' ''Hibernated'' [])
     ((demoHibWorld (demoHib DesireHibernate HPHibernating) (demoTarget ''true'' []))\<lparr>observed := [(''u2'', 0)]\<rparr>) =
   ((), (demoHibWorld (demoHib DesireHibernate HPHibernating) (demoTarget ''true'' []))\<lparr>observed := [(''u2'', 0)]\<rparr>)"
proof -
  let ?s = "demoHibWorld (demoHib DesireHibernate HPHibernating) (demoTarget ''true'' [])"
  have at: "readySince (kube demoHibEnv) (theHib ?s) = Some 0"
    by (simp add: readySince_def readyOf_def demoHibEnv_def demo_simps demoHibWorld_def demoHib_def upt_rec)
  have uid: "hbUID (theHib ?s) = ''u2''" by (simp add: demoHibWorld_def demoHib_def)
  show ?thesis
    by (rule announce_once [of demoHibEnv ?s 0 _ "''ok''" "''Normal''" "''Hibernated''" "[]" 0])
      (use at uid demo_announced in simp_all)
qed

end
