(* ===== verification/VmLock.thy ===== *)
theory VmLock
  imports HibEvidence
begin

text \<open>
  The per-VM lock of the hibernation reconciler. First one pass: every touch of a VM, the patch
  of its pod and the delete of its tag, happens under the stripe of that VM, taken once and
  given back. Then several workers: their passes interleave at their external calls, a mutex is taken only
  when it is free, and by induction over the interleaving the stripes serialize the workers that reach one VM.
\<close>


section \<open>One pass\<close>

text \<open>The stripe a worker holds after a history of its own.\<close>

fun held :: "history \<Rightarrow> nat option" where
  "held [] = None"
| "held (EvLock k # es) = Some k"
| "held (EvUnlock k # es) = None"
| "held (_ # es) = held es"

text \<open>The VM a call touches.\<close>

fun touchedVM :: "env \<Rightarrow> event \<Rightarrow> string option" where
  "touchedVM r (EvPatchPod p q x) = Some (vmName (ParseVMSpec (meta r) p))"
| "touchedVM r (EvDeleteManifest n t x) = Some n"
| "touchedVM r _ = None"

fun lockEvent :: "event \<Rightarrow> bool" where
  "lockEvent (EvLock _) = True"
| "lockEvent (EvUnlock _) = True"
| "lockEvent _ = False"

definition lockOk :: "env \<Rightarrow> history \<Rightarrow> event \<Rightarrow> bool" where
  "lockOk r pre e \<longleftrightarrow>
     (\<forall>vm. touchedVM r e = Some vm \<longrightarrow> held pre = Some (vmStripe r vm)) \<and>
     (\<forall>k. e = EvLock k \<longrightarrow> held pre = None) \<and> (\<forall>k. e = EvUnlock k \<longrightarrow> held pre = Some k)"

text \<open>Events that respect a lock held throughout, on stripe \<open>k\<close> or on none.\<close>

definition within :: "env \<Rightarrow> nat option \<Rightarrow> event \<Rightarrow> bool" where
  "within r k e \<longleftrightarrow> \<not> lockEvent e \<and> (\<forall>vm. touchedVM r e = Some vm \<longrightarrow> k = Some (vmStripe r vm))"

lemma held_other: "\<not> lockEvent e \<Longrightarrow> held (e # es) = held es"
  by (cases e) auto

lemma within_guarded:
  "guarded (lockOk r) fs \<Longrightarrow> list_all (within r (held fs)) es \<Longrightarrow> guarded (lockOk r) (es @ fs) \<and> held (es @ fs) = held fs"
proof (induction es)
  case (Cons e es)
  then have IH: "guarded (lockOk r) (es @ fs)" "held (es @ fs) = held fs" and e: "within r (held fs) e" by auto
  from e have "lockOk r (es @ fs) e" by (auto simp: lockOk_def within_def IH(2))
  with IH e show ?case by (simp add: held_other within_def)
qed simp

lemma held_append: "held fs = None \<Longrightarrow> held (es @ fs) = held es"
  by (induction es rule: held.induct) auto

lemma lockOk_append: "held fs = None \<Longrightarrow> lockOk r (es @ fs) e = lockOk r es e"
  by (simp add: lockOk_def held_append)

lemma passes_append: "guarded (lockOk r) es \<Longrightarrow> guarded (lockOk r) fs \<Longrightarrow> held fs = None \<Longrightarrow> guarded (lockOk r) (es @ fs)"
  by (induction es) (auto simp: lockOk_append)

text \<open>What a transition does between the lock and the unlock: it patches at most the pod it was given.\<close>

definition onlyTouches :: "string \<Rightarrow> pod \<Rightarrow> event \<Rightarrow> bool" where
  "onlyTouches vm p e \<longleftrightarrow> \<not> lockEvent e \<and> (\<forall>q q' x. e = EvPatchPod q q' x \<longrightarrow> q = p) \<and>
     (\<forall>n t x. e = EvDeleteManifest n t x \<longrightarrow> n = vm)"

lemma onlyTouches_after_patch:
  "emits (onlyTouches vm p) (checkHibernate r vm)" "emits (onlyTouches vm p) (checkHibWake r vm settled)"
  "emits (onlyTouches vm p) (markFailed r msg)" "emits (onlyTouches vm p) (announceRetryFromFailed r d)"
  unfolding checkHibernate_def confirmHibernate_def awaitHibernate_def checkHibWake_def finishHibWake_def
    markActive_def dropWokenTag_def awaitHibWake_def
  by (intro emits_intros; simp add: onlyTouches_def)+

definition touches :: "string \<Rightarrow> 'a hibIO \<Rightarrow> bool" where
  "touches vm m \<longleftrightarrow> (\<forall>s. \<exists>es. hist (final m s) = es @ hist s \<and> list_all (onlyTouches vm (hibPod s)) es)"

lemma touches_emits: "(\<And>p. emits (onlyTouches vm p) m) \<Longrightarrow> touches vm m"
  by (auto simp: touches_def dest: emitsD)

lemma touches_still:
  assumes "podStill m" and "touches vm m" and "\<And>a. touches vm (f a)"
  shows "touches vm (m \<bind> f)"
  unfolding touches_def final_bind
proof
  fix s
  from assms(2) obtain es where es: "hist (final m s) = es @ hist s" "list_all (onlyTouches vm (hibPod s)) es"
    by (auto simp: touches_def)
  have "hibPod (final m s) = hibPod s" using assms(1) by (simp add: podStill_def)
  with assms(3) obtain fs where "hist (final (f (result m s)) (final m s)) = fs @ hist (final m s)"
      "list_all (onlyTouches vm (hibPod s)) fs" unfolding touches_def by metis
  with es show "\<exists>es. hist (final (f (result m s)) (final m s)) = es @ hist s \<and> list_all (onlyTouches vm (hibPod s)) es"
    by (intro exI [of _ "fs @ es"]) simp
qed

lemma touches_then:
  assumes "touches vm m" and "\<And>a p. emits (onlyTouches vm p) (f a)"
  shows "touches vm (m \<bind> f)"
  unfolding touches_def final_bind
proof
  fix s
  from assms(1) obtain es where es: "hist (final m s) = es @ hist s" "list_all (onlyTouches vm (hibPod s)) es"
    by (auto simp: touches_def)
  obtain fs where "hist (final (f (result m s)) (final m s)) = fs @ hist (final m s)" "list_all (onlyTouches vm (hibPod s)) fs"
    using emitsE [OF assms(2)] by blast
  with es show "\<exists>es. hist (final (f (result m s)) (final m s)) = es @ hist s \<and> list_all (onlyTouches vm (hibPod s)) es"
    by (intro exI [of _ "fs @ es"]) simp
qed

lemma touches_patchHibernate: "touches vm (patchHibernate r st)"
proof -
  have "wp (patchHibernate r st) (\<lambda>_ t. \<exists>es. hist t = es @ hist s \<and> list_all (onlyTouches vm (hibPod s)) es) s" for s
    by (simp add: patchHibernate_def wp_simps Let_def onlyTouches_def split: prod.split)
  then show ?thesis by (simp add: touches_def wp_result_final)
qed

lemma touches_calls:
  "touches vm (announceRetryFromFailed r d)" "touches vm theHB" "touches vm thePod" "touches vm (State_Monad.return a)"
  "touches vm (markFailed r msg)"
  by (intro touches_emits onlyTouches_after_patch emits_intros)+

lemma podStill_announceRetry: "podStill (announceRetryFromFailed r d)"
  by (rule podStillI) (simp add: announceRetryFromFailed_def wp_simps)

lemma touches_reconcileHibernate: "touches vm (reconcileHibernate r vm)"
  unfolding reconcileHibernate_def
  by (intro touches_still [OF podStill_announceRetry touches_calls(1)] touches_then [OF touches_patchHibernate]
      emits_option onlyTouches_after_patch emits_return)

lemma touches_reconcileHibWake: "touches vm (reconcileHibWake r vm)"
proof -
  have start: "touches vm (startHibWake r settled)" for settled
    by (auto simp: startHibWake_def touches_calls intro!: touches_patchHibernate
        touches_still [OF podStill_announceRetry touches_calls(1)] touches_still [OF podStill_calls(5) touches_calls(3)])
  have rest: "touches vm (startHibWake r settled \<bind> (\<lambda>err. case err of
       Some e \<Rightarrow> State_Monad.return (noRequeue, Some (ErrWrap ''clear hibernate annotation'' e))
     | None \<Rightarrow> checkHibWake r vm settled))" for settled
    by (intro touches_then [OF start] emits_option onlyTouches_after_patch emits_return)
  show ?thesis
    unfolding reconcileHibWake_def Let_def
    by (intro touches_still [OF podStill_calls(6) touches_calls(2)] touches_still [OF podStill_calls(5) touches_calls(3)])
      (simp add: rest touches_calls)
qed

lemma touches_transition: "touches vm (transition r vm)"
  unfolding transition_def
  by (intro touches_still [OF podStill_calls(6) touches_calls(2)])
    (auto simp: touches_reconcileHibernate touches_reconcileHibWake split: desire.split
      intro!: touches_then [OF touches_calls(5)] emits_return)

lemma touches_within:
  "list_all (onlyTouches vm p) es \<Longrightarrow> vm = vmName (ParseVMSpec (meta r) p) \<Longrightarrow> list_all (within r (Some (vmStripe r vm))) es"
proof (rule list.pred_mono_strong)
  fix e
  assume "onlyTouches vm p e" "vm = vmName (ParseVMSpec (meta r) p)"
  then show "within r (Some (vmStripe r vm)) e"
    by (cases e) (auto simp: onlyTouches_def within_def)
qed

text \<open>\<open>locks r m\<close>: started without a lock, \<open>m\<close> follows the discipline and ends without one.\<close>

definition locks :: "env \<Rightarrow> 'a hibIO \<Rightarrow> bool" where
  "locks r m \<longleftrightarrow> (\<forall>s. \<exists>es. hist (final m s) = es @ hist s \<and> guarded (lockOk r) es \<and> held es = None)"

lemma locks_emits: "emits (within r None) m \<Longrightarrow> locks r m"
  unfolding locks_def using within_guarded [of r "[]"] by (fastforce dest: emitsD)

lemma locks_bind:
  assumes "locks r m" and "\<And>a. locks r (f a)"
  shows "locks r (m \<bind> f)"
  unfolding locks_def final_bind
proof
  fix s
  obtain es where es: "hist (final m s) = es @ hist s" "guarded (lockOk r) es" "held es = None"
    using assms(1) by (auto simp: locks_def)
  obtain fs where "hist (final (f (result m s)) (final m s)) = fs @ hist (final m s)" "guarded (lockOk r) fs" "held fs = None"
    using assms(2) unfolding locks_def by blast
  with es show "\<exists>es. hist (final (f (result m s)) (final m s)) = es @ hist s \<and> guarded (lockOk r) es \<and> held es = None"
    by (intro exI [of _ "fs @ es"]) (simp add: passes_append held_append)
qed

lemma locks_cases:
  "(b \<Longrightarrow> locks r m) \<Longrightarrow> (\<not> b \<Longrightarrow> locks r n) \<Longrightarrow> locks r (if b then m else n)"
  "(\<And>e. locks r (k e)) \<Longrightarrow> (\<And>a. locks r (f a)) \<Longrightarrow> locks r (case y of Inl e \<Rightarrow> k e | Inr a \<Rightarrow> f a)"
  "(\<And>a b. locks r (g a b)) \<Longrightarrow> locks r (case z of (a, b) \<Rightarrow> g a b)"
  by (simp_all split: sum.split prod.split)

lemma bracketed:
  assumes "hist (final m (s\<lparr>hist := EvLock (vmStripe r vm) # hist s\<rparr>)) = es @ EvLock (vmStripe r vm) # hist s"
    and "list_all (within r (Some (vmStripe r vm))) es"
  shows "\<exists>es. hist (final (withVMLock r vm m) s) = es @ hist s \<and> guarded (lockOk r) es \<and> held es = None"
proof -
  let ?k = "vmStripe r vm"
  have "guarded (lockOk r) (es @ [EvLock ?k]) \<and> held (es @ [EvLock ?k]) = Some ?k"
    using within_guarded [of r "[EvLock ?k]" es] assms(2) by (simp add: lockOk_def)
  then have "guarded (lockOk r) (EvUnlock ?k # es @ [EvLock ?k])" by (simp add: lockOk_def)
  moreover have "hist (final (withVMLock r vm m) s) = (EvUnlock ?k # es @ [EvLock ?k]) @ hist s"
    using assms(1) by (simp add: withVMLock_def final_bind emit_def) (simp add: final_def State_Monad.update_def)
  ultimately show ?thesis by (metis held.simps(3))
qed

lemma locks_withVMLock:
  assumes "emits (within r (Some (vmStripe r vm))) m"
  shows "locks r (withVMLock r vm m)"
  unfolding locks_def
proof
  fix s
  from emitsD [OF assms, of "s\<lparr>hist := EvLock (vmStripe r vm) # hist s\<rparr>"] show
    "\<exists>es. hist (final (withVMLock r vm m) s) = es @ hist s \<and> guarded (lockOk r) es \<and> held es = None"
    by (auto intro: bracketed)
qed

lemma locks_transition:
  assumes "vm = vmName (ParseVMSpec (meta r) p)"
  shows "locks r (putHibPod p \<bind> (\<lambda>_. withVMLock r vm (transition r vm)))"
  unfolding locks_def
proof
  fix s :: hibWorld
  let ?s = "s\<lparr>hibPod := p\<rparr>"
  have "final (putHibPod p \<bind> (\<lambda>_. withVMLock r vm (transition r vm))) s = final (withVMLock r vm (transition r vm)) ?s"
    by (simp add: final_bind putHibPod_def) (simp add: final_def State_Monad.update_def)
  moreover obtain es where "hist (final (transition r vm) (?s\<lparr>hist := EvLock (vmStripe r vm) # hist ?s\<rparr>)) =
      es @ EvLock (vmStripe r vm) # hist ?s" "list_all (onlyTouches vm p) es"
    using touches_transition [of vm r] unfolding touches_def
    by (elim allE [of _ "?s\<lparr>hist := EvLock (vmStripe r vm) # hist ?s\<rparr>"]) auto
  ultimately show "\<exists>es. hist (final (putHibPod p \<bind> (\<lambda>_. withVMLock r vm (transition r vm))) s) = es @ hist s \<and>
      guarded (lockOk r) es \<and> held es = None"
    using bracketed [where m = "transition r vm" and s = ?s and r = r and vm = vm and es = es]
      touches_within [where vm = vm and p = p and es = es and r = r] assms by simp
qed

lemma locks_reconcileTarget: "locks r (reconcileTarget r)"
proof -
  have calls: "locks r (getPod r ns n)" "locks r theHB" for ns n
    unfolding getPod_def by (intro locks_emits emits_intros; simp add: within_def)+
  have pending: "locks r (putHibPod p \<bind> (\<lambda>_. markPending r msg \<bind> (\<lambda>e. State_Monad.return (requeueIn hibInterval, e))))"
    "locks r (markPending r msg \<bind> (\<lambda>e. State_Monad.return (requeueIn hibInterval, e)))"
    "locks r (State_Monad.return (noRequeue, e))" for p msg and e :: "gerr option"
    by (intro locks_emits emits_intros; simp add: within_def)+
  have target: "locks r (putHibPod p \<bind> (\<lambda>_. let vm = vmName (ParseVMSpec (meta r) p) in
      if vm = [] then markPending r (msg vm) \<bind> (\<lambda>e. State_Monad.return (requeueIn hibInterval, e))
      else withVMLock r vm (transition r vm)))" for p msg
    using pending(1) [of p] locks_transition [OF refl] by (simp add: Let_def)
  show ?thesis unfolding reconcileTarget_def
    by (intro locks_bind calls locks_cases pending target)
qed

lemma locks_reconcileHibDelete: "locks r (reconcileHibDelete r)"
proof -
  have "locks r theHB" "locks r (releaseHib r)"
    by (intro locks_emits emits_intros releaseHib_emits; simp add: within_def)+
  moreover have "emits (within r (Some (vmStripe r (hsVMName (hbStatus h))))) (deleteOwnedVM r h)" for h
    unfolding deleteOwnedVM_def vmHeldByAnotherCR_def listHibs_def
    by (intro emits_intros releaseHib_emits) (simp_all add: within_def)
  ultimately show ?thesis unfolding reconcileHibDelete_def
    by (intro locks_bind locks_cases locks_withVMLock)
qed

lemma locks_reconcileHib: "locks r (reconcileHib r ns name)"
proof -
  have calls: "locks r (getHib r ns name)" "locks r (putHB h)" "locks r (State_Monad.return x)"
    "locks r (updateHib r h)" for h and x :: hibOutcome
    unfolding getHib_def updateHib_def by (intro locks_emits emits_intros; simp add: within_def)+
  have opt: "locks r (case err of Some e \<Rightarrow> State_Monad.return (k e) | None \<Rightarrow> State_Monad.return x)"
    for err :: "gerr option" and k and x :: hibOutcome
    using calls(3) by (simp split: option.split)
  show ?thesis unfolding reconcileHib_def Let_def
    by (intro locks_bind calls opt locks_cases locks_reconcileTarget locks_reconcileHibDelete)
qed


section \<open>Several workers\<close>

text \<open>
  \<open>works r h\<close>: \<open>h\<close> is the history of a worker that reconciled one CR after the other. The answers
  of the outside world are those of any environment with the same packages and the same hash seed: what the
  other workers do shows in them.
\<close>

inductive works :: "env \<Rightarrow> history \<Rightarrow> bool" for r where
  idle: "works r []"
| pass: "works r h \<Longrightarrow> meta r' = meta r \<Longrightarrow> vmHash r' = vmHash r \<Longrightarrow>
    hist (final (reconcileHib r' ns name) s) = es @ hist s \<Longrightarrow> works r (es @ h)"

text \<open>A trace is the calls of all workers, latest first; the holder of a stripe, and a worker's own part.\<close>

type_synonym trace = "(nat \<times> event) list"

fun holder :: "trace \<Rightarrow> nat \<Rightarrow> nat option" where
  "holder [] k = None"
| "holder ((w, e) # tr) k =
     (if e = EvLock k then Some w else if e = EvUnlock k then None else holder tr k)"

definition own :: "nat \<Rightarrow> trace \<Rightarrow> history" where
  "own w tr = map snd (filter (\<lambda>x. fst x = w) tr)"

text \<open>
  The interleavings \<open>sync.Mutex\<close> allows: a stripe is locked only when nobody holds it. Each worker's
  part is the beginning of a worker's history.
\<close>

inductive interleaved :: "env \<Rightarrow> trace \<Rightarrow> bool" for r where
  none: "interleaved r []"
| call: "interleaved r tr \<Longrightarrow> (\<And>k. e = EvLock k \<Longrightarrow> holder tr k = None) \<Longrightarrow>
    \<exists>h. works r h \<and> suffix (e # own w tr) h \<Longrightarrow> interleaved r ((w, e) # tr)"

lemma lockOk_cong: "meta r' = meta r \<Longrightarrow> vmHash r' = vmHash r \<Longrightarrow> lockOk r' = lockOk r"
  by (intro ext) (auto simp: lockOk_def vmStripe_def elim!: touchedVM.elims split: option.splits)

lemma works_locked: "works r h \<Longrightarrow> guarded (lockOk r) h \<and> held h = None"
proof (induction rule: works.induct)
  case (pass h r' ns name s es)
  obtain fs where "hist (final (reconcileHib r' ns name) s) = fs @ hist s" "guarded (lockOk r') fs" "held fs = None"
    using locks_reconcileHib [of r' ns name] by (auto simp: locks_def)
  with pass have "guarded (lockOk r) es" "held es = None" using lockOk_cong [OF pass.hyps(2,3)] by auto
  with pass.IH show ?case by (simp add: passes_append held_append)
qed simp

lemma own_Cons [simp]: "own w ((w', e) # tr) = (if w' = w then e # own w tr else own w tr)"
  by (simp add: own_def)

lemma interleaved_locked: "interleaved r tr \<Longrightarrow> guarded (lockOk r) (own w tr)"
proof (induction rule: interleaved.induct)
  case (call tr e w')
  then obtain h where "works r h" "suffix (e # own w' tr) h" by blast
  then have "guarded (lockOk r) (e # own w' tr)" using works_locked guarded_append by (metis suffixE)
  with call.IH show ?case by auto
qed (simp add: own_def)

text \<open>The invariant: a worker holds, by its own account, exactly the stripe the mutex says it holds.\<close>

lemma held_is_holder: "interleaved r tr \<Longrightarrow> held (own w tr) = Some k \<longleftrightarrow> holder tr k = Some w"
proof (induction arbitrary: w k rule: interleaved.induct)
  case none
  show ?case by (simp add: own_def)
next
  case (call tr e w')
  have "interleaved r ((w', e) # tr)" using call.hyps by (intro interleaved.call) auto
  from interleaved_locked [OF this, of w'] have ok: "lockOk r (own w' tr) e" by simp
  show ?case
  proof (cases "lockEvent e")
    case False
    then have "e \<noteq> EvLock k" "e \<noteq> EvUnlock k" "held (e # own w' tr) = held (own w' tr)" by (auto simp: held_other)
    with call.IH [of w k] show ?thesis by (cases "w' = w") simp_all
  next
    case True
    then consider j where "e = EvLock j" | j where "e = EvUnlock j" by (cases e) auto
    then show ?thesis
    proof cases
      case 1
      with ok call.hyps(2) [of j] call.IH [of w k] show ?thesis
        by (cases "w' = w"; cases "j = k") (auto simp: lockOk_def)
    next
      case 2
      with ok call.IH [of w k] call.IH [of w' j] show ?thesis
        by (cases "w' = w"; cases "j = k") (auto simp: lockOk_def)
    qed
  qed
qed

inductive_cases interleavedE: "interleaved r ((w, e) # tr)"

lemma interleaved_before: "interleaved r (t @ tr) \<Longrightarrow> interleaved r tr"
  by (induction t) (auto elim: interleavedE)

lemma unlocked_by_holder: "interleaved r ((w, EvUnlock k) # tr) \<Longrightarrow> holder tr k = Some w"
proof -
  assume i: "interleaved r ((w, EvUnlock k) # tr)"
  from interleaved_locked [OF i, of w] have "held (own w tr) = Some k" by (simp add: lockOk_def)
  moreover from i have "interleaved r tr" by (auto elim: interleavedE)
  ultimately show ?thesis by (simp add: held_is_holder)
qed

lemma released:
  "interleaved r (t @ tr) \<Longrightarrow> holder tr k = Some w \<Longrightarrow> holder (t @ tr) k \<noteq> Some w \<Longrightarrow> (w, EvUnlock k) \<in> set t"
proof (induction t)
  case (Cons x t)
  obtain w' e where x: "x = (w', e)" by force
  have i: "interleaved r (t @ tr)" using Cons.prems(1) x by (auto elim: interleavedE)
  show ?case
  proof (cases "holder (t @ tr) k = Some w")
    case True
    then have "e \<noteq> EvLock k" using Cons.prems(1) x by (auto elim: interleavedE)
    with True Cons.prems(3) have e: "e = EvUnlock k" by (simp add: x split: if_splits)
    have "interleaved r ((w', EvUnlock k) # t @ tr)" using Cons.prems(1) unfolding x e by simp
    from unlocked_by_holder [OF this] True show ?thesis by (simp add: x e)
  next
    case False
    from Cons.IH [OF i Cons.prems(2) False] show ?thesis by simp
  qed
qed simp

lemma handover:
  "interleaved r (t @ tr) \<Longrightarrow> holder tr k = Some w1 \<Longrightarrow> holder (t @ tr) k = Some w2 \<Longrightarrow> w1 \<noteq> w2 \<Longrightarrow>
     \<exists>xs ys. t = xs @ (w2, EvLock k) # ys \<and> (w1, EvUnlock k) \<in> set ys"
proof (induction t)
  case (Cons x t)
  obtain w e where x: "x = (w, e)" by force
  have i: "interleaved r (t @ tr)" using Cons.prems(1) x by (auto elim: interleavedE)
  show ?case
  proof (cases "e = EvLock k")
    case True
    with Cons.prems x have w: "w = w2" "holder (t @ tr) k = None" by (auto elim: interleavedE)
    with released [OF i Cons.prems(2)] have "(w1, EvUnlock k) \<in> set t" by simp
    with w True x show ?thesis by (intro exI [of _ "[]"] exI [of _ t]) simp
  next
    case False
    with Cons.prems(3) x have "holder (t @ tr) k = Some w2" by (auto split: if_splits)
    from Cons.IH [OF i Cons.prems(2) this Cons.prems(4)] obtain xs ys where
      "t = xs @ (w2, EvLock k) # ys" "(w1, EvUnlock k) \<in> set ys" by blast
    then show ?thesis by (intro exI [of _ "x # xs"] exI [of _ ys]) simp
  qed
qed simp

lemma touched_held:
  assumes "interleaved r ((w, e) # tr)" and "touchedVM r e = Some vm"
  shows "holder tr (vmStripe r vm) = Some w"
proof -
  from interleaved_locked [OF assms(1), of w] assms(2) have "held (own w tr) = Some (vmStripe r vm)" by (simp add: lockOk_def)
  moreover from assms(1) have "interleaved r tr" by (auto elim: interleavedE)
  ultimately show ?thesis by (simp add: held_is_holder)
qed

text \<open>
  C3: CRs that reach one VM are serialized. However many workers reconcile CocoonHibernations at
  once, and however their calls interleave, when two different workers touch the same VM, patching its pod or
  deleting its tag, the first has given the VM's lock back and the second has taken it in between:
  opposing desires never race the tag and the annotation.
\<close>

theorem vm_serialized:
  assumes "interleaved r (t3 @ (w2, e2) # t2 @ (w1, e1) # t1)"
    and "touchedVM r e1 = Some vm" and "touchedVM r e2 = Some vm" and "w1 \<noteq> w2"
  shows "\<exists>xs ys. t2 = xs @ (w2, EvLock (vmStripe r vm)) # ys \<and> (w1, EvUnlock (vmStripe r vm)) \<in> set ys"
proof -
  let ?k = "vmStripe r vm"
  have i2: "interleaved r ((w2, e2) # t2 @ (w1, e1) # t1)" using assms(1) by (rule interleaved_before)
  then have i: "interleaved r (t2 @ (w1, e1) # t1)" by (auto elim: interleavedE)
  then have i1: "interleaved r ((w1, e1) # t1)" by (rule interleaved_before)
  have "e1 \<noteq> EvLock ?k" "e1 \<noteq> EvUnlock ?k" using assms(2) by auto
  then have "holder ((w1, e1) # t1) ?k = Some w1" using touched_held [OF i1 assms(2)] by simp
  with handover [OF i _ touched_held [OF i2 assms(3)] assms(4)] show ?thesis by blast
qed


section \<open>A concrete interleaving\<close>

lemma own_pass [simp]: "own w (map (Pair w') es @ tr) = (if w' = w then es @ own w tr else own w tr)"
  by (induction es) auto

lemma pass_interleaved:
  assumes "interleaved r tr" and idle: "\<And>w'. held (own w' tr) = None" and "own w tr = []" and "works r es"
  shows "suffix fs es \<Longrightarrow> interleaved r (map (Pair w) fs @ tr)"
proof (induction fs)
  case (Cons e fs)
  then have i: "interleaved r (map (Pair w) fs @ tr)" by (auto dest: suffix_ConsD)
  have ok: "lockOk r fs e" using works_locked [OF assms(4)] Cons.prems guarded_append by (metis guarded.simps(2) suffixE)
  have "holder (map (Pair w) fs @ tr) k = None" if "e = EvLock k" for k
  proof (rule ccontr)
    assume "holder (map (Pair w) fs @ tr) k \<noteq> None"
    then obtain w' where "holder (map (Pair w) fs @ tr) k = Some w'" by blast
    then have "held (own w' (map (Pair w) fs @ tr)) = Some k" by (simp only: held_is_holder [OF i])
    with ok that idle [of w'] assms(3) show False by (auto simp: lockOk_def split: if_splits)
  qed
  with i Cons.prems assms(3,4) show ?case by (auto intro!: interleaved.call)
qed (use assms(1) in simp)

text \<open>Two workers delete, one after the other, the CRs of one VM.\<close>

definition demoDeleted :: cocoonHibernation where
  "demoDeleted = (demoHib DesireWake HPHibernated)\<lparr>hbDeletionTimestamp := Some 1\<rparr>"

definition demoDelEnv :: env where
  "demoDelEnv = demoEnv [] [demoDeleted] [((''vk-ns-s-0'', ''hibernate''), ''img:1'')] 5"

definition demoPass :: history where
  "demoPass = hist (final (reconcileHib demoDelEnv ''ns'' ''h'') (demoHibWorld demoDeleted (demoTarget ''true'' [])))"

lemma demo_pass_touches: "indexOf (\<lambda>e. touchedVM demoDelEnv e = Some ''vk-ns-s-0'') demoPass = Some 2"
  by code_simp

lemma demo_pass_works: "works demoDelEnv demoPass"
proof -
  have "hist (final (reconcileHib demoDelEnv ''ns'' ''h'') (demoHibWorld demoDeleted (demoTarget ''true'' []))) =
      demoPass @ hist (demoHibWorld demoDeleted (demoTarget ''true'' []))"
    by (simp add: demoPass_def demoHibWorld_def)
  from works.pass [OF works.idle refl refl this] show ?thesis by simp
qed

definition demoTrace :: trace where
  "demoTrace = map (Pair 2) demoPass @ map (Pair 1) demoPass"

lemma demo_interleaved: "interleaved demoDelEnv demoTrace"
proof -
  have first: "interleaved demoDelEnv (map (Pair 1) demoPass)"
    using pass_interleaved [OF interleaved.none _ _ demo_pass_works, of 1 demoPass] by (simp add: own_def)
  have "held demoPass = None" using works_locked [OF demo_pass_works] by simp
  then have idle: "held (own w (map (Pair 1) demoPass)) = None" for w
    using own_pass [of w 1 demoPass "[]"] by (simp add: own_def)
  have "own 2 (map (Pair 1) demoPass) = []" using own_pass [of 2 1 demoPass "[]"] by (simp add: own_def)
  from pass_interleaved [OF first idle this demo_pass_works] show ?thesis by (simp add: demoTrace_def)
qed

theorem vm_serialized_witness:
  "\<exists>t3 e2 t2 e1 t1 xs ys. demoTrace = t3 @ (2, e2) # t2 @ (1, e1) # t1 \<and>
     touchedVM demoDelEnv e1 = Some ''vk-ns-s-0'' \<and> touchedVM demoDelEnv e2 = Some ''vk-ns-s-0'' \<and>
     t2 = xs @ (2, EvLock (vmStripe demoDelEnv ''vk-ns-s-0'')) # ys \<and>
     (1, EvUnlock (vmStripe demoDelEnv ''vk-ns-s-0'')) \<in> set ys"
proof -
  obtain a e b where e: "demoPass = a @ e # b" "touchedVM demoDelEnv e = Some ''vk-ns-s-0''"
    using indexOf_split [OF demo_pass_touches] by blast
  have tr: "demoTrace = map (Pair 2) a @ (2, e) # (map (Pair 2) b @ map (Pair 1) a) @ (1, e) # map (Pair 1) b"
    by (simp add: demoTrace_def e(1))
  from vm_serialized [OF demo_interleaved [unfolded tr] e(2) e(2)] tr e(2) show ?thesis by fastforce
qed

end
