(* ===== verification/Startup.thy ===== *)
theory Startup
  imports Kube Metrics
begin

text \<open>
  \<open>main.go\<close> and the two \<open>SetupWithManager\<close> methods: from flags and environment to a running manager.
  The packages called, controller-runtime, client-go, the OCI registry client, the log package and the
  environment helpers of cocoon-common, are the parameters of \<open>startEnv\<close>; each call is logged with its answer, latest
  first. \<open>logger.Fatalf\<close> and \<open>os.Exit\<close> end the process, so nothing follows them and no deferred call runs.
\<close>


section \<open>Configuration\<close>

definition defaultMetricsAddr :: string where
  "defaultMetricsAddr = '':8080''"

definition defaultProbeAddr :: string where
  "defaultProbeAddr = '':8081''"

definition leaderElectionID :: string where
  "leaderElectionID = ''cocoon-operator.cocoonset.cocoonstack.io''"

definition defaultConcurrency :: int where
  "defaultConcurrency = 4"

text \<open>The command line: the options that were given.\<close>

record cmdline =
  clMetricsAddr :: "string option"
  clProbeAddr :: "string option"
  clLeaderElect :: "bool option"
  clSetConcurrency :: "int option"
  clHibConcurrency :: "int option"

record flags =
  flMetricsAddr :: string
  flProbeAddr :: string
  flLeaderElect :: bool
  flSetConcurrency :: int
  flHibConcurrency :: int

text \<open>\<open>VERSION\<close>, \<open>REVISION\<close> and \<open>BUILTAT\<close>, unless the linker sets them.\<close>

definition VERSION :: string where
  "VERSION = ''dev''"

definition REVISION :: string where
  "REVISION = ''unknown''"

definition BUILTAT :: string where
  "BUILTAT = ''unknown''"


section \<open>Controllers\<close>

datatype objectKind = KindCocoonSet | KindCocoonHibernation | KindPod

datatype watchFilter = EveryChange | SetRelevantChange | PodRelevantChange | PodAnnotationChanged

text \<open>
  What is handed to the controller builder: the reconciled kind, the owned and the watched
  kinds with their predicates, and the worker count.
\<close>

record controllerSpec =
  ctlFor :: "objectKind \<times> watchFilter"
  ctlOwns :: "(objectKind \<times> watchFilter) list"
  ctlWatches :: "(objectKind \<times> watchFilter) list"
  ctlWorkers :: int

record managerOptions =
  moScheme :: "string list"
  moMetricsAddr :: string
  moProbeAddr :: string
  moLeaderElection :: bool
  moLeaderElectionID :: string
  moReleaseOnCancel :: bool

datatype startCall =
    SetupLog string "gerr option"
  | SetLogger
  | LogInfo string
  | NewManager managerOptions "gerr option"
  | AddHealthzCheck string "gerr option"
  | AddReadyzCheck string "gerr option"
  | NewOCIRegistry string
  | MustRegister "collector list"
  | NewClientset "gerr option"
  | StartRecording
  | IndexField objectKind string "gerr option"
  | CompleteController controllerSpec "gerr option"
  | StartManager "gerr option"
  | ShutdownBroadcaster

type_synonym calls = "startCall list"

record startEnv =
  envBool :: "string \<Rightarrow> bool \<Rightarrow> bool"
  envOrDefault :: "string \<Rightarrow> string \<Rightarrow> string"
  envInt :: "string \<Rightarrow> int \<Rightarrow> int"
  getenv :: "string \<Rightarrow> string"
  schemeErr :: "string \<Rightarrow> gerr option"
  setupLogErr :: "calls \<Rightarrow> gerr option"
  kubeConfigErr :: "gerr option"
  newManagerErr :: "calls \<Rightarrow> managerOptions \<Rightarrow> gerr option"
  addCheckErr :: "calls \<Rightarrow> string \<Rightarrow> gerr option"
  clientsetErr :: "calls \<Rightarrow> gerr option"
  indexFieldErr :: "calls \<Rightarrow> objectKind \<Rightarrow> string \<Rightarrow> gerr option"
  completeErr :: "calls \<Rightarrow> controllerSpec \<Rightarrow> gerr option"
  startErr :: "calls \<Rightarrow> gerr option"

type_synonym 'a start = "(calls, 'a) state"

text \<open>A call with an error answer, and one without.\<close>

definition attempt :: "(calls \<Rightarrow> gerr option) \<Rightarrow> (gerr option \<Rightarrow> startCall) \<Rightarrow> gerr option start" where
  "attempt f c = do {
     h \<leftarrow> State_Monad.get;
     State_Monad.set (c (f h) # h);
     State_Monad.return (f h)
   }"

definition tell :: "startCall \<Rightarrow> unit start" where
  "tell c = State_Monad.update ((#) c)"

definition setController :: "int \<Rightarrow> controllerSpec" where
  "setController n = \<lparr>ctlFor = (KindCocoonSet, SetRelevantChange), ctlOwns = [(KindPod, PodRelevantChange)],
     ctlWatches = [], ctlWorkers = n\<rparr>"

definition setupCocoonSet :: "startEnv \<Rightarrow> int \<Rightarrow> gerr option start" where
  "setupCocoonSet r concurrency =
     (if concurrency < 1
      then State_Monad.return (Some (ErrMsg (''cocoonset concurrency must be at least 1, got '' @ formatInt concurrency)))
      else attempt (\<lambda>h. completeErr r h (setController concurrency)) (CompleteController (setController concurrency)))"

definition indexPodRefName :: string where
  "indexPodRefName = ''spec.podRef.name''"

text \<open>The index function registered under that name.\<close>

definition podRefIndex :: "cocoonHibernation \<Rightarrow> string list" where
  "podRefIndex h = [hbPodRef h]"

definition podWatchPredicate :: watchFilter where
  "podWatchPredicate = PodAnnotationChanged"

definition hibController :: "int \<Rightarrow> controllerSpec" where
  "hibController n = \<lparr>ctlFor = (KindCocoonHibernation, EveryChange), ctlOwns = [],
     ctlWatches = [(KindPod, podWatchPredicate)], ctlWorkers = n\<rparr>"

definition setupHibernation :: "startEnv \<Rightarrow> int \<Rightarrow> gerr option start" where
  "setupHibernation r concurrency =
     (if concurrency < 1
      then State_Monad.return (Some (ErrMsg (''hibernation concurrency must be at least 1, got '' @ formatInt concurrency)))
      else do {
        err \<leftarrow> attempt (\<lambda>h. indexFieldErr r h KindCocoonHibernation indexPodRefName)
          (IndexField KindCocoonHibernation indexPodRefName);
        case err of
          Some e \<Rightarrow> State_Monad.return (Some (ErrWrap (''index '' @ indexPodRefName) e))
        | None \<Rightarrow> attempt (\<lambda>h. completeErr r h (hibController concurrency)) (CompleteController (hibController concurrency))
      })"


section \<open>main\<close>

definition parseFlags :: "startEnv \<Rightarrow> cmdline \<Rightarrow> flags" where
  "parseFlags r c =
     (let leaderDefault = envBool r ''LEADER_ELECT'' True
      in \<lparr>flMetricsAddr = case_option (envOrDefault r ''METRICS_ADDR'' defaultMetricsAddr) id (clMetricsAddr c),
          flProbeAddr = case_option (envOrDefault r ''PROBE_ADDR'' defaultProbeAddr) id (clProbeAddr c),
          flLeaderElect = case_option leaderDefault id (clLeaderElect c),
          flSetConcurrency = case_option (envInt r ''COCOONSET_CONCURRENCY'' defaultConcurrency) id (clSetConcurrency c),
          flHibConcurrency = case_option (envInt r ''HIBERNATION_CONCURRENCY'' defaultConcurrency) id (clHibConcurrency c)\<rparr>)"

text \<open>\<open>utilruntime.Must\<close> panics on an error.\<close>

definition buildScheme :: "startEnv \<Rightarrow> gerr + string list" where
  "buildScheme r =
     (case schemeErr r ''client-go'' of
        Some e \<Rightarrow> Inl e
      | None \<Rightarrow> (case schemeErr r ''cocoon/v1'' of
          Some e \<Rightarrow> Inl e
        | None \<Rightarrow> Inr [''client-go'', ''cocoon/v1'']))"

definition buildRegistry :: "startEnv \<Rightarrow> (gerr + string) start" where
  "buildRegistry r =
     (let base = getenv r ''OCI_REGISTRY''
      in if base = [] then State_Monad.return (Inl (ErrMsg ''OCI_REGISTRY must be set''))
         else do {
           tell (NewOCIRegistry base);
           State_Monad.return (Inr base)
         })"

definition managerOptionsOf :: "flags \<Rightarrow> string list \<Rightarrow> managerOptions" where
  "managerOptionsOf f scheme = \<lparr>moScheme = scheme, moMetricsAddr = flMetricsAddr f, moProbeAddr = flProbeAddr f,
     moLeaderElection = flLeaderElect f, moLeaderElectionID = leaderElectionID, moReleaseOnCancel = True\<rparr>"

text \<open>How the process ends: \<open>main\<close> returned, a fatal log line, a panic, or \<open>GetConfigOrDie\<close>.\<close>

datatype ending = Returned | Fatal string gerr | Panicked gerr | NoConfig gerr

definition startLine :: "flags \<Rightarrow> string" where
  "startLine f = ''starting controller manager (metrics='' @ flMetricsAddr f @ '' probe='' @ flProbeAddr f @
     '' leader='' @ (if flLeaderElect f then ''true'' else ''false'') @
     '' cocoonset-concurrency='' @ formatInt (flSetConcurrency f) @
     '' hibernation-concurrency='' @ formatInt (flHibConcurrency f) @ '')''"

text \<open>From the broadcaster on; its \<open>Shutdown\<close> is deferred, so only a return runs it.\<close>

definition runControllers :: "startEnv \<Rightarrow> flags \<Rightarrow> ending start" where
  "runControllers r f = do {
     tell StartRecording;
     err \<leftarrow> setupCocoonSet r (flSetConcurrency f);
     case err of
       Some e \<Rightarrow> State_Monad.return (Fatal ''register cocoonset.Reconciler'' e)
     | None \<Rightarrow> do {
         err \<leftarrow> setupHibernation r (flHibConcurrency f);
         case err of
           Some e \<Rightarrow> State_Monad.return (Fatal ''register hibernation.Reconciler'' e)
         | None \<Rightarrow> do {
             tell (LogInfo (startLine f));
             err \<leftarrow> attempt (startErr r) StartManager;
             case err of
               Some e \<Rightarrow> State_Monad.return (Fatal ''run manager'' e)
             | None \<Rightarrow> do {
                 tell ShutdownBroadcaster;
                 State_Monad.return Returned
               }
           }
       }
   }"

text \<open>From the registry client to the clientset.\<close>

definition connect :: "startEnv \<Rightarrow> flags \<Rightarrow> ending start" where
  "connect r f = do {
     got \<leftarrow> buildRegistry r;
     case got of
       Inl e \<Rightarrow> State_Monad.return (Fatal ''create registry client'' e)
     | Inr _ \<Rightarrow> do {
         tell (MustRegister Register);
         err \<leftarrow> attempt (clientsetErr r) NewClientset;
         case err of
           Some e \<Rightarrow> State_Monad.return (Fatal ''build clientset'' e)
         | None \<Rightarrow> runControllers r f
       }
   }"

definition prepareManager :: "startEnv \<Rightarrow> flags \<Rightarrow> string list \<Rightarrow> ending start" where
  "prepareManager r f scheme = do {
     err \<leftarrow> attempt (\<lambda>h. newManagerErr r h (managerOptionsOf f scheme)) (NewManager (managerOptionsOf f scheme));
     case err of
       Some e \<Rightarrow> State_Monad.return (Fatal ''create manager'' e)
     | None \<Rightarrow> do {
         err \<leftarrow> attempt (\<lambda>h. addCheckErr r h ''healthz'') (AddHealthzCheck ''healthz'');
         case err of
           Some e \<Rightarrow> State_Monad.return (Fatal ''add healthz check'' e)
         | None \<Rightarrow> do {
             err \<leftarrow> attempt (\<lambda>h. addCheckErr r h ''readyz'') (AddReadyzCheck ''readyz'');
             case err of
               Some e \<Rightarrow> State_Monad.return (Fatal ''add readyz check'' e)
             | None \<Rightarrow> connect r f
           }
       }
   }"

definition mainProgram :: "startEnv \<Rightarrow> cmdline \<Rightarrow> ending start" where
  "mainProgram r c = do {
     let f = parseFlags r c;
     err \<leftarrow> attempt (setupLogErr r) (SetupLog ''OPERATOR_LOG_LEVEL'');
     case err of
       Some e \<Rightarrow> State_Monad.return (Fatal ''setup log'' e)
     | None \<Rightarrow> do {
         tell SetLogger;
         tell (LogInfo (''cocoon-operator '' @ VERSION @ '' starting (rev='' @ REVISION @ '' built='' @ BUILTAT @ '')''));
         case buildScheme r of
           Inl e \<Rightarrow> State_Monad.return (Panicked e)
         | Inr scheme \<Rightarrow>
             (case kubeConfigErr r of
                Some e \<Rightarrow> State_Monad.return (NoConfig e)
              | None \<Rightarrow> prepareManager r f scheme)
       }
   }"


section \<open>What a running manager has\<close>

lemma wp_attempt [wp_simps]: "wp (attempt f c) Q h = Q (f h) (c (f h) # h)"
  by (simp add: attempt_def wp_simps)

lemma wp_tell [wp_simps]: "wp (tell c) Q h = Q () (c # h)"
  by (simp add: tell_def wp_simps)

text \<open>The calls before the manager starts, each without an error.\<close>

definition prepared :: "startEnv \<Rightarrow> flags \<Rightarrow> calls \<Rightarrow> bool" where
  "prepared r f pre \<longleftrightarrow>
     NewManager (managerOptionsOf f [''client-go'', ''cocoon/v1'']) None \<in> set pre \<and>
     AddHealthzCheck ''healthz'' None \<in> set pre \<and> AddReadyzCheck ''readyz'' None \<in> set pre \<and>
     getenv r ''OCI_REGISTRY'' \<noteq> [] \<and> NewOCIRegistry (getenv r ''OCI_REGISTRY'') \<in> set pre \<and>
     MustRegister Register \<in> set pre \<and> StartRecording \<in> set pre \<and>
     IndexField KindCocoonHibernation indexPodRefName None \<in> set pre \<and>
     1 \<le> flSetConcurrency f \<and> CompleteController (setController (flSetConcurrency f)) None \<in> set pre \<and>
     1 \<le> flHibConcurrency f \<and> CompleteController (hibController (flHibConcurrency f)) None \<in> set pre"

fun starts :: "startCall \<Rightarrow> bool" where
  "starts (StartManager _) = True"
| "starts _ = False"

definition startsPrepared :: "startEnv \<Rightarrow> flags \<Rightarrow> ending \<Rightarrow> calls \<Rightarrow> bool" where
  "startsPrepared r f res cs \<longleftrightarrow> length (filter starts cs) \<le> 1 \<and>
     (\<forall>post x pre. cs = post @ StartManager x # pre \<longrightarrow> prepared r f pre) \<and>
     (res = Returned \<longrightarrow> list_ex starts cs \<and> hd cs = ShutdownBroadcaster)"

lemma not_started: "list_all (\<lambda>c. \<not> starts c) cs \<Longrightarrow> res \<noteq> Returned \<Longrightarrow> startsPrepared r f res cs"
  by (auto simp: startsPrepared_def list_all_iff filter_empty_conv [THEN iffD2])

lemma started_once:
  assumes "list_all (\<lambda>c. \<not> starts c) pre" and "prepared r f pre"
  shows "startsPrepared r f (Fatal what e) (StartManager x # pre)"
    and "startsPrepared r f Returned (ShutdownBroadcaster # StartManager x # pre)"
proof -
  have none: "filter starts pre = []" "StartManager y \<notin> set pre" for y
    using assms(1) by (auto simp: list_all_iff filter_empty_conv)
  then show "startsPrepared r f (Fatal what e) (StartManager x # pre)"
    and "startsPrepared r f Returned (ShutdownBroadcaster # StartManager x # pre)"
    using assms(2) by (auto simp: startsPrepared_def Cons_eq_append_conv)
qed

text \<open>What is ready before the controllers are registered.\<close>

definition connected :: "startEnv \<Rightarrow> flags \<Rightarrow> calls \<Rightarrow> bool" where
  "connected r f pre \<longleftrightarrow> list_all (\<lambda>c. \<not> starts c) pre \<and>
     NewManager (managerOptionsOf f [''client-go'', ''cocoon/v1'']) None \<in> set pre \<and>
     AddHealthzCheck ''healthz'' None \<in> set pre \<and> AddReadyzCheck ''readyz'' None \<in> set pre \<and>
     getenv r ''OCI_REGISTRY'' \<noteq> [] \<and> NewOCIRegistry (getenv r ''OCI_REGISTRY'') \<in> set pre \<and>
     MustRegister Register \<in> set pre"

lemma wp_runControllers:
  assumes "connected r f h"
  shows "wp (runControllers r f) (startsPrepared r f) h"
proof -
  let ?set = "setController (flSetConcurrency f)" and ?hib = "hibController (flHibConcurrency f)"
  let ?h1 = "StartRecording # h"
  let ?e1 = "completeErr r ?h1 ?set"
  let ?h2 = "CompleteController ?set ?e1 # ?h1"
  let ?e2 = "indexFieldErr r ?h2 KindCocoonHibernation indexPodRefName"
  let ?h3 = "IndexField KindCocoonHibernation indexPodRefName ?e2 # ?h2"
  let ?e3 = "completeErr r ?h3 ?hib"
  let ?h4 = "LogInfo (startLine f) # CompleteController ?hib ?e3 # ?h3"
  have none: "list_all (\<lambda>c. \<not> starts c) ?h4" using assms by (simp add: connected_def)
  then have fatal: "startsPrepared r f (Fatal what e) ?h1" "startsPrepared r f (Fatal what e) ?h2"
    "startsPrepared r f (Fatal what e) ?h3" "startsPrepared r f (Fatal what e) (CompleteController ?hib ?e3 # ?h3)" for what e
    by (auto intro!: not_started)
  have ready: "prepared r f ?h4" if "1 \<le> flSetConcurrency f" "1 \<le> flHibConcurrency f" "?e1 = None" "?e2 = None" "?e3 = None"
    using assms that by (simp add: connected_def prepared_def)
  show ?thesis
    unfolding runControllers_def setupCocoonSet_def setupHibernation_def
    using fatal started_once [OF none ready] by (auto simp: wp_simps split: option.split)
qed

lemma wp_connect:
  assumes "list_all (\<lambda>c. \<not> starts c) h" and "NewManager (managerOptionsOf f [''client-go'', ''cocoon/v1'']) None \<in> set h"
    and "AddHealthzCheck ''healthz'' None \<in> set h" and "AddReadyzCheck ''readyz'' None \<in> set h"
  shows "wp (connect r f) (startsPrepared r f) h"
  unfolding connect_def buildRegistry_def Let_def using assms
  by (auto simp: wp_bind wp_if wp_return wp_tell wp_attempt intro!: not_started wp_runControllers
      simp: connected_def split: option.split)

lemma wp_prepareManager:
  assumes "list_all (\<lambda>c. \<not> starts c) h"
  shows "wp (prepareManager r f [''client-go'', ''cocoon/v1'']) (startsPrepared r f) h"
  unfolding prepareManager_def using assms
  by (auto simp: wp_bind wp_return wp_attempt intro!: not_started wp_connect split: option.split)

text \<open>
  C34: the operator never runs half configured. Whatever the environment, the command line and the
  packages answer, the manager is started at most once, and only after the manager was created with the parsed flags,
  both probes were added, a registry client was built from a non-empty \<open>OCI_REGISTRY\<close>, all collectors were
  registered, the pod reference index was installed, and both reconcilers were registered with at least one worker
  each and as many as the flags say; \<open>main\<close> returns only after the manager ran, and then the event broadcaster
  was shut down.
\<close>

theorem start_prepared:
  assumes "run_state (mainProgram r c) [] = (res, cs)"
  shows "length (filter starts cs) \<le> 1 \<and>
    (\<forall>post x pre. cs = post @ StartManager x # pre \<longrightarrow> prepared r (parseFlags r c) pre) \<and>
    (res = Returned \<longrightarrow> list_ex starts cs \<and> hd cs = ShutdownBroadcaster)"
proof -
  have "wp (mainProgram r c) (startsPrepared r (parseFlags r c)) []"
    unfolding mainProgram_def Let_def
    by (auto simp: wp_bind wp_return wp_attempt wp_tell buildScheme_def intro!: not_started wp_prepareManager
        split: option.split sum.split if_splits)
  from wpD [OF this assms] show ?thesis unfolding startsPrepared_def .
qed

text \<open>The packages accept everything they are asked.\<close>

definition agreeable :: "startEnv \<Rightarrow> bool" where
  "agreeable r \<longleftrightarrow> (\<forall>g. schemeErr r g = None) \<and> (\<forall>h. setupLogErr r h = None) \<and> kubeConfigErr r = None \<and> (\<forall>h o'. newManagerErr r h o' = None) \<and>
     (\<forall>h n. addCheckErr r h n = None) \<and> (\<forall>h. clientsetErr r h = None) \<and> (\<forall>h k f. indexFieldErr r h k f = None) \<and>
     (\<forall>h c. completeErr r h c = None) \<and> (\<forall>h. startErr r h = None)"

text \<open>
  C35: a good configuration starts. When the packages accept every call, \<open>main\<close> ends as its configuration
  decides: with \<open>OCI_REGISTRY\<close> unset it stops at the registry client, with a worker count below one at the
  reconciler that count is for, the CocoonSet reconciler first, and otherwise it runs the manager and returns.
\<close>

theorem start_decided:
  assumes "agreeable r"
  shows "result (mainProgram r c) [] =
    (let f = parseFlags r c in
     if getenv r ''OCI_REGISTRY'' = [] then Fatal ''create registry client'' (ErrMsg ''OCI_REGISTRY must be set'')
     else if flSetConcurrency f < 1 then Fatal ''register cocoonset.Reconciler''
       (ErrMsg (''cocoonset concurrency must be at least 1, got '' @ formatInt (flSetConcurrency f)))
     else if flHibConcurrency f < 1 then Fatal ''register hibernation.Reconciler''
       (ErrMsg (''hibernation concurrency must be at least 1, got '' @ formatInt (flHibConcurrency f)))
     else Returned)"
proof -
  let ?want = "let f = parseFlags r c in
     if getenv r ''OCI_REGISTRY'' = [] then Fatal ''create registry client'' (ErrMsg ''OCI_REGISTRY must be set'')
     else if flSetConcurrency f < 1 then Fatal ''register cocoonset.Reconciler''
       (ErrMsg (''cocoonset concurrency must be at least 1, got '' @ formatInt (flSetConcurrency f)))
     else if flHibConcurrency f < 1 then Fatal ''register hibernation.Reconciler''
       (ErrMsg (''hibernation concurrency must be at least 1, got '' @ formatInt (flHibConcurrency f)))
     else Returned"
  have "wp (runControllers r f) (\<lambda>res _. res =
     (if flSetConcurrency f < 1 then Fatal ''register cocoonset.Reconciler''
       (ErrMsg (''cocoonset concurrency must be at least 1, got '' @ formatInt (flSetConcurrency f)))
     else if flHibConcurrency f < 1 then Fatal ''register hibernation.Reconciler''
       (ErrMsg (''hibernation concurrency must be at least 1, got '' @ formatInt (flHibConcurrency f)))
     else Returned)) h" for f h
    using assms by (simp add: runControllers_def setupCocoonSet_def setupHibernation_def agreeable_def wp_simps)
  then have "wp (mainProgram r c) (\<lambda>res _. res = ?want) []"
    using assms by (simp add: mainProgram_def prepareManager_def connect_def buildRegistry_def buildScheme_def agreeable_def
        Let_def wp_bind wp_return wp_attempt wp_tell wp_if)
  then show ?thesis by (simp add: wp_result_final)
qed


section \<open>A concrete start\<close>

definition demoStart :: startEnv where
  "demoStart = \<lparr>envBool = (\<lambda>_ d. d), envOrDefault = (\<lambda>_ d. d), envInt = (\<lambda>_ d. d), getenv = (\<lambda>_. ''registry''),
     schemeErr = (\<lambda>_. None), setupLogErr = (\<lambda>_. None), kubeConfigErr = None, newManagerErr = (\<lambda>_ _. None), addCheckErr = (\<lambda>_ _. None),
     clientsetErr = (\<lambda>_. None), indexFieldErr = (\<lambda>_ _ _. None), completeErr = (\<lambda>_ _. None), startErr = (\<lambda>_. None)\<rparr>"

definition demoCmd :: "int option \<Rightarrow> cmdline" where
  "demoCmd n = \<lparr>clMetricsAddr = None, clProbeAddr = None, clLeaderElect = None, clSetConcurrency = n, clHibConcurrency = None\<rparr>"

lemma demo_agreeable: "agreeable demoStart"
  by (simp add: agreeable_def demoStart_def)

lemma format_zero: "formatInt 0 = ''0''"
  by code_simp

theorem start_decided_witness:
  "result (mainProgram demoStart (demoCmd None)) [] = Returned \<and>
   result (mainProgram demoStart (demoCmd (Some 0))) [] = Fatal ''register cocoonset.Reconciler''
     (ErrMsg ''cocoonset concurrency must be at least 1, got 0'')"
  using start_decided [OF demo_agreeable, of "demoCmd None"] start_decided [OF demo_agreeable, of "demoCmd (Some 0)"]
  by (simp add: demoStart_def demoCmd_def parseFlags_def defaultConcurrency_def format_zero)

lemma demo_started: "take 2 (final (mainProgram demoStart (demoCmd None)) []) = [ShutdownBroadcaster, StartManager None]"
  by code_simp

theorem start_prepared_witness: "\<exists>pre. prepared demoStart (parseFlags demoStart (demoCmd None)) pre"
proof -
  have "run_state (mainProgram demoStart (demoCmd None)) [] =
      (result (mainProgram demoStart (demoCmd None)) [], final (mainProgram demoStart (demoCmd None)) [])"
    by (simp add: result_def final_def)
  moreover have "final (mainProgram demoStart (demoCmd None)) [] =
      [ShutdownBroadcaster] @ StartManager None # drop 2 (final (mainProgram demoStart (demoCmd None)) [])"
    using append_take_drop_id [of 2 "final (mainProgram demoStart (demoCmd None)) []"] by (simp add: demo_started)
  ultimately show ?thesis using start_prepared by blast
qed

end
