(* ===== verification/Logbridge.thy ===== *)
theory Logbridge
  imports Kube
begin

text \<open>
  \<open>logbridge.go\<close>: the sink that forwards controller-runtime's logr output to core/log. Values
  are logged by their \<open>%v\<close> text, so a key or value is its text here.
\<close>

record crSink =
  sinkName :: string
  sinkKV :: "string list"

text \<open>What reaches core/log: the function name, the error of an error line, and the line.\<close>

datatype logLine =
    InfoLine string string
  | ErrorLine string gerr string

definition sinkEnabled :: "int \<Rightarrow> bool" where
  "sinkEnabled level \<longleftrightarrow> level = 0"

definition funcName :: "crSink \<Rightarrow> string" where
  "funcName s = strOr (sinkName s) ''controller-runtime''"

fun formatPairs :: "string list \<Rightarrow> string" where
  "formatPairs (k # v # rest) = '' '' @ k @ ''='' @ v @ formatPairs rest"
| "formatPairs _ = []"

definition sinkLine :: "crSink \<Rightarrow> string \<Rightarrow> string list \<Rightarrow> string" where
  "sinkLine s msg kvs =
     (let pairs = sinkKV s @ kvs in if pairs = [] then msg else msg @ formatPairs pairs)"

definition sinkInfo :: "crSink \<Rightarrow> string \<Rightarrow> string list \<Rightarrow> logLine" where
  "sinkInfo s msg kvs = InfoLine (funcName s) (sinkLine s msg kvs)"

definition sinkError :: "crSink \<Rightarrow> gerr option \<Rightarrow> string \<Rightarrow> string list \<Rightarrow> logLine" where
  "sinkError s err msg kvs =
     ErrorLine (funcName s) (case err of None \<Rightarrow> ErrMsg msg | Some e \<Rightarrow> e) (sinkLine s msg kvs)"

definition withValues :: "crSink \<Rightarrow> string list \<Rightarrow> crSink" where
  "withValues s kvs = s\<lparr>sinkKV := sinkKV s @ kvs\<rparr>"

definition withName :: "crSink \<Rightarrow> string \<Rightarrow> crSink" where
  "withName s name =
     s\<lparr>sinkName := (if sinkName s \<noteq> [] then sinkName s @ ''.'' @ name else name)\<rparr>"

lemma withValues_append: "withValues (withValues s a) b = withValues s (a @ b)"
  by (simp add: withValues_def)

lemma formatPairs_append: "even (length a) \<Longrightarrow> formatPairs (a @ b) = formatPairs a @ formatPairs b"
  by (induction a rule: formatPairs.induct) auto

end
