(* ===== verification/Spec2Isabelle.thy ===== *)
theory Spec2Isabelle
  imports SetFootprint AgentGroup VmLock Startup Logbridge
begin

text \<open>
  cocoon-operator, a Kubernetes operator that runs MicroVM agents. This development models the whole of its
  Go code and proves what makes it correct.

  \<^bold>\<open>The program.\<close> \<open>main.go\<close> reads flags and environment, builds a controller-runtime manager and registers
  two reconcilers. The CocoonSet reconciler (\<open>cocoonset/\<close>) keeps one main agent pod, its sub-agent pods and its
  toolbox pods, suspends them to \<open>:hibernate\<close> snapshots in an OCI registry, releases and wakes them, migrates the
  main between nodes, rebuilds failed pods within a budget and tears everything down behind a finalizer. The
  CocoonHibernation reconciler (\<open>hibernation/\<close>) hibernates and wakes one pod on request. Both go through
  \<open>podpatch/\<close> (annotation patches) and \<open>snapshot/\<close> (registry operations), update the collectors of
  \<open>metrics/\<close>, and meet in a pod's annotations and in the registry's tags. vk-cocoon, which runs the VMs,
  is another program: the operator sees it through pod annotations only.

  \<^bold>\<open>How code is modelled.\<close> A Go function with effects is a value of \<open>State_Monad\<close>'s type, \<open>'a setIO\<close> or \<open>'a hibIO\<close>.
  The state (\<open>setWorld\<close>, \<open>hibWorld\<close>) is a record that extends \<open>world\<close>, the history of all calls with their answers,
  latest first, by what the Go code reaches through pointers: the CocoonSet, the slice of owned pods (a
  \<open>*corev1.Pod\<close> into that slice is its index, so aliases share updates), the memo cell of the restore intent, the CocoonHibernation with
  its pod and the \<open>observed\<close> map. API server, registry, clock and context are functions from the history to an
  answer (\<open>env\<close>), so a theorem holds for every behaviour of them, failures at any call included.
  Errors are values of \<open>gerr\<close>, wrapped as the code wraps them; every early return is a branch. Integers
  are \<open>int\<close> with the wrap-around of \<open>int32\<close> and \<open>int64\<close> written out where the code computes. Imported
  packages are the records \<open>metaPkg\<close> and \<open>kubePkg\<close>: what a theorem relies on of them is one of its hypotheses
  (\<open>buildLaws\<close>, \<open>storesStash\<close>, \<open>agreeable\<close>), and its witness discharges it at the world of \<open>Fixture\<close>.

  \<^bold>\<open>Shared theories.\<close>
  \<^item> \<open>Prelude\<close>: weakest preconditions (\<open>wp\<close>, the collection \<open>wp_simps\<close>) and Go maps.
  \<^item> \<open>GoStd\<close>, \<open>GoTime\<close>, \<open>Json\<close>: decimal integers, \<open>strings\<close>, \<open>slices\<close>; RFC 3339 times of the years 1 to 9999;
    \<open>encoding/json/v2\<close>. Each with its print/parse round trip.
  \<^item> \<open>Kube\<close>, \<open>World\<close>: API objects, packages, the calls and their events; the calculus of footprints
    (\<open>emits\<close>, the collection \<open>emits_intros\<close>) and of guarded histories (\<open>guarded\<close>, the locales \<open>evidence\<close> and
    \<open>local_evidence\<close>: which events a stage may add given those before, kept under composition).
  \<^item> \<open>Metrics\<close>: \<open>metrics/metrics.go\<close>, the declarations and \<open>Register\<close>.
  \<^item> \<open>Snapshot\<close>: \<open>snapshot/registry.go\<close>; \<open>Podpatch\<close>: \<open>podpatch/podpatch.go\<close>, its three patches as
    interpretations of the locale \<open>short_circuit_patch\<close>.

  \<^bold>\<open>CocoonSet reconciler\<close>, one theory per file or phase of \<open>cocoonset/\<close>, in the order they call each other.
  \<^item> \<open>Pods\<close> (\<open>pods.go\<close>): classification of owned pods, pod building, drift. A built pod is classified into its slot and
    matches its spec after API defaulting.
  \<^item> \<open>Ownership\<close> (\<open>ownership.go\<close>, \<open>lifecycle.go\<close>), \<open>Status\<close> (\<open>status.go\<close>): what the status reports, and that an unchanged one
    is not written.
  \<^item> \<open>Rebuild\<close> (\<open>rebuild.go\<close>): the budget over any number of passes, persist before delete, backoff, the JSON history.
  \<^item> \<open>Reclaim\<close>, \<open>Suspend\<close> (\<open>suspend.go\<close>): the record of owed tags and when a VM leaves it; the record is stored before a
    pod is told to hibernate; the gate before \<open>Suspended\<close>; the deadline.
  \<^item> \<open>Restore\<close> (\<open>restore.go\<close>), \<open>MainAgent\<close> (\<open>reconciler.go\<close>): a main is created from the snapshot exactly when
    a probe saw it, and not at all when the probe failed.
  \<^item> \<open>DeleteSet\<close> (\<open>delete.go\<close>), \<open>SlotRelease\<close> (\<open>slotrelease.go\<close>), \<open>Migrate\<close> (\<open>migrate.go\<close>): the order of effects of a
    teardown, a release, a wake and a migration, as guarded histories.
  \<^item> \<open>Agents\<close> (\<open>agents.go\<close>), \<open>AgentGroup\<close>: the concurrent creation of sub-agents as a step relation over all
    interleavings; equivalence with the sequential closure, the concurrency limit, termination, completeness, no pod twice.
  \<^item> \<open>Toolboxes\<close> (\<open>toolboxes.go\<close>), \<open>SetReconciler\<close> (\<open>reconciler.go\<close>, \<open>predicate.go\<close>), \<open>SetFootprint\<close>: \<open>Reconcile\<close> as a whole and
    the calls it can make.

  \<^bold>\<open>CocoonHibernation reconciler.\<close>
  \<^item> \<open>Hibernation\<close> (\<open>reconciler.go\<close>, \<open>hibernate.go\<close>, \<open>wake.go\<close>): the definitions.
  \<^item> \<open>HibSafety\<close>: the abstract phase machine \<open>hibStep\<close> and the refinement, every status write of a pass being one of its steps.
  \<^item> \<open>HibEvidence\<close>: what a pass has seen before it writes \<open>Hibernated\<close>, drops a tag or announces a phase.
  \<^item> \<open>VmLock\<close>: the striped per-VM lock under any interleaving of workers.

  \<^bold>\<open>Process.\<close> \<open>Startup\<close> (\<open>main.go\<close>, \<open>version/\<close>, both \<open>SetupWithManager\<close>): what was prepared when the manager starts.
  \<open>Logbridge\<close> (\<open>logbridge.go\<close>): the log sink. This theory holds the properties of both reconcilers together.

  \<^bold>\<open>Bounds and fuel.\<close> A goroutine takes at most \<open>goSteps\<close> = 6 steps; \<open>runGroup\<close> appends that many turns per goroutine
  to an arbitrary schedule, and this is shown to end all of them. \<open>sweepSlots\<close> counts up to \<open>Replicas\<close> and ends by the
  measure \<open>2 ^ 31 - slot\<close>; for \<open>Replicas\<close> = \<open>2 ^ 31 - 1\<close> the \<open>int32\<close> counter of the Go loop wraps and the loop does not end, while
  the definition stops there. Everything else recurses over lists.

  \<^bold>\<open>Not modelled.\<close> The code behind the imported packages: controller-runtime's queue, caches and leader election,
  client-go, the registry client, vk-cocoon. The log lines the reconcilers write, which no code reads. The text of
  \<open>flag\<close>'s own diagnostics. \<open>maphash\<close> is a parameter (\<open>vmHash\<close> is an arbitrary function of the VM name). A panic of a reconciler
  is not a value of the model: the metric calls are shown not to panic, and the negative capacity in \<open>buildStatus\<close> is
  recorded at \<open>desired_agents_wrap\<close>.
\<close>


section \<open>Two reconcilers, one world\<close>

text \<open>
  C32: no metric update panics. Whatever the outside world answers, every update a pass of either reconciler makes is
  to a registered collector and carries exactly one value per declared label, so
  \<open>WithLabelValues\<close> finds its series.
\<close>

theorem metrics_labelled:
  "\<exists>es fs. hist (final (reconcileSet r ns name) s) = es @ hist s \<and>
     hist (final (reconcileHib r ns' name') s') = fs @ hist s' \<and>
     (\<forall>c ls d. EvMetric c ls d \<in> set (es @ fs) \<longrightarrow> c \<in> set Register \<and> length ls = length (cvLabels (vecOf c)))"
proof -
  from emitsD [OF reconcileSet_set] obtain es where
    es: "hist (final (reconcileSet r ns name) s) = es @ hist s" "list_all (setEvent r) es" by blast
  from emitsD [OF reconcileHib_hib] obtain fs where
    fs: "hist (final (reconcileHib r ns' name') s') = fs @ hist s'" "list_all (hibEvent r) fs" by blast
  have "labelled c ls" if "EvMetric c ls d \<in> set (es @ fs)" for c ls d
    using that es(2) fs(2) by (auto simp: list_all_iff)
  with es(1) fs(1) show ?thesis unfolding labelled_def by blast
qed


text \<open>
  C19: a hibernated VM whose pod is gone stays restorable. While a CocoonHibernation in phase \<open>Hibernated\<close> or
  \<open>Waking\<close> finds its pod missing, a pass writes nothing and asks to be called again; and a CocoonSet pass that lists this CR
  counts its pod among those to restore, so the recreated pod boots from the snapshot.
\<close>

theorem restore_intent_kept:
  assumes "cliGetHib (cli r) (hist s) ns name = Inr h" and "hbDeletionTimestamp h = None"
    and "\<not> fst (AddFinalizer (kube r) (hbFinalizers h) hibFinalizerName)" and "restorableByCR h"
    and "cliGetPod (cli r) (EvGetHib ns name (Inr h) # hist s) (hbNamespace h) (hbPodRef h) = Inl e" and "isNotFound e"
    and "cliListHibs (cli r) (hist u) (hbNamespace h) = Inr items" and "h \<in> set items" and "hbPodRef h \<noteq> []"
  shows "result (reconcileHib r ns name) s = (requeueIn hibInterval, None) \<and>
    hist (final (reconcileHib r ns name) s) =
      EvGetPod (hbNamespace h) (hbPodRef h) (Inl e) # EvGetHib ns name (Inr h) # hist s \<and>
    (\<exists>names. result (podsRestorableByCR r (hbNamespace h)) u = Inr names \<and> hbPodRef h \<in> set names)"
proof -
  have "wp (reconcileHib r ns name) (\<lambda>res t. res = (requeueIn hibInterval, None) \<and>
      hist t = EvGetPod (hbNamespace h) (hbPodRef h) (Inl e) # EvGetHib ns name (Inr h) # hist s) s"
    using assms by (auto simp: reconcileHib_def reconcileTarget_def markPending_def restorableByCR_def wp_simps split_def)
  moreover have "wp (podsRestorableByCR r (hbNamespace h)) (\<lambda>got _. \<exists>names. got = Inr names \<and> hbPodRef h \<in> set names) u"
    using assms by (auto simp: podsRestorableByCR_def hibernationPodNames_def wp_simps)
  ultimately show ?thesis by (simp add: wp_result_final)
qed

text \<open>
  A pod event reaches every CR that targets the pod. When the cache answers a lookup by pod reference from the index
  function the setup registers, an event of a pod requests exactly the CocoonHibernations of its namespace whose
  spec names it.
\<close>

theorem pod_event_wakes:
  assumes "\<And>h. cliListHibsByPodRef (cli r) h ns name =
      Inr (filter (\<lambda>x. hbNamespace x = ns \<and> name \<in> set (podRefIndex x)) store)"
  shows "set (result (hibernationsTargetingPod r ns name) s) =
    {(ns, hbName x) | x. x \<in> set store \<and> hbNamespace x = ns \<and> hbPodRef x = name}"
proof -
  have "wp (hibernationsTargetingPod r ns name) (\<lambda>reqs _. reqs =
      map (\<lambda>h. (hbNamespace h, hbName h)) (filter (\<lambda>x. hbNamespace x = ns \<and> name \<in> set (podRefIndex x)) store)) s"
    by (simp add: hibernationsTargetingPod_def wp_simps assms)
  then show ?thesis by (auto simp: wp_result_final podRefIndex_def)
qed


section \<open>Concrete runs\<close>

definition demoBoth :: env where
  "demoBoth = demoEnv [demoTarget ''true'' []] [demoHib DesireHibernate HPHibernating]
     [((''vk-ns-s-0'', ''hibernate''), ''img:1'')] 5"

fun updatesMetric :: "event \<Rightarrow> bool" where
  "updatesMetric (EvMetric _ _ _) = True"
| "updatesMetric _ = False"

lemma demo_metric: "list_ex updatesMetric (hist (final (reconcileHib demoBoth ''ns'' ''h'')
    (demoHibWorld (demoHib DesireHibernate HPHibernating) (demoTarget ''true'' []))))"
  by code_simp

theorem metrics_labelled_witness:
  "\<exists>c ls d. EvMetric c ls d \<in> set (hist (final (reconcileHib demoBoth ''ns'' ''h'')
     (demoHibWorld (demoHib DesireHibernate HPHibernating) (demoTarget ''true'' [])))) \<and>
     c \<in> set Register \<and> length ls = length (cvLabels (vecOf c))"
proof -
  let ?s = "demoHibWorld (demoHib DesireHibernate HPHibernating) (demoTarget ''true'' [])"
  obtain e where "e \<in> set (hist (final (reconcileHib demoBoth ''ns'' ''h'') ?s))" "updatesMetric e"
    using demo_metric by (auto simp: list_ex_iff)
  then obtain c ls d where "EvMetric c ls d \<in> set (hist (final (reconcileHib demoBoth ''ns'' ''h'') ?s))"
    by (cases e rule: updatesMetric.cases) auto
  moreover have "hist ?s = []" by (simp add: demoHibWorld_def)
  ultimately show ?thesis
    using metrics_labelled [of demoBoth "''ns''" "''s''" "demoWorld demoSet []" "''ns''" "''h''" ?s]
    by (intro exI [of _ c] exI [of _ ls] exI [of _ d]) auto
qed

definition demoWaking :: cocoonHibernation where
  "demoWaking = demoHib DesireWake HPWaking"

theorem restore_intent_kept_witness:
  "\<exists>names. result (podsRestorableByCR (demoEnv [] [demoWaking] [] 0) ''ns'') (demoWorld demoSet []) = Inr names \<and>
     ''s-0'' \<in> set names"
proof -
  have h: "hbDeletionTimestamp demoWaking = None" "hbNamespace demoWaking = ''ns''" "hbPodRef demoWaking = ''s-0''"
    "hbName demoWaking = ''h''" "hbFinalizers demoWaking = [hibFinalizerName]" "restorableByCR demoWaking"
    by (simp_all add: demoWaking_def demoHib_def restorableByCR_def)
  let ?r = "demoEnv [] [demoWaking] [] 0"
  have get: "cliGetHib (cli ?r) (hist (demoHibWorld demoWaking demoMain)) ''ns'' ''h'' = Inr demoWaking"
    "cliGetPod (cli ?r) (EvGetHib ''ns'' ''h'' (Inr demoWaking) # hist (demoHibWorld demoWaking demoMain))
       (hbNamespace demoWaking) (hbPodRef demoWaking) = Inl (ErrNotFound ''s-0'')"
    "cliListHibs (cli ?r) (hist (demoWorld demoSet [])) (hbNamespace demoWaking) = Inr [demoWaking]"
    "\<not> fst (AddFinalizer (kube ?r) (hbFinalizers demoWaking) hibFinalizerName)"
    by (simp_all add: h demoEnv_def demoClient_def demoKube_def)
  from restore_intent_kept [OF get(1) h(1) get(4) h(6) get(2) _ get(3)] h show ?thesis by simp
qed

theorem pod_event_wakes_witness:
  "set (result (hibernationsTargetingPod (demoEnv [] [demoWaking] [] 0) ''ns'' ''s-0'') (demoHibWorld demoWaking demoMain)) =
     {(''ns'', ''h'')}"
proof -
  have h: "hbNamespace demoWaking = ''ns''" "hbPodRef demoWaking = ''s-0''" "hbName demoWaking = ''h''"
    by (simp_all add: demoWaking_def demoHib_def)
  have "cliListHibsByPodRef (cli (demoEnv [] [demoWaking] [] 0)) hs ''ns'' ''s-0'' =
      Inr (filter (\<lambda>x. hbNamespace x = ''ns'' \<and> ''s-0'' \<in> set (podRefIndex x)) [demoWaking])" for hs
    by (simp add: demoEnv_def demoClient_def podRefIndex_def h)
  from pod_event_wakes [OF this] h show ?thesis by auto
qed

end
